(* ===== verification/Prelude.thy ===== *)
theory Prelude
  imports Main
begin

text \<open>
  Shared vocabulary of the development: the collections the component theories add their
  facts to, the synonyms for the types of Go the models use throughout, and generic lemmas
  on lists and sums that more than one component needs.

  A Go \<open>string\<close> is a sequence of bytes and is modelled as a \<^typ>\<open>string\<close>, whose
  characters are bytes.  A function that returns \<open>(T, error)\<close> is modelled with a sum:
  \<open>Inl\<close> carries the error and \<open>Inr\<close> the value, because none of the modelled
  functions returns both.
\<close>

named_theorems go_string "evaluation rules for the model of Go's string functions"
named_theorems go_error "evaluation rules for the model of Go's error values"
named_theorems http_simps "evaluation rules for handlers, response writers and middleware"

type_synonym gostring = string

text \<open>Durations and instants are Go's \<open>int64\<close> nanosecond counts, read as integers.\<close>

type_synonym duration = int

definition millisecond :: duration where
  "millisecond = 1000000"

definition second :: duration where
  "second = 1000 * millisecond"

section \<open>Lists\<close>

lemma foldl_append_concat: "foldl (\<lambda>out r. out @ r) acc rs = acc @ concat rs"
  by (induction rs arbitrary: acc) auto

lemma list_ex_concat_map: "list_ex P (concat (map f xs)) = list_ex (\<lambda>x. list_ex P (f x)) xs"
  by (induction xs) auto

lemma length_concat_map_const: "(\<And>x. length (f x) = n) \<Longrightarrow> length (concat (map f xs)) = length xs * n"
  by (induction xs) auto

lemma dropWhile_Nil_iff: "dropWhile P xs = [] \<longleftrightarrow> list_all P xs"
  by (induction xs) auto

lemma set_dropWhile_subset: "set (dropWhile P xs) \<subseteq> set xs"
  by (auto dest: set_dropWhileD)

lemma list_all_concat: "list_all P (concat xss) = list_all (list_all P) xss"
  by (induction xss) auto

section \<open>Sums\<close>

definition is_ok :: "'e + 'a \<Rightarrow> bool" where
  "is_ok r = (case r of Inl _ \<Rightarrow> False | Inr _ \<Rightarrow> True)"

lemma is_ok_simps [simp]: "\<not> is_ok (Inl e)" "is_ok (Inr x)"
  by (simp_all add: is_ok_def)

lemma is_okE: "is_ok r \<Longrightarrow> (\<And>x. r = Inr x \<Longrightarrow> P) \<Longrightarrow> P"
  by (cases r) auto

end
