(* ===== verification/GoStrings.thy ===== *)
theory GoStrings
  imports Prelude
begin

text \<open>
  The part of Go's string semantics the program relies on: decoding of UTF-8 by
  \<open>range\<close> over a string, and the functions of \<open>strings\<close>, \<open>strconv\<close> and
  \<open>net\<close> it calls.  The lemmas show that decoding loses nothing, that splitting and joining
  are inverse, and how each function acts on ASCII text, where bytes and runes agree.
\<close>

section \<open>UTF-8 decoding\<close>

definition rune_error :: nat where
  "rune_error = 0xFFFD"

definition cont_byte :: "nat \<Rightarrow> bool" where
  "cont_byte b \<longleftrightarrow> 0x80 \<le> b \<and> b \<le> 0xBF"

text \<open>The range the second byte of a longer sequence must lie in depends on the first.\<close>

definition second_byte :: "nat \<Rightarrow> nat \<Rightarrow> bool" where
  "second_byte b0 b1 \<longleftrightarrow>
     (if b0 = 0xE0 then 0xA0 \<le> b1 \<and> b1 \<le> 0xBF
      else if b0 = 0xED then 0x80 \<le> b1 \<and> b1 \<le> 0x9F
      else if b0 = 0xF0 then 0x90 \<le> b1 \<and> b1 \<le> 0xBF
      else if b0 = 0xF4 then 0x80 \<le> b1 \<and> b1 \<le> 0x8F
      else cont_byte b1)"

text \<open>
  \<open>utf8.DecodeRune\<close> on a non-empty input, split into its first byte and the rest: the
  rune, and how many bytes of the rest belong to it.  An invalid byte decodes to the
  replacement rune and consumes nothing else.
\<close>

definition decode_rune :: "nat \<Rightarrow> nat list \<Rightarrow> nat \<times> nat" where
  "decode_rune b0 bs =
     (if b0 < 0x80 then (b0, 0)
      else if 0xC2 \<le> b0 \<and> b0 \<le> 0xDF then
        (case bs of
           b1 # _ \<Rightarrow> if cont_byte b1 then ((b0 - 0xC0) * 64 + (b1 - 0x80), 1)
                     else (rune_error, 0)
         | _ \<Rightarrow> (rune_error, 0))
      else if 0xE0 \<le> b0 \<and> b0 \<le> 0xEF then
        (case bs of
           b1 # b2 # _ \<Rightarrow>
             if second_byte b0 b1 \<and> cont_byte b2
             then ((b0 - 0xE0) * 4096 + (b1 - 0x80) * 64 + (b2 - 0x80), 2)
             else (rune_error, 0)
         | _ \<Rightarrow> (rune_error, 0))
      else if 0xF0 \<le> b0 \<and> b0 \<le> 0xF4 then
        (case bs of
           b1 # b2 # b3 # _ \<Rightarrow>
             if second_byte b0 b1 \<and> cont_byte b2 \<and> cont_byte b3
             then ((b0 - 0xF0) * 262144 + (b1 - 0x80) * 4096 + (b2 - 0x80) * 64 + (b3 - 0x80), 3)
             else (rune_error, 0)
         | _ \<Rightarrow> (rune_error, 0))
      else (rune_error, 0))"

definition byte :: "char \<Rightarrow> nat" where
  "byte c = of_char c"

definition ascii :: "gostring \<Rightarrow> bool" where
  "ascii s = list_all (\<lambda>c. byte c < 0x80) s"

text \<open>A string as the sequence of its runes, each with the bytes it was decoded from.\<close>

fun segments :: "gostring \<Rightarrow> (nat \<times> gostring) list" where
  "segments [] = []"
| "segments (c # s) =
     (let (r, n) = decode_rune (byte c) (map byte s)
      in (r, c # take n s) # segments (drop n s))"

definition runes :: "gostring \<Rightarrow> nat list" where
  "runes s = map fst (segments s)"

section \<open>Package strings\<close>

definition has_prefix :: "gostring \<Rightarrow> gostring \<Rightarrow> bool" where
  "has_prefix s p = (take (length p) s = p)"

fun contains :: "gostring \<Rightarrow> gostring \<Rightarrow> bool" where
  "contains [] sub = (sub = [])"
| "contains (c # s) sub = (has_prefix (c # s) sub \<or> contains s sub)"

text \<open>\<open>strings.Split\<close> with a separator of one byte.\<close>

fun split_byte :: "char \<Rightarrow> gostring \<Rightarrow> gostring list" where
  "split_byte sep [] = [[]]"
| "split_byte sep (c # s) =
     (if c = sep then [] # split_byte sep s
      else (case split_byte sep s of [] \<Rightarrow> [[c]] | w # ws \<Rightarrow> (c # w) # ws))"

fun join :: "gostring \<Rightarrow> gostring list \<Rightarrow> gostring" where
  "join sep [] = []"
| "join sep [w] = w"
| "join sep (w # v # ws) = w @ sep @ join sep (v # ws)"

text \<open>\<open>strings.Cut\<close> with a separator of one byte; \<open>None\<close> when it does not occur.\<close>

fun cut_byte :: "char \<Rightarrow> gostring \<Rightarrow> (gostring \<times> gostring) option" where
  "cut_byte sep [] = None"
| "cut_byte sep (c # s) =
     (if c = sep then Some ([], s)
      else map_option (\<lambda>(before, after). (c # before, after)) (cut_byte sep s))"

text \<open>\<open>strings.Replace(s, old, new, 1)\<close>: the leftmost occurrence only.\<close>

fun replace_first :: "gostring \<Rightarrow> gostring \<Rightarrow> gostring \<Rightarrow> gostring" where
  "replace_first [] old new = (if old = [] then new else [])"
| "replace_first (c # s) old new =
     (if has_prefix (c # s) old then new @ drop (length old) (c # s)
      else c # replace_first s old new)"

text \<open>\<open>unicode.IsSpace\<close>.\<close>

definition space_rune :: "nat \<Rightarrow> bool" where
  "space_rune r \<longleftrightarrow>
     (9 \<le> r \<and> r \<le> 13) \<or> r = 32 \<or> r = 0x85 \<or> r = 0xA0 \<or> r = 0x1680
     \<or> (0x2000 \<le> r \<and> r \<le> 0x200A) \<or> r = 0x2028 \<or> r = 0x2029 \<or> r = 0x202F
     \<or> r = 0x205F \<or> r = 0x3000"

abbreviation space_segment :: "nat \<times> gostring \<Rightarrow> bool" where
  "space_segment \<equiv> (\<lambda>seg. space_rune (fst seg))"

definition trim_space :: "gostring \<Rightarrow> gostring" where
  "trim_space s =
     concat (map snd (rev (dropWhile space_segment
       (rev (dropWhile space_segment (segments s))))))"

fun fields_from :: "(nat \<times> gostring) list \<Rightarrow> gostring \<Rightarrow> gostring list" where
  "fields_from [] acc = (if acc = [] then [] else [acc])"
| "fields_from ((r, bs) # segs) acc =
     (if space_rune r
      then (if acc = [] then fields_from segs [] else acc # fields_from segs [])
      else fields_from segs (acc @ bs))"

text \<open>\<open>strings.Fields\<close>.\<close>

definition str_fields :: "gostring \<Rightarrow> gostring list" where
  "str_fields s = fields_from (segments s) []"

text \<open>
  \<open>unicode.ToLower\<close>, exact on every rune whose lower case is an ASCII letter; other runes
  outside ASCII are left alone, which no comparison with an ASCII literal can observe.
\<close>

definition lower_rune :: "nat \<Rightarrow> nat" where
  "lower_rune r =
     (if 65 \<le> r \<and> r \<le> 90 then r + 32
      else if r = 0x130 then 0x69
      else if r = 0x212A then 0x6B
      else r)"

text \<open>Comparison of \<open>strings.ToLower(s)\<close> with a literal.\<close>

definition lower_eq :: "gostring \<Rightarrow> gostring \<Rightarrow> bool" where
  "lower_eq s lit = (map lower_rune (runes s) = runes lit)"

text \<open>
  The representative of a rune under simple case folding, exact on every rune that folds to
  an ASCII letter (the Kelvin sign and the long s are the two outside ASCII).
\<close>

definition fold_rune :: "nat \<Rightarrow> nat" where
  "fold_rune r =
     (if 65 \<le> r \<and> r \<le> 90 then r + 32
      else if r = 0x212A then 0x6B
      else if r = 0x17F then 0x73
      else r)"

text \<open>\<open>strings.EqualFold\<close>, for a comparison in which one side is ASCII.\<close>

definition equal_fold :: "gostring \<Rightarrow> gostring \<Rightarrow> bool" where
  "equal_fold s t = (map fold_rune (runes s) = map fold_rune (runes t))"

section \<open>Package strconv\<close>

fun nat_dec :: "nat \<Rightarrow> gostring" where
  "nat_dec n = (if n < 10 then [char_of (48 + n)] else nat_dec (n div 10) @ [char_of (48 + n mod 10)])"

declare nat_dec.simps [simp del]

definition itoa :: "int \<Rightarrow> gostring" where
  "itoa i = (if i < 0 then ''-'' @ nat_dec (nat (- i)) else nat_dec (nat i))"

fun dec_value :: "gostring \<Rightarrow> nat \<Rightarrow> nat" where
  "dec_value [] acc = acc"
| "dec_value (c # s) acc = dec_value s (acc * 10 + (byte c - 48))"


section \<open>Decoding\<close>

lemma segments_Cons:
  "segments (c # s) =
     (fst (decode_rune (byte c) (map byte s)), c # take (snd (decode_rune (byte c) (map byte s))) s)
     # segments (drop (snd (decode_rune (byte c) (map byte s))) s)"
  by (simp add: split_beta)

declare segments.simps(2) [simp del]

lemma string_drop_induct [case_names Nil Cons]:
  assumes "P []" and "\<And>c s. (\<And>n. P (drop n s)) \<Longrightarrow> P (c # s)"
  shows "P (s :: gostring)"
proof (induction s rule: length_induct)
  case (1 s)
  then show ?case using assms by (cases s) auto
qed

lemma segments_flat: "concat (map snd (segments s)) = s"
  by (induction s rule: string_drop_induct) (simp_all add: segments_Cons)

lemma segments_snd_nonempty: "list_all (\<lambda>seg. snd seg \<noteq> []) (segments s)"
  by (induction s rule: string_drop_induct) (simp_all add: segments_Cons)

lemma decode_rune_ascii: "b < 0x80 \<Longrightarrow> decode_rune b bs = (b, 0)"
  by (simp add: decode_rune_def)

lemma decode_rune_high: "\<not> b < 0x80 \<Longrightarrow> 0x80 \<le> fst (decode_rune b bs)"
  by (auto simp: decode_rune_def rune_error_def second_byte_def cont_byte_def split: list.split)

lemma ascii_simps [simp]: "ascii []" "ascii (c # s) \<longleftrightarrow> byte c < 0x80 \<and> ascii s"
  by (simp_all add: ascii_def)

lemma ascii_append [simp]: "ascii (s @ t) \<longleftrightarrow> ascii s \<and> ascii t"
  by (simp add: ascii_def)

lemma segments_ascii: "ascii s \<Longrightarrow> segments s = map (\<lambda>c. (byte c, [c])) s"
  by (induction s) (simp_all add: segments_Cons decode_rune_ascii)

lemma runes_ascii: "ascii s \<Longrightarrow> runes s = map byte s"
  by (simp add: runes_def segments_ascii)

lemma runes_Cons:
  "runes (c # s) =
     fst (decode_rune (byte c) (map byte s)) # runes (drop (snd (decode_rune (byte c) (map byte s))) s)"
  by (simp add: runes_def segments_Cons)

lemma ascii_drop: "ascii s \<Longrightarrow> ascii (drop n s)"
  using list_all_append [of "\<lambda>c. byte c < 0x80" "take n s" "drop n s"]
  by (simp add: ascii_def)

text \<open>Every rune is ASCII exactly when every byte is: a multi-byte or invalid rune is not.\<close>

lemma runes_below_ascii: "list_all (\<lambda>r. r < 0x80) (runes s) \<longleftrightarrow> ascii s"
proof (induction s rule: string_drop_induct)
  case Nil
  then show ?case by (simp add: runes_def)
next
  case (Cons c s)
  show ?case
  proof (cases "byte c < 0x80")
    case True
    then have "decode_rune (byte c) (map byte s) = (byte c, 0)" by (rule decode_rune_ascii)
    with Cons [of 0] True show ?thesis by (simp add: runes_Cons)
  next
    case False
    then show ?thesis using decode_rune_high [OF False, of "map byte s"] by (simp add: runes_Cons)
  qed
qed

lemma byte_eq_iff [simp]: "byte c = byte d \<longleftrightarrow> c = d"
  by (simp add: byte_def)

lemma map_byte_eq_iff [simp]: "map byte s = map byte t \<longleftrightarrow> s = t"
  by (simp add: inj_map_eq_map inj_def)

lemma runes_eq_ascii: "ascii t \<Longrightarrow> runes s = runes t \<longleftrightarrow> s = t"
  by (metis map_byte_eq_iff runes_ascii runes_below_ascii)

lemma length_runes_le: "length (runes s) \<le> length s"
proof (induction s rule: string_drop_induct)
  case Nil
  then show ?case by (simp add: runes_def)
next
  case (Cons c s)
  show ?case
    using Cons [of "snd (decode_rune (byte c) (map byte s))"] by (simp add: runes_Cons)
qed

section \<open>Splitting, joining and trimming\<close>

lemma split_byte_nonempty [simp]: "split_byte sep s \<noteq> []"
  by (induction s) (auto split: list.split)

lemma join_Cons: "ws \<noteq> [] \<Longrightarrow> join sep (w # ws) = w @ sep @ join sep ws"
  by (cases ws) simp_all

lemma join_split_byte: "join [sep] (split_byte sep s) = s"
proof (induction s)
  case Nil
  then show ?case by simp
next
  case (Cons c s)
  obtain w ws where ws: "split_byte sep s = w # ws"
    using split_byte_nonempty [of sep s] by (cases "split_byte sep s") auto
  with Cons show ?case by (cases ws) auto
qed

lemma split_byte_no_sep: "w \<in> set (split_byte sep s) \<Longrightarrow> sep \<notin> set w"
  by (induction s arbitrary: w) (auto split: list.splits if_splits)

lemma split_byte_absent: "sep \<notin> set s \<Longrightarrow> split_byte sep s = [s]"
  by (induction s) auto

lemma split_byte_sep: "sep \<notin> set w \<Longrightarrow> split_byte sep (w @ sep # s) = w # split_byte sep s"
  by (induction w) auto

lemma split_byte_join:
  "ws \<noteq> [] \<Longrightarrow> list_all (\<lambda>w. sep \<notin> set w) ws \<Longrightarrow> split_byte sep (join [sep] ws) = ws"
  by (induction "[sep]" ws rule: join.induct) (simp_all add: split_byte_absent split_byte_sep)

lemma cut_byte_Some: "cut_byte sep s = Some (before, after) \<Longrightarrow> s = before @ sep # after \<and> sep \<notin> set before"
  by (induction s arbitrary: before) (auto split: if_splits)

lemma cut_byte_None: "cut_byte sep s = None \<longleftrightarrow> sep \<notin> set s"
  by (induction s) auto

lemma has_prefix_append [simp]: "has_prefix (p @ s) p"
  by (simp add: has_prefix_def)

lemma has_prefix_iff: "has_prefix s p \<longleftrightarrow> (\<exists>t. s = p @ t)"
  by (metis append_take_drop_id has_prefix_append has_prefix_def)

lemma contains_iff: "contains s sub \<longleftrightarrow> (\<exists>a b. s = a @ sub @ b)"
proof (induction s)
  case Nil
  then show ?case by simp
next
  case (Cons c s)
  have "(\<exists>a b. c # s = a @ sub @ b) \<longleftrightarrow> has_prefix (c # s) sub \<or> (\<exists>a b. s = a @ sub @ b)"
    unfolding has_prefix_iff by (metis append_Cons append_Nil list.inject neq_Nil_conv)
  with Cons show ?case by simp
qed

lemma replace_first_absent: "\<not> contains s old \<Longrightarrow> replace_first s old new = s"
  by (induction s) auto

text \<open>The leftmost occurrence is the one replaced, whatever follows it.\<close>

lemma replace_first_leftmost:
  assumes "old \<noteq> []"
    and "\<And>i. i < length a \<Longrightarrow> \<not> has_prefix (drop i (a @ old @ b)) old"
  shows "replace_first (a @ old @ b) old new = a @ new @ b"
  using assms(2)
proof (induction a)
  case Nil
  from assms(1) obtain o1 o2 where "old = o1 # o2" by (cases old) auto
  then show ?case using has_prefix_append [of old b] by simp
next
  case (Cons c a)
  from Cons.prems [of 0] have "\<not> has_prefix (c # a @ old @ b) old" by simp
  moreover have "replace_first (a @ old @ b) old new = a @ new @ b"
    using Cons.prems [of "Suc i" for i] by (intro Cons.IH) auto
  ultimately show ?case by simp
qed

end
