(* ===== verification/Errorx.thy ===== *)
theory Errorx
  imports GoStrings
begin

text \<open>
  Go error values and the domain error of \<open>pkg/errorx/error.go\<close>.

  An error is a tree: \<open>errors.New\<close> and sentinels are leaves, \<open>fmt.Errorf\<close> with
  \<open>%w\<close> and the domain error wrap one error, \<open>errors.Join\<close> wraps several.
  \<open>errors.Is\<close> and \<open>errors.As\<close> walk that tree depth first.  The lemmas show which
  type a wrapped, joined or retagged error reports, which is what carries a classification
  from the driver up to the status code.
\<close>

section \<open>Error values\<close>

text \<open>The sentinel errors the program compares against, with \<open>errors.Is\<close> or otherwise.\<close>

datatype sentinel =
    ErrNoRows | ErrTxClosed | DeadlineExceeded | Canceled | ErrServerClosed | ErrAbortHandler

text \<open>
  \<open>Foreign\<close> is an error some package outside the repository built: its text, and whether it
  implements \<open>net.Error\<close>.  A sentinel carries its text as well, since that text belongs to
  the package that declares it.  The domain error \<open>Typed\<close> is \<open>*errorx.Error\<close>, whose
  type is an integer of Go's open enumeration.
\<close>

datatype gerror =
    Sentinel sentinel gostring
  | Foreign gostring bool
  | ErrNew gostring
  | Wrapped gostring gerror
  | Joined "gerror list"
  | Typed gerror int

text \<open>\<open>Error()\<close>.\<close>

fun error_text :: "gerror \<Rightarrow> gostring" where
  "error_text (Sentinel s txt) = txt"
| "error_text (Foreign txt net) = txt"
| "error_text (ErrNew txt) = txt"
| "error_text (Wrapped prefix e) = prefix @ '': '' @ error_text e"
| "error_text (Joined es) = join [CHR 0x0A] (map error_text es)"
| "error_text (Typed e t) = error_text e"

text \<open>\<open>errors.Is(err, sentinel)\<close>.\<close>

fun errors_is :: "gerror \<Rightarrow> sentinel \<Rightarrow> bool" where
  "errors_is (Sentinel s txt) target = (s = target)"
| "errors_is (Foreign txt net) target = False"
| "errors_is (ErrNew txt) target = False"
| "errors_is (Wrapped prefix e) target = errors_is e target"
| "errors_is (Joined es) target = list_ex (\<lambda>e. errors_is e target) es"
| "errors_is (Typed e t) target = errors_is e target"

text \<open>
  \<open>errors.As\<close> with a \<open>net.Error\<close> target.  \<open>context.DeadlineExceeded\<close> implements
  that interface.
\<close>

fun as_net_error :: "gerror \<Rightarrow> bool" where
  "as_net_error (Sentinel s txt) = (s = DeadlineExceeded)"
| "as_net_error (Foreign txt net) = net"
| "as_net_error (ErrNew txt) = False"
| "as_net_error (Wrapped prefix e) = as_net_error e"
| "as_net_error (Joined es) = list_ex as_net_error es"
| "as_net_error (Typed e t) = as_net_error e"

text \<open>
  \<open>errors.As\<close> with an \<open>**errorx.Error\<close> target: the type of the first domain error met
  in the depth-first walk.
\<close>

fun as_typed :: "gerror \<Rightarrow> int option"
  and as_typed_list :: "gerror list \<Rightarrow> int option" where
  "as_typed (Sentinel s txt) = None"
| "as_typed (Foreign txt net) = None"
| "as_typed (ErrNew txt) = None"
| "as_typed (Wrapped prefix e) = as_typed e"
| "as_typed (Joined es) = as_typed_list es"
| "as_typed (Typed e t) = Some t"
| "as_typed_list [] = None"
| "as_typed_list (e # es) = (case as_typed e of Some t \<Rightarrow> Some t | None \<Rightarrow> as_typed_list es)"

text \<open>\<open>errors.Join\<close> over non-nil errors: nil when there are none.\<close>

definition errors_join :: "gerror list \<Rightarrow> gerror option" where
  "errors_join es = (if es = [] then None else Some (Joined es))"

section \<open>The domain error\<close>

definition ErrInternal :: int where "ErrInternal = 0"
definition ErrInvalidInput :: int where "ErrInvalidInput = 1"
definition ErrForbidden :: int where "ErrForbidden = 2"
definition ErrNotFound :: int where "ErrNotFound = 3"
definition ErrUnauthorized :: int where "ErrUnauthorized = 4"
definition ErrUnavailable :: int where "ErrUnavailable = 5"

lemmas error_type_defs =
  ErrInternal_def ErrInvalidInput_def ErrForbidden_def ErrNotFound_def ErrUnauthorized_def
  ErrUnavailable_def

definition NewError :: "gerror \<Rightarrow> int \<Rightarrow> gerror" where
  "NewError err code = Typed err code"

text \<open>\<open>TypeOf\<close> on a non-nil error, and on any error value including nil.\<close>

definition TypeOf :: "gerror \<Rightarrow> int" where
  "TypeOf err = (case as_typed err of Some t \<Rightarrow> t | None \<Rightarrow> ErrInternal)"

definition TypeOf_nilable :: "gerror option \<Rightarrow> int" where
  "TypeOf_nilable err = (case err of None \<Rightarrow> ErrInternal | Some e \<Rightarrow> TypeOf e)"

section \<open>How types travel through wrapping\<close>

text \<open>The domain error is transparent to \<open>Error()\<close>, \<open>errors.Is\<close> and \<open>errors.As\<close>.\<close>

lemma NewError_transparent [simp, go_error]:
  "error_text (NewError e t) = error_text e"
  "errors_is (NewError e t) s = errors_is e s"
  "as_net_error (NewError e t) = as_net_error e"
  by (simp_all add: NewError_def)

lemma TypeOf_NewError [simp, go_error]: "TypeOf (NewError e t) = t"
  by (simp add: TypeOf_def NewError_def)

lemma TypeOf_Wrapped [simp, go_error]: "TypeOf (Wrapped p e) = TypeOf e"
  by (simp add: TypeOf_def)

lemma TypeOf_leaf [simp, go_error]:
  "TypeOf (Sentinel s txt) = ErrInternal"
  "TypeOf (Foreign txt net) = ErrInternal"
  "TypeOf (ErrNew txt) = ErrInternal"
  by (simp_all add: TypeOf_def)

lemma as_typed_list_None: "as_typed_list es = None \<longleftrightarrow> list_all (\<lambda>e. as_typed e = None) es"
  by (induction es) (auto split: option.split)

lemma as_typed_list_skip:
  "list_all (\<lambda>e. as_typed e = None) es \<Longrightarrow> as_typed_list (es @ fs) = as_typed_list fs"
  by (induction es) auto

text \<open>No domain error anywhere in the tree: the error has never been classified.\<close>

fun untyped :: "gerror \<Rightarrow> bool" where
  "untyped (Sentinel s txt) = True"
| "untyped (Foreign txt net) = True"
| "untyped (ErrNew txt) = True"
| "untyped (Wrapped prefix e) = untyped e"
| "untyped (Joined es) = list_all untyped es"
| "untyped (Typed e t) = False"

lemma untyped_as_typed: "untyped e \<longleftrightarrow> as_typed e = None"
  by (induction e) (auto simp: as_typed_list_None list_all_iff)

lemma untyped_TypeOf: "untyped e \<Longrightarrow> TypeOf e = ErrInternal"
  by (simp add: untyped_as_typed TypeOf_def)

end
