(* ===== verification/Authx.thy ===== *)
theory Authx
  imports GoStrings Complex_Main
begin

text \<open>
  \<open>pkg/authx\<close>: the verified caller and the authorization rules written against it
  (\<open>identity.go\<close>, \<open>requirements.go\<close>, \<open>context.go\<close>).

  A requirement is a disjunction of conjunctions of scopes and roles.  The lemmas give the
  meaning of the combinators as the boolean connectives they are named for, relate the
  enforced requirement to the OpenAPI document generated from it, and show what the denial log
  line can and cannot say.
\<close>

section \<open>Identities\<close>

text \<open>
  A value of Go's type \<open>any\<close> as it occurs among a token's claims: what \<open>encoding/json\<close>
  decodes to, and a \<open>[]string\<close>, which the code also accepts.
\<close>

datatype goval =
    VNil
  | VBool bool
  | VNumber rat
  | VString gostring
  | VStrings "gostring list"
  | VList "goval list"
  | VMap "(gostring \<times> goval) list"

record identity =
  Subject :: gostring
  Scopes :: "gostring list"
  Roles :: "gostring list"
  Claims :: "(gostring \<times> goval) list"

definition HasScope :: "identity \<Rightarrow> gostring \<Rightarrow> bool" where
  "HasScope i scope = List.member (Scopes i) scope"

definition HasRole :: "identity \<Rightarrow> gostring \<Rightarrow> bool" where
  "HasRole i role = List.member (Roles i) role"

text \<open>The request context, as far as the identity key is concerned.\<close>

record auth_context =
  identityKey :: "identity option"

definition NewContext :: "('a auth_context_scheme) \<Rightarrow> identity \<Rightarrow> 'a auth_context_scheme" where
  "NewContext ctx i = ctx\<lparr>identityKey := Some i\<rparr>"

definition FromContext :: "('a auth_context_scheme) \<Rightarrow> identity option" where
  "FromContext ctx = identityKey ctx"

section \<open>Requirements\<close>

record requirement =
  req_scopes :: "gostring list"
  req_roles :: "gostring list"

type_synonym requirements = "requirement list"

definition Scope :: "gostring list \<Rightarrow> requirements" where
  "Scope names = [\<lparr>req_scopes = names, req_roles = []\<rparr>]"

definition Role :: "gostring list \<Rightarrow> requirements" where
  "Role names = [\<lparr>req_scopes = [], req_roles = names\<rparr>]"

definition Authenticated :: requirements where
  "Authenticated = [\<lparr>req_scopes = [], req_roles = []\<rparr>]"

definition AnyOf :: "requirements list \<Rightarrow> requirements" where
  "AnyOf rs = foldl (\<lambda>out r. out @ r) [] rs"

definition slice_concat :: "gostring list \<Rightarrow> gostring list \<Rightarrow> gostring list" where
  "slice_concat a b = (if length a + length b = 0 then [] else a @ b)"

text \<open>One round of the loop of \<open>AllOf\<close>: every accumulated term with every term of \<open>r\<close>.\<close>

definition cross :: "requirements \<Rightarrow> requirements \<Rightarrow> requirements" where
  "cross out r =
     concat (map (\<lambda>acc. map (\<lambda>trm.
        \<lparr>req_scopes = slice_concat (req_scopes acc) (req_scopes trm),
         req_roles = slice_concat (req_roles acc) (req_roles trm)\<rparr>) r) out)"

fun AllOf_loop :: "requirements \<Rightarrow> requirements list \<Rightarrow> requirements" where
  "AllOf_loop out [] = out"
| "AllOf_loop out (r # rs) = (if length r = 0 then [] else AllOf_loop (cross out r) rs)"

definition AllOf :: "requirements list \<Rightarrow> requirements" where
  "AllOf rs = AllOf_loop [\<lparr>req_scopes = [], req_roles = []\<rparr>] rs"

definition satisfied :: "requirement \<Rightarrow> identity \<Rightarrow> bool" where
  "satisfied r i \<longleftrightarrow>
     list_all (\<lambda>scope. HasScope i scope) (req_scopes r) \<and> list_all (\<lambda>role. HasRole i role) (req_roles r)"

fun Satisfied :: "requirements \<Rightarrow> identity \<Rightarrow> bool" where
  "Satisfied [] i = False"
| "Satisfied (alt # r) i = (if satisfied alt i then True else Satisfied r i)"

text \<open>
  The OpenAPI security field: one single-entry map per alternative; \<open>None\<close> is the nil slice
  of a requirement nobody can satisfy.
\<close>

type_synonym security = "(gostring \<times> gostring list) list list"

definition OpenAPI :: "requirements \<Rightarrow> gostring \<Rightarrow> security option" where
  "OpenAPI r scheme =
     (if length r = 0 then None else Some (map (\<lambda>alt. [(scheme, [] @ req_scopes alt)]) r))"

definition alt_parts :: "requirement \<Rightarrow> gostring list" where
  "alt_parts alt =
     map (\<lambda>scope. ''scope:'' @ scope) (req_scopes alt) @ map (\<lambda>role. ''role:'' @ role) (req_roles alt)"

definition alt_string :: "requirement \<Rightarrow> gostring" where
  "alt_string alt = (if alt_parts alt = [] then ''authenticated'' else join ''+'' (alt_parts alt))"

definition Requirements_String :: "requirements \<Rightarrow> gostring" where
  "Requirements_String r =
     (if length r = 0 then ''none satisfiable'' else join '' or '' (map alt_string r))"

section \<open>Meaning of the combinators\<close>

lemma HasScope_iff [simp]: "HasScope i s \<longleftrightarrow> s \<in> set (Scopes i)"
  by (simp add: HasScope_def)

lemma HasRole_iff [simp]: "HasRole i s \<longleftrightarrow> s \<in> set (Roles i)"
  by (simp add: HasRole_def)

lemma FromContext_NewContext [simp]: "FromContext (NewContext ctx i) = Some i"
  by (simp add: FromContext_def NewContext_def)

lemma slice_concat_append [simp]: "slice_concat a b = a @ b"
  by (simp add: slice_concat_def)

lemma satisfied_iff:
  "satisfied r i \<longleftrightarrow> set (req_scopes r) \<subseteq> set (Scopes i) \<and> set (req_roles r) \<subseteq> set (Roles i)"
  by (auto simp: satisfied_def list_all_iff)

lemma Satisfied_list_ex: "Satisfied r i = list_ex (\<lambda>alt. satisfied alt i) r"
  by (induction r) auto

lemma Satisfied_append: "Satisfied (r @ s) i \<longleftrightarrow> Satisfied r i \<or> Satisfied s i"
  by (simp add: Satisfied_list_ex)

lemma AnyOf_concat: "AnyOf rs = concat rs"
  by (simp add: AnyOf_def foldl_append_concat)

lemma Satisfied_concat: "Satisfied (concat rs) i = list_ex (\<lambda>r. Satisfied r i) rs"
  by (induction rs) (auto simp: Satisfied_append)

lemma Satisfied_cross: "Satisfied (cross out r) i \<longleftrightarrow> Satisfied out i \<and> Satisfied r i"
proof -
  have "satisfied \<lparr>req_scopes = slice_concat (req_scopes a) (req_scopes b),
                   req_roles = slice_concat (req_roles a) (req_roles b)\<rparr> i
        \<longleftrightarrow> satisfied a i \<and> satisfied b i" for a b
    by (simp add: satisfied_iff conj_ac)
  then show ?thesis
    by (simp add: cross_def Satisfied_list_ex list_ex_concat_map list.pred_map comp_def list_ex_iff)
qed

lemma Satisfied_AllOf_loop:
  "Satisfied (AllOf_loop out rs) i \<longleftrightarrow> Satisfied out i \<and> list_all (\<lambda>r. Satisfied r i) rs"
proof (induction rs arbitrary: out)
  case (Cons r rs)
  then show ?case by (cases "r = []") (simp_all add: Satisfied_cross conj_assoc)
qed simp

lemma Satisfied_AllOf: "Satisfied (AllOf rs) i \<longleftrightarrow> list_all (\<lambda>r. Satisfied r i) rs"
  by (simp add: AllOf_def Satisfied_AllOf_loop satisfied_iff)

lemma Satisfied_AnyOf: "Satisfied (AnyOf rs) i \<longleftrightarrow> list_ex (\<lambda>r. Satisfied r i) rs"
  by (simp add: AnyOf_concat Satisfied_concat)

lemma Satisfied_Scope: "Satisfied (Scope names) i \<longleftrightarrow> set names \<subseteq> set (Scopes i)"
  by (simp add: Scope_def satisfied_iff)

lemma Satisfied_Role: "Satisfied (Role names) i \<longleftrightarrow> set names \<subseteq> set (Roles i)"
  by (simp add: Role_def satisfied_iff)

lemma Satisfied_Authenticated: "Satisfied Authenticated i"
  by (simp add: Authenticated_def satisfied_iff)

lemmas requirement_semantics =
  Satisfied_AllOf Satisfied_AnyOf Satisfied_Scope Satisfied_Role Satisfied_Authenticated

lemma length_cross: "length (cross out r) = length out * length r"
  by (simp add: cross_def length_concat_map_const)

lemma length_AllOf_loop: "length (AllOf_loop out rs) = length out * prod_list (map length rs)"
  by (induction rs arbitrary: out) (auto simp: length_cross)

section \<open>Rendering\<close>

lemma join_prefix_hd: "w \<noteq> [] \<Longrightarrow> hd (join sep (w # ws)) = hd w"
  by (cases ws) auto

lemma alt_string_hd: "alt_string alt \<noteq> [] \<and> hd (alt_string alt) \<in> {CHR ''s'', CHR ''r'', CHR ''a''}"
proof (cases "alt_parts alt")
  case Nil
  then show ?thesis by (simp add: alt_string_def)
next
  case (Cons p ps)
  then have "p \<in> set (alt_parts alt)" by simp
  then have p: "p \<noteq> []" "hd p \<in> {CHR ''s'', CHR ''r''}"
    by (auto simp: alt_parts_def)
  with Cons have "alt_string alt = join ''+'' (p # ps)" by (simp add: alt_string_def)
  moreover have "join ''+'' (p # ps) \<noteq> []" using p by (cases ps) auto
  ultimately show ?thesis using p join_prefix_hd [of p "''+''" ps] by auto
qed

lemma Requirements_String_hd:
  "r \<noteq> [] \<Longrightarrow> hd (Requirements_String r) \<in> {CHR ''s'', CHR ''r'', CHR ''a''}"
proof (cases r)
  case (Cons alt alts)
  then have "hd (Requirements_String r) = hd (alt_string alt)"
    using alt_string_hd [of alt] by (simp add: Requirements_String_def join_prefix_hd)
  then show ?thesis using alt_string_hd [of alt] by simp
qed simp

section \<open>Properties\<close>

text \<open>
  C15: \<open>AllOf\<close> and \<open>AnyOf\<close> are conjunction and disjunction of the requirements they
  combine, for every identity: the cross product loses no alternative and adds none, and an
  argument nobody can satisfy makes the conjunction unsatisfiable instead of being skipped.
\<close>

theorem combinators_are_connectives:
  "(Satisfied (AllOf rs) i = list_all (\<lambda>r. Satisfied r i) rs)
   \<and> (Satisfied (AnyOf rs) i = list_ex (\<lambda>r. Satisfied r i) rs)
   \<and> \<not> Satisfied (AllOf (rs @ [AnyOf []])) i"
  by (simp add: requirement_semantics)

text \<open>
  The cross product has one alternative for every way of picking a term from each argument,
  so its size is the product of the sizes.
\<close>

lemma AllOf_size: "length (AllOf rs) = prod_list (map length rs)"
  by (simp add: AllOf_def length_AllOf_loop)

text \<open>
  C29: the document never overstates what is enforced.  Whoever satisfies the requirement holds
  every scope of some documented alternative; the projection is nil exactly when nobody can
  satisfy the requirement at all; and where no alternative names a role the document is exact.
\<close>

theorem OpenAPI_understates:
  "(Satisfied r i \<longrightarrow>
      (\<exists>doc. OpenAPI r scheme = Some doc
         \<and> list_ex (\<lambda>alt. list_all (\<lambda>(name, scopes). name = scheme \<and> set scopes \<subseteq> set (Scopes i)) alt) doc))
   \<and> (OpenAPI r scheme = None \<longleftrightarrow> (\<forall>j. \<not> Satisfied r j))
   \<and> (list_all (\<lambda>alt. req_roles alt = []) r \<longrightarrow>
      Satisfied r i = (case OpenAPI r scheme of None \<Rightarrow> False
        | Some doc \<Rightarrow> list_ex (list_all (\<lambda>(name, scopes). set scopes \<subseteq> set (Scopes i))) doc))"
proof -
  have "\<exists>j. Satisfied (alt # alts) j" for alt alts
    by (rule exI [of _ "\<lparr>Subject = [], Scopes = req_scopes alt, Roles = req_roles alt, Claims = []\<rparr>"])
      (simp add: satisfied_iff)
  then have "OpenAPI r scheme = None \<longleftrightarrow> (\<forall>j. \<not> Satisfied r j)"
    by (cases r) (auto simp: OpenAPI_def simp del: Satisfied.simps(2))
  moreover have "Satisfied r i \<Longrightarrow> r \<noteq> []"
    by auto
  ultimately show ?thesis
    by (auto simp: OpenAPI_def Satisfied_list_ex list_ex_iff list_all_iff satisfied_iff)
qed

theorem OpenAPI_understates_witness:
  "let r = AllOf [Scope [''profile:write''], Role [''admin'']];
       i = \<lparr>Subject = ''u1'', Scopes = [''profile:write''], Roles = [''admin''], Claims = []\<rparr>
   in Satisfied r i
      \<and> (\<exists>doc. OpenAPI r ''bearerAuth'' = Some doc
           \<and> list_ex (\<lambda>alt. list_all (\<lambda>(name, scopes). name = ''bearerAuth'' \<and> set scopes \<subseteq> set (Scopes i)) alt) doc)"
proof -
  let ?r = "AllOf [Scope [''profile:write''], Role [''admin'']]"
  let ?i = "\<lparr>Subject = ''u1'', Scopes = [''profile:write''], Roles = [''admin''], Claims = []\<rparr>"
  have "Satisfied ?r ?i" by (simp add: requirement_semantics)
  then show ?thesis
    using OpenAPI_understates [of ?r ?i "''bearerAuth''"] by (simp add: Let_def)
qed

text \<open>
  Granting an identity more scopes or roles never loses it an authorization.
\<close>

lemma Satisfied_monotone:
  assumes "Satisfied r i"
    and "set (Scopes i) \<subseteq> set (Scopes j)" and "set (Roles i) \<subseteq> set (Roles j)"
  shows "Satisfied r j"
proof -
  from assms(1) obtain alt where "alt \<in> set r" "satisfied alt i"
    by (auto simp: Satisfied_list_ex list_ex_iff)
  moreover from this(2) assms(2,3) have "satisfied alt j"
    unfolding satisfied_iff by blast
  ultimately show ?thesis by (auto simp: Satisfied_list_ex list_ex_iff)
qed

lemma Satisfied_monotone_witness:
  "Satisfied (Scope [''a'']) \<lparr>Subject = ''u'', Scopes = [''b'', ''a''], Roles = [''r''], Claims = []\<rparr>"
  by (rule Satisfied_monotone
      [of _ "\<lparr>Subject = ''v'', Scopes = [''a''], Roles = [], Claims = []\<rparr>"])
    (simp_all add: Satisfied_Scope)

text \<open>
  A denial line says \<open>none satisfiable\<close> exactly when no identity could have been let
  through; no requirement that somebody satisfies renders that way, whatever its scopes and
  roles are called.
\<close>

lemma denial_line_none_satisfiable:
  "Requirements_String r = ''none satisfiable'' \<longleftrightarrow> (\<forall>i. \<not> Satisfied r i)"
proof (cases r)
  case Nil
  then show ?thesis by (simp add: Requirements_String_def)
next
  case (Cons alt alts)
  have "Satisfied (alt # alts) \<lparr>Subject = [], Scopes = req_scopes alt, Roles = req_roles alt, Claims = []\<rparr>"
    by (simp add: satisfied_iff)
  then have "\<exists>i. Satisfied (alt # alts) i" ..
  moreover have "Requirements_String r \<noteq> ''none satisfiable''"
    using Requirements_String_hd [of r] Cons by auto
  ultimately show ?thesis using Cons by (simp del: Satisfied.simps(2))
qed

end
