(* ===== verification/OidcClaims.thy ===== *)
theory OidcClaims
  imports Authx
begin

text \<open>
  \<open>pkg/oidcx/claims.go\<close>: reading scopes and roles out of a token's claims by a configured
  name.  A Go \<open>map[string]any\<close> is an association list read with \<^const>\<open>map_of\<close>.  The
  lemmas show that a claim whose whole name is a key wins over the dotted path, that a path
  reaches exactly the value nested under its segments, and that no list read from JSON claims
  holds an empty name.
\<close>

type_synonym claims = "(gostring \<times> goval) list"

text \<open>The walk along the segments of a dotted name, from a current value.\<close>

fun walk_claim :: "goval \<Rightarrow> gostring list \<Rightarrow> goval option" where
  "walk_claim current [] = Some current"
| "walk_claim current (segment # segs) =
     (case current of
        VMap nested \<Rightarrow>
          (case map_of nested segment of
             Some v \<Rightarrow> walk_claim v segs
           | None \<Rightarrow> None)
      | _ \<Rightarrow> None)"

definition lookupClaim :: "claims \<Rightarrow> gostring \<Rightarrow> goval option" where
  "lookupClaim cs name =
     (if name = [] then None
      else (case map_of cs name of
              Some v \<Rightarrow> Some v
            | None \<Rightarrow> walk_claim (VMap cs) (split_byte CHR ''.'' name)))"

fun string_items :: "goval list \<Rightarrow> gostring list" where
  "string_items [] = []"
| "string_items (item # items) =
     (case item of
        VString s \<Rightarrow> if s \<noteq> [] then s # string_items items else string_items items
      | _ \<Rightarrow> string_items items)"

definition claimList :: "claims \<Rightarrow> gostring \<Rightarrow> gostring list" where
  "claimList cs name =
     (case lookupClaim cs name of
        None \<Rightarrow> []
      | Some (VString s) \<Rightarrow> str_fields s
      | Some (VStrings ss) \<Rightarrow> ss
      | Some (VList items) \<Rightarrow> string_items items
      | Some _ \<Rightarrow> [])"

text \<open>
  The claims object in which a value sits under a path of nested objects, each holding nothing
  else: how a provider that nests its roles presents them.
\<close>

fun nest :: "gostring list \<Rightarrow> goval \<Rightarrow> goval" where
  "nest [] v = v"
| "nest (k # ks) v = VMap [(k, nest ks v)]"

text \<open>A value \<open>encoding/json\<close> can produce: it never decodes to a \<open>[]string\<close>.\<close>

fun json_value :: "goval \<Rightarrow> bool" where
  "json_value (VStrings ss) = False"
| "json_value (VList vs) = list_all json_value vs"
| "json_value (VMap kvs) = list_all (\<lambda>(k, v). json_value v) kvs"
| "json_value v = True"

section \<open>Lookup\<close>

lemma lookupClaim_key: "name \<noteq> [] \<Longrightarrow> map_of cs name = Some v \<Longrightarrow> lookupClaim cs name = Some v"
  by (simp add: lookupClaim_def)

lemma walk_claim_append: "walk_claim v (ks @ ls) = Option.bind (walk_claim v ks) (\<lambda>w. walk_claim w ls)"
  by (induction ks arbitrary: v) (simp_all split: goval.split option.split)

lemma walk_claim_nest: "walk_claim (nest ks v) ks = Some v"
  by (induction ks) simp_all

lemma walk_claim_json: "json_value u \<Longrightarrow> walk_claim u ks = Some v \<Longrightarrow> json_value v"
proof (induction ks arbitrary: u)
  case Nil
  then show ?case by simp
next
  case (Cons k ks)
  then obtain kvs w where "u = VMap kvs" "map_of kvs k = Some w" "walk_claim w ks = Some v"
    by (auto split: goval.splits option.splits)
  moreover from this Cons.prems(1) have "json_value w"
    by (auto simp: list_all_iff dest: map_of_SomeD)
  ultimately show ?case using Cons.IH by blast
qed

lemma lookupClaim_json:
  assumes "json_value (VMap cs)" and "lookupClaim cs name = Some v"
  shows "json_value v"
proof (cases "map_of cs name")
  case None
  with assms(2) have "walk_claim (VMap cs) (split_byte CHR ''.'' name) = Some v"
    by (simp add: lookupClaim_def split: if_splits)
  with assms(1) show ?thesis by (rule walk_claim_json)
next
  case (Some w)
  with assms(2) have "w = v" by (simp add: lookupClaim_def split: if_splits)
  with Some assms(1) show ?thesis by (auto simp: list_all_iff dest: map_of_SomeD)
qed

lemma split_dotted_nonempty: "CHR ''.'' \<in> set name \<Longrightarrow> tl (split_byte CHR ''.'' name) \<noteq> []"
proof (induction name)
  case (Cons c s)
  then show ?case by (auto split: list.splits)
qed simp

section \<open>Lists\<close>

lemma fields_from_nonempty:
  "list_all (\<lambda>seg. snd seg \<noteq> []) segs \<Longrightarrow> [] \<notin> set (fields_from segs acc)"
  by (induction segs acc rule: fields_from.induct) auto

lemma str_fields_nonempty: "[] \<notin> set (str_fields s)"
  by (simp add: str_fields_def fields_from_nonempty segments_snd_nonempty)

lemma string_items_nonempty: "[] \<notin> set (string_items items)"
  by (induction items rule: string_items.induct) (auto split: goval.split)

lemma string_items_set: "s \<in> set (string_items items) \<longleftrightarrow> VString s \<in> set items \<and> s \<noteq> []"
  by (induction items rule: string_items.induct) (auto split: goval.split)

lemma string_items_VString: "[] \<notin> set ss \<Longrightarrow> string_items (map VString ss) = ss"
  by (induction ss) auto

lemma claimList_json_nonempty:
  assumes "json_value (VMap cs)"
  shows "[] \<notin> set (claimList cs name)"
proof (cases "lookupClaim cs name")
  case None
  then show ?thesis by (simp add: claimList_def)
next
  case (Some v)
  with assms have "json_value v" by (rule lookupClaim_json)
  with Some show ?thesis
    by (cases v) (simp_all add: claimList_def str_fields_nonempty string_items_nonempty)
qed

lemma fields_from_joined:
  assumes "ascii w" "list_all (\<lambda>c. \<not> space_rune (byte c)) w"
  shows "fields_from (map (\<lambda>c. (byte c, [c])) w @ segs) acc = fields_from segs (acc @ w)"
  using assms by (induction w arbitrary: acc) auto

definition word :: "gostring \<Rightarrow> bool" where
  "word w \<longleftrightarrow> w \<noteq> [] \<and> ascii w \<and> list_all (\<lambda>c. \<not> space_rune (byte c)) w"

lemma ascii_join: "ascii sep \<Longrightarrow> list_all ascii ws \<Longrightarrow> ascii (join sep ws)"
  by (induction sep ws rule: join.induct) simp_all

lemma str_fields_join: "list_all word ws \<Longrightarrow> str_fields (join '' '' ws) = ws"
proof (induction ws)
  case Nil
  then show ?case by (simp add: str_fields_def)
next
  case (Cons w ws)
  have a: "ascii (join '' '' (w # ws))"
    using Cons.prems by (intro ascii_join) (auto simp: list_all_iff word_def byte_def)
  have w: "w \<noteq> []" "ascii w" "list_all (\<lambda>c. \<not> space_rune (byte c)) w"
    using Cons.prems by (auto simp: word_def)
  show ?case
  proof (cases ws)
    case Nil
    with w a fields_from_joined [OF w(2,3), of "[]" "[]"] show ?thesis
      by (simp add: str_fields_def segments_ascii)
  next
    case (Cons v vs)
    have sp: "space_rune (byte CHR '' '')" by (simp add: space_rune_def byte_def)
    have "join '' '' (w # ws) = w @ CHR '' '' # join '' '' ws" using Cons by simp
    with a w sp fields_from_joined [OF w(2,3)] Cons.IH Cons.prems show ?thesis
      by (simp add: str_fields_def segments_ascii Cons)
  qed
qed

section \<open>Properties\<close>

text \<open>
  C32: the three spellings in use resolve to the same value.  A name that is itself a key of
  the claims wins even when it contains dots; a name that is not a key is followed as a path
  and reaches a value nested under its segments; and the empty name resolves to nothing.
\<close>

theorem lookupClaim_conventions:
  assumes "name \<noteq> []"
  shows "lookupClaim ((name, v) # cs) name = Some v
    \<and> (map_of cs name = None \<longrightarrow> lookupClaim cs name = walk_claim (VMap cs) (split_byte CHR ''.'' name))
    \<and> (CHR ''.'' \<in> set name \<longrightarrow>
        (case nest (split_byte CHR ''.'' name) v of VMap kvs \<Rightarrow> lookupClaim kvs name | _ \<Rightarrow> None) = Some v)
    \<and> lookupClaim cs [] = None"
proof -
  have "(case nest (split_byte CHR ''.'' name) v of VMap kvs \<Rightarrow> lookupClaim kvs name | _ \<Rightarrow> None) = Some v"
    if dot: "CHR ''.'' \<in> set name"
  proof -
    obtain k ks where ks: "split_byte CHR ''.'' name = k # ks"
      using split_byte_nonempty [of "CHR ''.''" name] by (cases "split_byte CHR ''.'' name") auto
    with dot have "k \<noteq> name" using split_byte_no_sep [of k "CHR ''.''" name] by auto
    with ks assms walk_claim_nest [of "k # ks" v] show ?thesis by (simp add: lookupClaim_def)
  qed
  with assms show ?thesis by (simp add: lookupClaim_def)
qed

theorem lookupClaim_conventions_witness:
  "lookupClaim [(''realm_access'', VMap [(''roles'', VList [VString ''admin''])])] ''realm_access.roles''
     = Some (VList [VString ''admin''])
   \<and> lookupClaim [(''https://x.y/roles'', VString ''a'')] ''https://x.y/roles'' = Some (VString ''a'')"
  using lookupClaim_conventions [of "''realm_access.roles''" "VList [VString ''admin'']" "[]"]
    lookupClaim_conventions [of "''https://x.y/roles''" "VString ''a''" "[]"]
  by simp

text \<open>
  A space-delimited string and an array of strings with the same names give the same list,
  and a list read from JSON claims never contains an empty name.
\<close>

lemma claimList_spellings_agree:
  assumes "name \<noteq> []" and "list_all word ws"
  shows "claimList [(name, VString (join '' '' ws))] name = ws
    \<and> claimList [(name, VList (map VString ws))] name = ws
    \<and> (json_value (VMap cs) \<longrightarrow> [] \<notin> set (claimList cs name))"
proof -
  from assms(2) have "[] \<notin> set ws" by (auto simp: list_all_iff word_def)
  with assms have "claimList [(name, VString (join '' '' ws))] name = ws"
    and "claimList [(name, VList (map VString ws))] name = ws"
    by (simp_all add: claimList_def lookupClaim_def str_fields_join string_items_VString)
  then show ?thesis using claimList_json_nonempty by blast
qed

end
