(* ===== verification/Config.thy ===== *)
theory Config
  imports Errorx Complex_Main
begin

text \<open>
  \<open>config/config.go\<close> and the level policy of \<open>pkg/logx/logx.go\<close>: the configuration
  structure, the constraints its \<open>validate\<close> tags declare, the steps of \<open>New\<close>, and
  the log level derived from the result.  Reading and unmarshalling the file is viper's and
  enters as arguments.  \<open>default_config\<close> is \<open>config/default.toml\<close>.
\<close>

section \<open>The configuration structure\<close>

record AppConfig =
  app_Name :: gostring
  app_Environment :: gostring
  app_Version :: gostring
  app_LogLevel :: gostring

record CorsConfig =
  cors_Origins :: gostring
  cors_Methods :: gostring
  cors_Headers :: gostring

record RateLimitConfig =
  rl_Requests :: int
  rl_Window :: duration

record ClientIPConfig =
  cip_From :: gostring
  cip_TrustedProxies :: int
  cip_TrustedHeader :: gostring

record MetricsConfig =
  met_Enabled :: bool
  met_Path :: gostring

record HTTPConfig =
  http_Host :: gostring
  http_Port :: gostring
  http_ReadTimeout :: duration
  http_ReadHeaderTimeout :: duration
  http_WriteTimeout :: duration
  http_IdleTimeout :: duration
  http_RequestTimeout :: duration
  http_MaxBodyBytes :: int
  http_Cors :: CorsConfig
  http_RateLimit :: RateLimitConfig
  http_ClientIP :: ClientIPConfig
  http_Metrics :: MetricsConfig

record DatabaseConfig =
  db_Host :: gostring
  db_Port :: gostring
  db_DBName :: gostring
  db_Password :: gostring
  db_User :: gostring
  db_SSLModeDisabled :: bool
  db_MaxConns :: int
  db_MinConns :: int
  db_MaxConnLifetime :: duration
  db_MaxConnIdleTime :: duration
  db_HealthCheckPeriod :: duration
  db_StatementTimeout :: duration

record TracingConfig =
  tr_Enabled :: bool
  tr_Endpoint :: gostring
  tr_Insecure :: bool
  tr_SampleRatio :: rat

record OIDCConfig =
  oidc_Enabled :: bool
  oidc_Issuer :: gostring
  oidc_Audience :: gostring
  oidc_ScopeClaim :: gostring
  oidc_RolesClaim :: gostring
  oidc_DiscoveryTimeout :: duration
  oidc_RequireTypedAccessToken :: bool

record Config =
  cfg_App :: AppConfig
  cfg_Http :: HTTPConfig
  cfg_Database :: DatabaseConfig
  cfg_Tracing :: TracingConfig
  cfg_Oidc :: OIDCConfig

section \<open>Validation\<close>

definition required :: "gostring \<Rightarrow> bool" where
  "required s \<longleftrightarrow> s \<noteq> []"

definition omitempty_oneof :: "gostring list \<Rightarrow> gostring \<Rightarrow> bool" where
  "omitempty_oneof names s \<longleftrightarrow> s = [] \<or> List.member names s"

definition validate_app :: "AppConfig \<Rightarrow> bool" where
  "validate_app c \<longleftrightarrow>
     required (app_Name c) \<and> required (app_Environment c) \<and> required (app_Version c)
     \<and> omitempty_oneof [''debug'', ''info'', ''warn'', ''error''] (app_LogLevel c)"

definition validate_http :: "HTTPConfig \<Rightarrow> bool" where
  "validate_http c \<longleftrightarrow> required (http_Port c) \<and> 0 \<le> http_MaxBodyBytes c"

definition validate_database :: "DatabaseConfig \<Rightarrow> bool" where
  "validate_database c \<longleftrightarrow>
     required (db_Host c) \<and> required (db_Port c) \<and> required (db_DBName c)
     \<and> required (db_Password c) \<and> required (db_User c)
     \<and> 0 \<le> db_MaxConns c \<and> 0 \<le> db_MinConns c"

definition validate_tracing :: "TracingConfig \<Rightarrow> bool" where
  "validate_tracing c \<longleftrightarrow> 0 \<le> tr_SampleRatio c \<and> tr_SampleRatio c \<le> 1"

definition validate_config :: "Config \<Rightarrow> bool" where
  "validate_config c \<longleftrightarrow>
     validate_app (cfg_App c) \<and> validate_http (cfg_Http c)
     \<and> validate_database (cfg_Database c) \<and> validate_tracing (cfg_Tracing c)"

text \<open>
  \<open>New\<close>: open the embedded file, let viper read it (environment included), unmarshal, then
  validate.  The first three are given by their outcome, the validator by the error it reports
  for a rejected value.
\<close>

definition config_New ::
  "gerror option \<Rightarrow> gerror option \<Rightarrow> (gerror + Config) \<Rightarrow> (Config \<Rightarrow> gerror) \<Rightarrow> gerror + Config" where
  "config_New open_err read_err unmarshalled validation_error =
     (case open_err of
        Some err \<Rightarrow> Inl err
      | None \<Rightarrow>
          (case read_err of
             Some err \<Rightarrow> Inl err
           | None \<Rightarrow>
               (case unmarshalled of
                  Inl err \<Rightarrow> Inl err
                | Inr config \<Rightarrow>
                    if validate_config config then Inr config
                    else Inl (validation_error config))))"

section \<open>The shipped defaults\<close>

definition default_config :: Config where
  "default_config =
     \<lparr>cfg_App = \<lparr>app_Name = ''gopherizer'', app_Environment = ''local'', app_Version = ''1.0.0'',
                app_LogLevel = ''''\<rparr>,
      cfg_Http =
        \<lparr>http_Host = ''0.0.0.0'', http_Port = ''8080'',
         http_ReadTimeout = 120 * second, http_ReadHeaderTimeout = 10 * second,
         http_WriteTimeout = 120 * second, http_IdleTimeout = 120 * second,
         http_RequestTimeout = 30 * second, http_MaxBodyBytes = 1048576,
         http_Cors = \<lparr>cors_Origins = ''*'', cors_Methods = ''HEAD,GET,POST,PUT,PATCH,DELETE'',
                      cors_Headers = ''Content-Type,Content-Length''\<rparr>,
         http_RateLimit = \<lparr>rl_Requests = 100, rl_Window = 60 * second\<rparr>,
         http_ClientIP = \<lparr>cip_From = ''remote_addr'', cip_TrustedProxies = 0, cip_TrustedHeader = ''''\<rparr>,
         http_Metrics = \<lparr>met_Enabled = True, met_Path = ''/metrics''\<rparr>\<rparr>,
      cfg_Database =
        \<lparr>db_Host = ''localhost'', db_Port = ''5432'', db_DBName = ''gopher'', db_Password = ''password'',
         db_User = ''postgres'', db_SSLModeDisabled = True, db_MaxConns = 10, db_MinConns = 2,
         db_MaxConnLifetime = 3600 * second, db_MaxConnIdleTime = 1800 * second,
         db_HealthCheckPeriod = 60 * second, db_StatementTimeout = 15 * second\<rparr>,
      cfg_Tracing = \<lparr>tr_Enabled = False, tr_Endpoint = ''localhost:4318'', tr_Insecure = True,
                     tr_SampleRatio = 1\<rparr>,
      cfg_Oidc =
        \<lparr>oidc_Enabled = False, oidc_Issuer = '''', oidc_Audience = '''', oidc_ScopeClaim = ''scope'',
         oidc_RolesClaim = ''roles'', oidc_DiscoveryTimeout = 10 * second,
         oidc_RequireTypedAccessToken = False\<rparr>\<rparr>"

section \<open>Log levels\<close>

datatype log_level = LevelDebug | LevelInfo | LevelWarn | LevelError

text \<open>\<open>slog\<close>'s numeric levels, which order the names.\<close>

fun level_number :: "log_level \<Rightarrow> int" where
  "level_number LevelDebug = -4"
| "level_number LevelInfo = 0"
| "level_number LevelWarn = 4"
| "level_number LevelError = 8"

instantiation log_level :: linorder
begin

definition less_eq_log_level :: "log_level \<Rightarrow> log_level \<Rightarrow> bool" where
  "less_eq_log_level a b = (level_number a \<le> level_number b)"

definition less_log_level :: "log_level \<Rightarrow> log_level \<Rightarrow> bool" where
  "less_log_level a b = (level_number a < level_number b)"

instance
proof
  fix a b c :: log_level
  show "a < b \<longleftrightarrow> a \<le> b \<and> \<not> b \<le> a"
    by (auto simp: less_eq_log_level_def less_log_level_def)
  show "a \<le> a" by (simp add: less_eq_log_level_def)
  show "a \<le> b \<Longrightarrow> b \<le> c \<Longrightarrow> a \<le> c" by (simp add: less_eq_log_level_def)
  show "a \<le> b \<Longrightarrow> b \<le> a \<Longrightarrow> a = b"
    by (cases a; cases b) (simp_all add: less_eq_log_level_def)
  show "a \<le> b \<or> b \<le> a" by (auto simp: less_eq_log_level_def)
qed

end

text \<open>The \<open>levels\<close> table, looked up with the lower-cased name.\<close>

definition levels :: "gostring \<Rightarrow> log_level option" where
  "levels name =
     (if lower_eq name ''debug'' then Some LevelDebug
      else if lower_eq name ''info'' then Some LevelInfo
      else if lower_eq name ''warn'' then Some LevelWarn
      else if lower_eq name ''error'' then Some LevelError
      else None)"

definition Level :: "AppConfig \<Rightarrow> log_level" where
  "Level cfg =
     (case levels (app_LogLevel cfg) of
        Some level \<Rightarrow> level
      | None \<Rightarrow>
          if lower_eq (app_Environment cfg) ''local'' \<or> lower_eq (app_Environment cfg) ''development''
          then LevelDebug else LevelInfo)"

text \<open>\<open>logx.New\<close>: the configured level comes first, so that a caller's options may override it.\<close>

definition logx_New :: "(log_level \<Rightarrow> 'option) \<Rightarrow> ('option list \<Rightarrow> 'logger) \<Rightarrow> AppConfig \<Rightarrow> 'option list \<Rightarrow> 'logger" where
  "logx_New WithLevel NewHandler cfg opts = (let base = [WithLevel (Level cfg)] in NewHandler (base @ opts))"

text \<open>What \<open>New\<close> logs: the first two failures only, with the error's text.\<close>

definition config_New_log :: "gerror option \<Rightarrow> gerror option \<Rightarrow> (log_level \<times> gostring \<times> gostring) list" where
  "config_New_log open_err read_err =
     (case open_err of
        Some err \<Rightarrow> [(LevelError, ''failed reading config file'', error_text err)]
      | None \<Rightarrow>
          (case read_err of
             Some err \<Rightarrow> [(LevelError, ''failed reading config file'', error_text err)]
           | None \<Rightarrow> []))"

text \<open>The replacer that turns a key of the file into the name of its environment variable.\<close>

definition env_key_replacer :: "gostring \<Rightarrow> gostring" where
  "env_key_replacer key = map (\<lambda>c. if c = CHR ''.'' then CHR ''_'' else c) key"

section \<open>Lemmas\<close>

lemma config_New_valid:
  "config_New open_err read_err unmarshalled verr = Inr c \<Longrightarrow> unmarshalled = Inr c \<and> validate_config c"
  by (auto simp: config_New_def split: option.splits sum.splits if_splits)

lemma default_config_valid: "validate_config default_config"
  by (simp add: validate_config_def validate_app_def validate_http_def validate_database_def
      validate_tracing_def default_config_def required_def omitempty_oneof_def)

lemma levels_names:
  "levels ''debug'' = Some LevelDebug" "levels ''info'' = Some LevelInfo"
  "levels ''warn'' = Some LevelWarn" "levels ''error'' = Some LevelError"
  by (simp_all add: levels_def lower_eq_def runes_ascii byte_def lower_rune_def)

lemma levels_empty: "levels [] = None"
  by (simp add: levels_def lower_eq_def runes_ascii byte_def)

section \<open>Properties\<close>

text \<open>
  In a configuration that \<open>New\<close> returned, an explicit log level is always the one
  in force, by its name; and when it is unset the process logs at debug in the local and
  development environments, however these are capitalised, and at info in every other, so no
  environment silences operational records.
\<close>

lemma Level_of_loaded_config:
  assumes "config_New open_err read_err unmarshalled verr = Inr c"
  shows "(app_LogLevel (cfg_App c) \<noteq> [] \<longrightarrow> levels (app_LogLevel (cfg_App c)) = Some (Level (cfg_App c)))
    \<and> (app_LogLevel (cfg_App c) = [] \<longrightarrow> Level (cfg_App c) \<le> LevelInfo
        \<and> (Level (cfg_App c) = LevelDebug
            \<longleftrightarrow> lower_eq (app_Environment (cfg_App c)) ''local''
               \<or> lower_eq (app_Environment (cfg_App c)) ''development''))"
proof -
  from assms have "omitempty_oneof [''debug'', ''info'', ''warn'', ''error''] (app_LogLevel (cfg_App c))"
    by (auto dest: config_New_valid simp: validate_config_def validate_app_def)
  then consider "app_LogLevel (cfg_App c) = []" | "\<exists>l. levels (app_LogLevel (cfg_App c)) = Some l"
    by (auto simp: omitempty_oneof_def levels_names)
  then show ?thesis
    by cases (auto simp: Level_def levels_empty less_eq_log_level_def)
qed

lemma Level_of_loaded_config_witness:
  "config_New None None (Inr default_config) (\<lambda>c. ErrNew []) = Inr default_config
   \<and> Level (cfg_App default_config) = LevelDebug"
proof -
  have new: "config_New None None (Inr default_config) (\<lambda>c. ErrNew []) = Inr default_config"
    by (simp add: config_New_def default_config_valid)
  moreover have "lower_eq ''local'' ''local''"
    by (simp add: lower_eq_def runes_ascii byte_def lower_rune_def)
  ultimately show ?thesis
    using Level_of_loaded_config [OF new] by (simp add: default_config_def)
qed

end
