(* ===== verification/Base64.thy ===== *)
theory Base64
  imports GoStrings
begin

text \<open>
  \<open>base64.RawURLEncoding\<close>, which the verifier decodes a token's header with and the test
  provider (\<open>pkg/testinfra/oidc.go\<close>, \<open>encodeSegment\<close>) encodes one with: six bits
  per character over the URL alphabet and no padding.  The main lemma is that decoding inverts
  encoding.
\<close>

definition alphabet :: gostring where
  "alphabet = ''ABCDEFGHIJKLMNOPQRSTUVWXYZabcdefghijklmnopqrstuvwxyz0123456789-_''"

definition sextet_char :: "nat \<Rightarrow> char" where
  "sextet_char n = alphabet ! n"

text \<open>The value of a character of the alphabet.\<close>

definition char_sextet :: "char \<Rightarrow> nat option" where
  "char_sextet c =
     (let b = byte c in
      if 65 \<le> b \<and> b \<le> 90 then Some (b - 65)
      else if 97 \<le> b \<and> b \<le> 122 then Some (b - 97 + 26)
      else if 48 \<le> b \<and> b \<le> 57 then Some (b - 48 + 52)
      else if b = 45 then Some 62
      else if b = 95 then Some 63
      else None)"

text \<open>\<open>encodeSegment\<close>: three bytes to four characters, and the unpadded remainders.\<close>

fun encode_bytes :: "nat list \<Rightarrow> nat list" where
  "encode_bytes [] = []"
| "encode_bytes [a] = [a div 4, (a mod 4) * 16]"
| "encode_bytes [a, b] = [a div 4, (a mod 4) * 16 + b div 16, (b mod 16) * 4]"
| "encode_bytes (a # b # c # bs) =
     [a div 4, (a mod 4) * 16 + b div 16, (b mod 16) * 4 + c div 64, c mod 64] @ encode_bytes bs"

definition encodeSegment :: "gostring \<Rightarrow> gostring" where
  "encodeSegment raw = map sextet_char (encode_bytes (map byte raw))"

text \<open>A remainder of one character cannot hold a byte and is refused.\<close>

fun decode_sextets :: "nat list \<Rightarrow> nat list option" where
  "decode_sextets [] = Some []"
| "decode_sextets [a] = None"
| "decode_sextets [a, b] = Some [a * 4 + b div 16]"
| "decode_sextets [a, b, c] = Some [a * 4 + b div 16, (b mod 16) * 16 + c div 4]"
| "decode_sextets (a # b # c # d # ss) =
     map_option (\<lambda>bs. [a * 4 + b div 16, (b mod 16) * 16 + c div 4, (c mod 4) * 64 + d] @ bs)
       (decode_sextets ss)"

fun sextets :: "gostring \<Rightarrow> nat list option" where
  "sextets [] = Some []"
| "sextets (c # s) =
     (case char_sextet c of
        None \<Rightarrow> None
      | Some n \<Rightarrow> map_option (\<lambda>ns. n # ns) (sextets s))"

text \<open>\<open>DecodeString\<close>: line breaks are skipped, anything else outside the alphabet refused.\<close>

definition base64_decode :: "gostring \<Rightarrow> gostring option" where
  "base64_decode s =
     (case sextets (filter (\<lambda>c. byte c \<noteq> 10 \<and> byte c \<noteq> 13) s) of
        None \<Rightarrow> None
      | Some ns \<Rightarrow> map_option (map char_of) (decode_sextets ns))"

section \<open>Decoding inverts encoding\<close>

lemma char_sextet_char: "n < 64 \<Longrightarrow> char_sextet (sextet_char n) = Some n"
proof -
  have "list_all (\<lambda>n. char_sextet (sextet_char n) = Some n) [0..<64]"
    by (simp add: upt_conv_Cons char_sextet_def sextet_char_def alphabet_def byte_def)
  then show "n < 64 \<Longrightarrow> char_sextet (sextet_char n) = Some n"
    by (simp add: list_all_iff)
qed

lemma sextet_char_no_break: "n < 64 \<Longrightarrow> byte (sextet_char n) \<noteq> 10 \<and> byte (sextet_char n) \<noteq> 13"
  using char_sextet_char [of n] by (auto simp: char_sextet_def Let_def)

lemma sextets_map: "list_all (\<lambda>n. n < 64) ns \<Longrightarrow> sextets (map sextet_char ns) = Some ns"
  by (induction ns) (simp_all add: char_sextet_char)

lemma encode_bytes_bound: "list_all (\<lambda>b. b < 256) bs \<Longrightarrow> list_all (\<lambda>n. n < 64) (encode_bytes bs)"
  by (induction bs rule: encode_bytes.induct) auto

lemma decode_encode_bytes: "list_all (\<lambda>b. b < 256) bs \<Longrightarrow> decode_sextets (encode_bytes bs) = Some bs"
  by (induction bs rule: encode_bytes.induct) (auto simp: mod_mult2_eq [of _ 4 16, symmetric])

lemma byte_less_256: "byte c < 256"
  by (simp add: byte_def)

lemma base64_roundtrip: "base64_decode (encodeSegment raw) = Some raw"
proof -
  have b: "list_all (\<lambda>b. b < 256) (map byte raw)"
    by (simp add: list_all_iff byte_less_256)
  then have "list_all (\<lambda>n. n < 64) (encode_bytes (map byte raw))"
    by (rule encode_bytes_bound)
  then have "filter (\<lambda>c. byte c \<noteq> 10 \<and> byte c \<noteq> 13) (encodeSegment raw) = encodeSegment raw"
    and "sextets (encodeSegment raw) = Some (encode_bytes (map byte raw))"
    by (auto simp: encodeSegment_def list_all_iff sextet_char_no_break sextets_map intro!: filter_True)
  with decode_encode_bytes [OF b] show ?thesis
    by (simp add: base64_decode_def comp_def byte_def)
qed

lemma encodeSegment_no_dot: "CHR ''.'' \<notin> set (encodeSegment raw)"
proof
  assume "CHR ''.'' \<in> set (encodeSegment raw)"
  then obtain n where n: "n \<in> set (encode_bytes (map byte raw))" "sextet_char n = CHR ''.''"
    by (auto simp: encodeSegment_def)
  moreover have "list_all (\<lambda>n. n < 64) (encode_bytes (map byte raw))"
    by (rule encode_bytes_bound) (simp add: list_all_iff byte_less_256)
  ultimately have "char_sextet CHR ''.'' = Some n"
    using char_sextet_char [of n] by (auto simp: list_all_iff)
  then show False by (simp add: char_sextet_def byte_def)
qed

end
