(* ===== verification/Oidcx.thy ===== *)
theory Oidcx
  imports OidcClaims Errorx Base64 Config
begin

text \<open>
  \<open>pkg/oidcx\<close>: verification of a bearer token (\<open>verify.go\<close>) and construction of the
  verifier at startup (\<open>oidcx.go\<close>, \<open>algs.go\<close>).

  What go-oidc does is an argument: the result of its \<open>Verify\<close> on a raw token, and of each
  discovery attempt.  So is \<open>json.Unmarshal\<close> of a token header into a struct with the one
  field \<open>typ\<close>.  The lemmas show that a verifier only ever accepts a token that passed every
  check, that it reports exactly two kinds of failure, and that startup either builds a verifier
  that checks everything or fails within the discovery timeout.
\<close>

section \<open>Verification\<close>

definition idTokenOnlyClaims :: "gostring list" where
  "idTokenOnlyClaims = [''at_hash'', ''c_hash'', ''nonce'']"

definition accessTokenTypes :: "gostring list" where
  "accessTokenTypes = [''at+jwt'', ''application/at+jwt'']"

text \<open>
  The part of \<open>*oidc.IDToken\<close> the code reads: the subject, and what \<open>Claims\<close> returns.
\<close>

record id_token =
  tok_Subject :: gostring
  tok_claims :: "gerror + claims"

text \<open>\<open>%q\<close>, exact on printable ASCII.\<close>

definition quoted :: "gostring \<Rightarrow> gostring" where
  "quoted s = [CHR 0x22] @ concat (map (\<lambda>c. if c = CHR 0x22 \<or> c = CHR 0x5C then [CHR 0x5C, c] else [c]) s) @ [CHR 0x22]"

definition transportFailures :: "gostring list" where
  "transportFailures = [''oidc: get keys failed'', ''fetching keys'']"

fun any_marker :: "gostring \<Rightarrow> gostring list \<Rightarrow> bool" where
  "any_marker message [] = False"
| "any_marker message (marker # markers) =
     (if contains message marker then True else any_marker message markers)"

definition oidc_classify :: "gerror \<Rightarrow> int" where
  "oidc_classify err =
     (if as_net_error err \<or> errors_is err DeadlineExceeded then ErrUnavailable
      else if any_marker (error_text err) transportFailures then ErrUnavailable
      else ErrUnauthorized)"

definition rejected :: "gerror \<Rightarrow> gerror" where
  "rejected err = NewError err ErrUnauthorized"

definition requireAccessTokenType :: "(gostring \<Rightarrow> gerror + gostring) \<Rightarrow> gostring \<Rightarrow> gerror option" where
  "requireAccessTokenType header_typ rawToken =
     (case cut_byte CHR ''.'' rawToken of
        None \<Rightarrow> Some (ErrNew ''token is not a signed jwt'')
      | Some (encoded, _) \<Rightarrow>
          (case base64_decode encoded of
             None \<Rightarrow> Some (Wrapped ''failed to decode the token header'' (Foreign ''illegal base64 data'' False))
           | Some raw \<Rightarrow>
               (case header_typ raw of
                  Inl err \<Rightarrow> Some (Wrapped ''failed to parse the token header'' err)
                | Inr typ \<Rightarrow>
                    if list_ex (\<lambda>candidate. equal_fold candidate typ) accessTokenTypes then None
                    else Some (ErrNew (''token type '' @ quoted typ @ '' is not an access token'')))))"

text \<open>The loop over the claims that only an ID token carries: the first one found.\<close>

fun id_token_claim :: "claims \<Rightarrow> gostring list \<Rightarrow> gostring option" where
  "id_token_claim cs [] = None"
| "id_token_claim cs (claim # rest) =
     (case map_of cs claim of Some _ \<Rightarrow> Some claim | None \<Rightarrow> id_token_claim cs rest)"

definition Verify ::
  "OIDCConfig \<Rightarrow> (gostring \<Rightarrow> gerror + id_token) \<Rightarrow> (gostring \<Rightarrow> gerror + gostring)
   \<Rightarrow> gostring \<Rightarrow> gerror + identity" where
  "Verify cfg tokens_Verify header_typ rawToken =
     (case tokens_Verify rawToken of
        Inl err \<Rightarrow> Inl (NewError (Wrapped ''failed to verify the bearer token'' err) (oidc_classify err))
      | Inr token \<Rightarrow>
          (case tok_claims token of
             Inl err \<Rightarrow> Inl (rejected (Wrapped ''failed to read the token claims'' err))
           | Inr cs \<Rightarrow>
               (case id_token_claim cs idTokenOnlyClaims of
                  Some claim \<Rightarrow>
                    Inl (rejected (ErrNew (''token carries '' @ quoted claim
                      @ '', which marks it an id token rather than an access token'')))
                | None \<Rightarrow>
                    (case (if oidc_RequireTypedAccessToken cfg
                           then requireAccessTokenType header_typ rawToken else None) of
                       Some err \<Rightarrow> Inl (rejected err)
                     | None \<Rightarrow>
                         if tok_Subject token = [] then Inl (rejected (ErrNew ''token carries no subject''))
                         else Inr \<lparr>Subject = tok_Subject token,
                                   Scopes = claimList cs (oidc_ScopeClaim cfg),
                                   Roles = claimList cs (oidc_RolesClaim cfg),
                                   Claims = cs\<rparr>))))"

section \<open>Startup\<close>

definition defaultDiscoveryTimeout :: duration where
  "defaultDiscoveryTimeout = 10 * second"

definition discoveryBackoff :: duration where
  "discoveryBackoff = 500 * millisecond"

definition supportedSigningAlgs :: "gostring list" where
  "supportedSigningAlgs =
     [''RS256'', ''RS384'', ''RS512'', ''PS256'', ''PS384'', ''PS512'', ''ES256'', ''ES384'', ''ES512'', ''EdDSA'']"

text \<open>The fields of go-oidc's \<open>Config\<close>.\<close>

record go_oidc_config =
  ClientID :: gostring
  SupportedSigningAlgs :: "gostring list"
  SkipClientIDCheck :: bool
  SkipExpiryCheck :: bool
  SkipIssuerCheck :: bool
  InsecureSkipSignatureCheck :: bool

record 'p verifier =
  v_cfg :: OIDCConfig
  v_provider :: 'p
  v_tokens :: go_oidc_config

definition discoveryError :: "gostring \<Rightarrow> gerror \<Rightarrow> gerror" where
  "discoveryError issuer err = Wrapped (''failed to discover the oidc provider at '' @ quoted issuer) err"

text \<open>
  One run of \<open>discover\<close>.  \<open>attempts k\<close> is what the \<open>k\<close>th call of \<open>oidc.NewProvider\<close>
  took and returned.  After a failure the loop selects between the context, done at
  \<open>timeout\<close>, and a timer that fires \<open>discoveryBackoff\<close> later; \<open>sched k\<close> is how late the
  goroutine wakes and, when both are ready, whether the timer is picked.  Times are nanoseconds
  from the start; no fuel left is \<open>None\<close>.
\<close>

definition wake_time :: "duration \<Rightarrow> duration \<Rightarrow> nat \<Rightarrow> duration" where
  "wake_time timeout failed late = max failed (min timeout (failed + discoveryBackoff)) + int late"

definition timer_selected :: "duration \<Rightarrow> duration \<Rightarrow> nat \<times> bool \<Rightarrow> bool" where
  "timer_selected timeout failed sc \<longleftrightarrow>
     failed + discoveryBackoff \<le> wake_time timeout failed (fst sc)
     \<and> (timeout \<le> wake_time timeout failed (fst sc) \<longrightarrow> snd sc)"

type_synonym 'p attempts = "nat \<Rightarrow> nat \<times> (gerror + 'p)"

fun discover_loop ::
  "nat \<Rightarrow> 'p attempts \<Rightarrow> (nat \<Rightarrow> nat \<times> bool) \<Rightarrow> gostring \<Rightarrow> duration \<Rightarrow> nat \<Rightarrow> duration
   \<Rightarrow> (gerror + 'p) option" where
  "discover_loop 0 attempts sched issuer timeout k now = None"
| "discover_loop (Suc fuel) attempts sched issuer timeout k now =
     (case snd (attempts k) of
        Inr provider \<Rightarrow> Some (Inr provider)
      | Inl err \<Rightarrow>
          (let failed = now + int (fst (attempts k)) in
           if timer_selected timeout failed (sched k)
           then discover_loop fuel attempts sched issuer timeout (Suc k)
                  (wake_time timeout failed (fst (sched k)))
           else Some (Inl (discoveryError issuer err))))"

definition discover ::
  "nat \<Rightarrow> 'p attempts \<Rightarrow> (nat \<Rightarrow> nat \<times> bool) \<Rightarrow> gostring \<Rightarrow> duration \<Rightarrow> (gerror + 'p) option" where
  "discover fuel attempts sched issuer timeout = discover_loop fuel attempts sched issuer timeout 0 0"

definition effective_timeout :: "duration \<Rightarrow> duration" where
  "effective_timeout t = (if t \<le> 0 then defaultDiscoveryTimeout else t)"

text \<open>
  \<open>Init\<close>, given discovery as a function of issuer and timeout.  The nil verifier of a
  disabled configuration is \<open>None\<close>.
\<close>

definition Init :: "OIDCConfig \<Rightarrow> (gostring \<Rightarrow> duration \<Rightarrow> gerror + 'p) \<Rightarrow> gerror + 'p verifier option" where
  "Init cfg disc =
     (if \<not> oidc_Enabled cfg then Inr None
      else if oidc_Issuer cfg = [] then Inl (ErrNew ''oidc.issuer is required when oidc.enabled is true'')
      else if oidc_Audience cfg = [] then Inl (ErrNew ''oidc.audience is required when oidc.enabled is true'')
      else (case disc (oidc_Issuer cfg) (effective_timeout (oidc_DiscoveryTimeout cfg)) of
              Inl err \<Rightarrow> Inl err
            | Inr provider \<Rightarrow>
                Inr (Some
                  \<lparr>v_cfg = cfg, v_provider = provider,
                   v_tokens = \<lparr>ClientID = oidc_Audience cfg,
                               SupportedSigningAlgs = supportedSigningAlgs,
                               SkipClientIDCheck = False, SkipExpiryCheck = False,
                               SkipIssuerCheck = False, InsecureSkipSignatureCheck = False\<rparr>\<rparr>)))"

section \<open>The interface the api package relies on\<close>

text \<open>
  \<open>oidcx.Verifier\<close>: a verified identity is attributed to somebody, and a refusal is either
  the credential's fault or the provider's, never an internal error.
\<close>

locale token_verifier =
  fixes verify :: "gostring \<Rightarrow> gerror + identity"
  assumes verified_subject: "verify raw = Inr i \<Longrightarrow> Subject i \<noteq> []"
    and refusal_typed: "verify raw = Inl e \<Longrightarrow> TypeOf e = ErrUnauthorized \<or> TypeOf e = ErrUnavailable"
begin

lemma refusal_not_internal: "verify raw = Inl e \<Longrightarrow> TypeOf e \<noteq> ErrInternal \<and> TypeOf e \<noteq> ErrForbidden"
  using refusal_typed [of raw e] by (auto simp: error_type_defs)

end

section \<open>Lemmas on verification\<close>

lemma any_marker_list_ex: "any_marker m ms = list_ex (contains m) ms"
  by (induction ms) auto

lemma oidc_classify_cases: "oidc_classify err = ErrUnauthorized \<or> oidc_classify err = ErrUnavailable"
  by (simp add: oidc_classify_def)

lemma TypeOf_rejected [simp, go_error]: "TypeOf (rejected e) = ErrUnauthorized"
  by (simp add: rejected_def)

lemma id_token_claim_None:
  "id_token_claim cs names = None \<longleftrightarrow> list_all (\<lambda>n. map_of cs n = None) names"
  by (induction names) (auto split: option.split)

lemma Verify_Inr:
  assumes "Verify cfg tv ht raw = Inr i"
  obtains token cs where "tv raw = Inr token" "tok_claims token = Inr cs"
    "id_token_claim cs idTokenOnlyClaims = None"
    "oidc_RequireTypedAccessToken cfg \<longrightarrow> requireAccessTokenType ht raw = None"
    "tok_Subject token \<noteq> []"
    "i = \<lparr>Subject = tok_Subject token, Scopes = claimList cs (oidc_ScopeClaim cfg),
          Roles = claimList cs (oidc_RolesClaim cfg), Claims = cs\<rparr>"
  using assms unfolding Verify_def
  by (auto split: sum.splits option.splits if_splits)

lemma Verify_Inl:
  assumes "Verify cfg tv ht raw = Inl e"
  shows "(\<exists>err. tv raw = Inl err \<and> TypeOf e = oidc_classify err)
    \<or> (is_ok (tv raw) \<and> TypeOf e = ErrUnauthorized)"
  using assms unfolding Verify_def
  by (auto split: sum.splits option.splits if_splits)

interpretation oidc: token_verifier "Verify cfg tv ht" for cfg tv ht
proof
  fix raw i
  assume "Verify cfg tv ht raw = Inr i"
  then show "Subject i \<noteq> []" by (rule Verify_Inr) simp
next
  fix raw e
  assume "Verify cfg tv ht raw = Inl e"
  then show "TypeOf e = ErrUnauthorized \<or> TypeOf e = ErrUnavailable"
    using Verify_Inl [of cfg tv ht raw e] oidc_classify_cases by metis
qed

section \<open>Lemmas on discovery\<close>

lemma discoveryBackoff_pos: "0 < discoveryBackoff"
  by (simp add: discoveryBackoff_def millisecond_def)

text \<open>
  Fuel: while the deadline is ahead every round moves the clock by at least the backoff, and a
  round that starts past the deadline is the last one unless the timer is picked late.
\<close>

lemma timer_selected_progress:
  "timer_selected timeout failed sc \<Longrightarrow> failed + discoveryBackoff \<le> wake_time timeout failed (fst sc)"
  by (simp add: timer_selected_def)

lemma timer_not_selected_past:
  "timeout \<le> failed \<Longrightarrow> int (fst sc) < discoveryBackoff \<Longrightarrow> \<not> timer_selected timeout failed sc"
  by (simp add: timer_selected_def wake_time_def)

lemma discover_loop_past:
  assumes "timeout \<le> now" and late: "\<And>k. int (fst (sched k)) < discoveryBackoff"
  shows "\<exists>r. discover_loop (Suc fuel) attempts sched issuer timeout k now = Some r"
proof -
  have "\<not> timer_selected timeout (now + int (fst (attempts k))) (sched k)"
    using assms(1) by (intro timer_not_selected_past late) simp
  then show ?thesis by (cases "snd (attempts k)") (simp_all add: Let_def)
qed

lemma discover_loop_ends:
  assumes late: "\<And>k. int (fst (sched k)) < discoveryBackoff"
  shows "timeout - now \<le> int n * discoveryBackoff \<Longrightarrow> n < fuel
    \<Longrightarrow> \<exists>r. discover_loop fuel attempts sched issuer timeout k now = Some r"
proof (induction n arbitrary: fuel k now)
  case 0
  then obtain f where "fuel = Suc f" by (cases fuel) auto
  with 0 late show ?case using discover_loop_past [of timeout now sched] by simp
next
  case (Suc n)
  then obtain f where f: "fuel = Suc f" "n < f" by (cases fuel) auto
  let ?failed = "now + int (fst (attempts k))"
  let ?wake = "wake_time timeout ?failed (fst (sched k))"
  show ?case
  proof (cases "is_ok (snd (attempts k)) \<or> \<not> timer_selected timeout ?failed (sched k)")
    case True
    with f show ?thesis by (auto simp: Let_def is_ok_def split: sum.splits)
  next
    case False
    then have "timeout - ?wake \<le> int n * discoveryBackoff"
      using Suc.prems(1) timer_selected_progress [of timeout ?failed "sched k"]
      by (simp add: algebra_simps)
    then have "\<exists>r. discover_loop f attempts sched issuer timeout (Suc k) ?wake = Some r"
      using f(2) by (rule Suc.IH)
    with False f show ?thesis by (auto simp: Let_def is_ok_def split: sum.splits)
  qed
qed

lemma discover_loop_result:
  "discover_loop fuel attempts sched issuer timeout k now = Some r \<Longrightarrow>
     \<exists>j\<ge>k. (case snd (attempts j) of Inr p \<Rightarrow> r = Inr p | Inl err \<Rightarrow> r = Inl (discoveryError issuer err))"
proof (induction fuel arbitrary: k now)
  case (Suc fuel)
  show ?case
  proof (cases "snd (attempts k)")
    case (Inr p)
    with Suc.prems have "r = Inr p" by simp
    with Inr show ?thesis by (intro exI [of _ k]) simp
  next
    case (Inl err)
    let ?failed = "now + int (fst (attempts k))"
    show ?thesis
    proof (cases "timer_selected timeout ?failed (sched k)")
      case True
      with Suc.prems Inl
      have "discover_loop fuel attempts sched issuer timeout (Suc k)
              (wake_time timeout ?failed (fst (sched k))) = Some r"
        by (simp add: Let_def)
      from Suc.IH [OF this] show ?thesis by (meson Suc_leD)
    next
      case False
      with Suc.prems Inl have "r = Inl (discoveryError issuer err)" by (simp add: Let_def)
      with Inl show ?thesis by (intro exI [of _ k]) simp
    qed
  qed
qed simp

lemma effective_timeout_pos: "0 < effective_timeout t"
  by (simp add: effective_timeout_def defaultDiscoveryTimeout_def second_def millisecond_def)

lemma requireAccessTokenType_None:
  "requireAccessTokenType ht raw = None \<longleftrightarrow>
     (\<exists>hdr rest decoded typ. cut_byte CHR ''.'' raw = Some (hdr, rest) \<and> base64_decode hdr = Some decoded
        \<and> ht decoded = Inr typ
        \<and> (equal_fold ''at+jwt'' typ \<or> equal_fold ''application/at+jwt'' typ))"
  by (auto simp: requireAccessTokenType_def accessTokenTypes_def split: option.splits sum.splits prod.splits)

lemma cut_byte_append: "sep \<notin> set w \<Longrightarrow> cut_byte sep (w @ sep # s) = Some (w, s)"
  by (induction w) auto

section \<open>Properties\<close>

text \<open>
  C5: a verified identity passed every check.  The library accepted the token; it names a
  subject; it carries none of the claims that mark an ID token; where typed access tokens are
  required its header decodes to an access token type; and its scopes and roles are exactly
  what the configured claims hold.
\<close>

theorem Verify_accepts_only_checked_tokens:
  assumes "Verify cfg tv ht raw = Inr i"
  shows "(\<exists>token. tv raw = Inr token \<and> Subject i = tok_Subject token \<and> tok_claims token = Inr (Claims i))
    \<and> Subject i \<noteq> []
    \<and> map_of (Claims i) ''at_hash'' = None \<and> map_of (Claims i) ''c_hash'' = None
    \<and> map_of (Claims i) ''nonce'' = None
    \<and> (oidc_RequireTypedAccessToken cfg \<longrightarrow>
        (\<exists>hdr rest decoded typ. raw = hdr @ CHR ''.'' # rest \<and> base64_decode hdr = Some decoded
           \<and> ht decoded = Inr typ
           \<and> (equal_fold ''at+jwt'' typ \<or> equal_fold ''application/at+jwt'' typ)))
    \<and> Scopes i = claimList (Claims i) (oidc_ScopeClaim cfg)
    \<and> Roles i = claimList (Claims i) (oidc_RolesClaim cfg)"
proof -
  from assms obtain token cs where t: "tv raw = Inr token" "tok_claims token = Inr cs"
      "id_token_claim cs idTokenOnlyClaims = None"
      "oidc_RequireTypedAccessToken cfg \<longrightarrow> requireAccessTokenType ht raw = None"
      "tok_Subject token \<noteq> []"
      "i = \<lparr>Subject = tok_Subject token, Scopes = claimList cs (oidc_ScopeClaim cfg),
            Roles = claimList cs (oidc_RolesClaim cfg), Claims = cs\<rparr>"
    by (rule Verify_Inr)
  have "oidc_RequireTypedAccessToken cfg \<longrightarrow>
      (\<exists>hdr rest decoded typ. raw = hdr @ CHR ''.'' # rest \<and> base64_decode hdr = Some decoded
         \<and> ht decoded = Inr typ
         \<and> (equal_fold ''at+jwt'' typ \<or> equal_fold ''application/at+jwt'' typ))"
    using t(4) by (auto simp: requireAccessTokenType_None dest!: cut_byte_Some; blast)
  moreover from t(3) have "map_of cs ''at_hash'' = None" "map_of cs ''c_hash'' = None" "map_of cs ''nonce'' = None"
    by (simp_all only: id_token_claim_None) (simp_all add: idTokenOnlyClaims_def)
  ultimately show ?thesis using t by simp
qed

text \<open>A concrete token for the witnesses: its claims, its header, and a library that accepts it.\<close>

definition sample_claims :: claims where
  "sample_claims = [(''sub'', VString ''u1''), (''scope'', VString ''profile:read'')]"

definition sample_cfg :: OIDCConfig where
  "sample_cfg = (cfg_Oidc default_config)\<lparr>oidc_Enabled := True, oidc_Issuer := ''https://id.example.com'',
     oidc_Audience := ''api'', oidc_RequireTypedAccessToken := True\<rparr>"

definition sample_token :: gostring where
  "sample_token = encodeSegment ''at+JWT'' @ CHR ''.'' # ''payload.signature''"

definition sample_library :: "gostring \<Rightarrow> gerror + id_token" where
  "sample_library raw =
     (if raw = sample_token then Inr \<lparr>tok_Subject = ''u1'', tok_claims = Inr sample_claims\<rparr>
      else Inl (Foreign ''failed to verify signature: fetching keys oidc: get keys failed'' False))"

lemma sample_token_typed: "requireAccessTokenType Inr sample_token = None"
proof -
  have "equal_fold ''at+jwt'' ''at+JWT''"
    by (simp add: equal_fold_def runes_ascii byte_def fold_rune_def)
  then show ?thesis
    unfolding requireAccessTokenType_None sample_token_def
    by (intro exI [of _ "encodeSegment ''at+JWT''"] exI [of _ "''payload.signature''"] exI [of _ "''at+JWT''"])
      (simp add: cut_byte_append encodeSegment_no_dot base64_roundtrip)
qed

lemma sample_Verify:
  "Verify sample_cfg sample_library Inr sample_token =
     Inr \<lparr>Subject = ''u1'', Scopes = claimList sample_claims ''scope'',
          Roles = claimList sample_claims ''roles'', Claims = sample_claims\<rparr>"
  by (simp add: Verify_def sample_library_def sample_token_typed sample_cfg_def default_config_def
      sample_claims_def idTokenOnlyClaims_def)

theorem Verify_accepts_only_checked_tokens_witness:
  "Subject \<lparr>Subject = ''u1'', Scopes = claimList sample_claims ''scope'',
      Roles = claimList sample_claims ''roles'', Claims = sample_claims\<rparr> \<noteq> []
   \<and> (\<exists>token. sample_library sample_token = Inr token)"
  using Verify_accepts_only_checked_tokens [OF sample_Verify] by blast

text \<open>
  C26: a refusal is an outage of the provider exactly when the library's failure is a network
  error, a deadline, or carries one of the two messages it gives when it could not obtain the
  key set; every other refusal, whichever check made it, is the credential's and is reported as
  unauthorized.
\<close>

theorem Verify_refusal_classification:
  assumes "Verify cfg tv ht raw = Inl e"
  shows "TypeOf e =
    (if \<exists>err. tv raw = Inl err
         \<and> (as_net_error err \<or> errors_is err DeadlineExceeded
            \<or> contains (error_text err) ''oidc: get keys failed''
            \<or> contains (error_text err) ''fetching keys'')
     then ErrUnavailable else ErrUnauthorized)"
  using Verify_Inl [OF assms]
  by (auto simp: oidc_classify_def any_marker_list_ex transportFailures_def is_ok_def split: sum.splits)

theorem Verify_refusal_classification_witness:
  "\<exists>e. Verify sample_cfg sample_library Inr ''other'' = Inl e \<and> TypeOf e = ErrUnavailable"
proof -
  have lib: "sample_library ''other''
      = Inl (Foreign ''failed to verify signature: fetching keys oidc: get keys failed'' False)"
  proof -
    have "''other'' \<noteq> sample_token"
    proof
      assume "''other'' = sample_token"
      then have "CHR ''.'' \<in> set ''other''" by (simp only: sample_token_def) simp
      then show False by simp
    qed
    then show ?thesis by (simp add: sample_library_def)
  qed
  then obtain e where e: "Verify sample_cfg sample_library Inr ''other'' = Inl e"
    by (simp add: Verify_def)
  from Verify_refusal_classification [OF e] lib have "TypeOf e = ErrUnavailable"
    by (simp add: has_prefix_def)
  with e show ?thesis by blast
qed

text \<open>
  The header check reads back what the issuer encoded.  On a token whose first segment is
  the encoding of a header, the check passes exactly when that header parses to one of the two
  access token types, compared without regard to case.
\<close>

lemma access_token_type_roundtrip:
  "requireAccessTokenType ht (encodeSegment hdr @ CHR ''.'' # rest) = None \<longleftrightarrow>
     (\<exists>typ. ht hdr = Inr typ
        \<and> (equal_fold ''at+jwt'' typ \<or> equal_fold ''application/at+jwt'' typ))"
  unfolding requireAccessTokenType_None
  by (auto simp: cut_byte_append encodeSegment_no_dot base64_roundtrip)

text \<open>
  C27: whatever the configuration, a verifier that startup builds checks the audience, issuer,
  expiry and signature, against the configured non-empty issuer and audience, and accepts
  asymmetric signatures only; there is no verifier exactly when OIDC is off, and a missing
  issuer or audience fails before any discovery.
\<close>

theorem Init_builds_checking_verifiers:
  "(case Init cfg disc of
      Inr (Some v) \<Rightarrow>
        v_cfg v = cfg \<and> oidc_Issuer cfg \<noteq> [] \<and> ClientID (v_tokens v) = oidc_Audience cfg
        \<and> ClientID (v_tokens v) \<noteq> []
        \<and> \<not> SkipClientIDCheck (v_tokens v) \<and> \<not> SkipExpiryCheck (v_tokens v)
        \<and> \<not> SkipIssuerCheck (v_tokens v) \<and> \<not> InsecureSkipSignatureCheck (v_tokens v)
        \<and> list_all (\<lambda>alg. alg \<noteq> ''none'' \<and> \<not> has_prefix alg ''HS'') (SupportedSigningAlgs (v_tokens v))
        \<and> disc (oidc_Issuer cfg) (effective_timeout (oidc_DiscoveryTimeout cfg)) = Inr (v_provider v)
    | Inr None \<Rightarrow> \<not> oidc_Enabled cfg
    | Inl err \<Rightarrow> oidc_Enabled cfg)
   \<and> (oidc_Enabled cfg \<and> (oidc_Issuer cfg = [] \<or> oidc_Audience cfg = []) \<longrightarrow>
        (\<exists>err. \<forall>d. Init cfg d = (Inl err :: gerror + 'p verifier option)))"
  for disc :: "gostring \<Rightarrow> duration \<Rightarrow> gerror + 'p"
  by (auto simp: Init_def supportedSigningAlgs_def has_prefix_def split: sum.split option.split)

theorem Init_builds_checking_verifiers_witness:
  "\<exists>err. \<forall>d. Init (sample_cfg\<lparr>oidc_Audience := []\<rparr>) d = (Inl err :: gerror + nat verifier option)"
  using Init_builds_checking_verifiers
      [of "sample_cfg\<lparr>oidc_Audience := []\<rparr>" "\<lambda>_ _. Inr (0::nat)"]
  by (simp add: sample_cfg_def default_config_def)

text \<open>
  C25: discovery returns.  If the goroutine is never woken half a second late or more, one
  attempt per backoff within the timeout, and one more, are enough; and what it returns is the
  provider some attempt yielded, or the last attempt's failure under a message that names the
  issuer.
\<close>

theorem discover_terminates:
  assumes "\<And>k. int (fst (sched k)) < discoveryBackoff"
    and "0 < timeout" and "nat (timeout div discoveryBackoff) + 2 \<le> fuel"
  shows "\<exists>r. discover fuel attempts sched issuer timeout = Some r
    \<and> (\<exists>k. (case snd (attempts k) of Inr p \<Rightarrow> r = Inr p | Inl err \<Rightarrow> r = Inl (discoveryError issuer err)))"
proof -
  let ?n = "nat (timeout div discoveryBackoff) + 1"
  have "timeout - 0 \<le> int ?n * discoveryBackoff"
  proof -
    have "timeout = discoveryBackoff * (timeout div discoveryBackoff) + timeout mod discoveryBackoff"
      by simp
    moreover have "timeout mod discoveryBackoff < discoveryBackoff"
      using discoveryBackoff_pos by simp
    ultimately have "timeout \<le> discoveryBackoff * (timeout div discoveryBackoff) + discoveryBackoff"
      by linarith
    moreover have "0 \<le> timeout div discoveryBackoff"
      using assms(2) discoveryBackoff_pos by (simp add: pos_imp_zdiv_nonneg_iff)
    ultimately show ?thesis by (simp add: algebra_simps)
  qed
  moreover have "?n < fuel" using assms(3) by simp
  ultimately obtain r where r: "discover fuel attempts sched issuer timeout = Some r"
    using discover_loop_ends [where sched = sched and now = 0, OF assms(1)] unfolding discover_def by blast
  with discover_loop_result [of fuel attempts sched issuer timeout 0 0 r] show ?thesis
    by (auto simp: discover_def)
qed

theorem discover_terminates_witness:
  "\<exists>r. discover 22 (\<lambda>k. (0, if k < 3 then Inl (ErrNew ''connection refused'') else Inr k))
     (\<lambda>k. (0, False)) ''https://id.example.com'' (10 * second) = Some r"
  using discover_terminates [of "\<lambda>k. (0, False)" "10 * second" 22
      "\<lambda>k. (0, if k < 3 then Inl (ErrNew ''connection refused'') else Inr k)" "''https://id.example.com''"]
  by (simp add: discoveryBackoff_def second_def millisecond_def) blast

end
