(* ===== verification/Telemetry.thy ===== *)
theory Telemetry
  imports Errorx Config
begin

text \<open>
  Log records and spans, as every layer emits them, and \<open>pkg/otelx/otelx.go\<close>: installation
  of the global tracing state, and the bridge from a span to a log record.
\<close>

section \<open>Log records\<close>

datatype attr_value =
    AString gostring
  | AInt int
  | ABool bool
  | AMillis rat
  | AError gerror
  | AMap "gostring \<rightharpoonup> gostring"

text \<open>
  A record of \<open>log/slog\<close>, with the two ids slogging's handler reads off the context it was
  logged under.
\<close>

record log_record =
  lr_level :: log_level
  lr_msg :: gostring
  lr_attrs :: "(gostring \<times> attr_value) list"
  lr_request_id :: "gostring option"
  lr_correlation_id :: "gostring option"

text \<open>The request id and correlation id of a context, and a record logged under it.\<close>

type_synonym ctx_ids = "gostring option \<times> gostring option"

definition log_at ::
  "ctx_ids \<Rightarrow> log_level \<Rightarrow> gostring \<Rightarrow> (gostring \<times> attr_value) list \<Rightarrow> log_record" where
  "log_at ids level msg ats =
     \<lparr>lr_level = level, lr_msg = msg, lr_attrs = ats, lr_request_id = fst ids, lr_correlation_id = snd ids\<rparr>"

section \<open>Spans\<close>

record span_context =
  sc_trace_id :: gostring
  sc_span_id :: gostring
  sc_valid :: bool
  sc_sampled :: bool

datatype span_status = Unset | StatusError gostring

record span =
  sp_name :: gostring
  sp_attrs :: "(gostring \<times> attr_value) list"
  sp_status :: span_status
  sp_ended :: bool

definition SetName :: "gostring \<Rightarrow> span \<Rightarrow> span" where
  "SetName n sp = sp\<lparr>sp_name := n\<rparr>"

definition SetAttributes :: "(gostring \<times> attr_value) list \<Rightarrow> span \<Rightarrow> span" where
  "SetAttributes ats sp = sp\<lparr>sp_attrs := sp_attrs sp @ ats\<rparr>"

definition SetStatus :: "span_status \<Rightarrow> span \<Rightarrow> span" where
  "SetStatus st sp = sp\<lparr>sp_status := st\<rparr>"

definition End_span :: "span \<Rightarrow> span" where
  "End_span sp = sp\<lparr>sp_ended := True\<rparr>"

text \<open>\<open>TraceAttrs\<close>: only a valid, sampled trace is put onto a record.\<close>

definition TraceAttrs :: "span_context \<Rightarrow> (gostring \<times> gostring) list" where
  "TraceAttrs sc =
     (if \<not> sc_valid sc \<or> \<not> sc_sampled sc then []
      else [(''trace_id'', sc_trace_id sc), (''span_id'', sc_span_id sc)])"

section \<open>Initialisation\<close>

text \<open>The exporter's options, and the tracer provider built around it.\<close>

record exporter_options =
  ex_Endpoint :: gostring
  ex_Insecure :: bool

record tracer_provider =
  tp_exporter :: exporter_options
  tp_resource :: "(gostring \<times> gostring) list"
  tp_sample_ratio :: rat
  tp_parent_based :: bool

text \<open>OpenTelemetry's process-wide state: \<open>None\<close> is its own no-op provider.\<close>

record otel_globals =
  g_provider :: "tracer_provider option"
  g_errors_to_slog :: bool
  g_propagators :: "gostring list"

datatype shutdown_func = NoopShutdown | ProviderShutdown tracer_provider

text \<open>
  \<open>Init\<close>, given what building the exporter and merging the resource report.
\<close>

definition otelx_Init ::
  "AppConfig \<Rightarrow> TracingConfig \<Rightarrow> (exporter_options \<Rightarrow> gerror option) \<Rightarrow> gerror option
   \<Rightarrow> otel_globals \<Rightarrow> (gerror + shutdown_func) \<times> otel_globals" where
  "otelx_Init app cfg new_exporter merge_err g =
     (if \<not> tr_Enabled cfg then (Inr NoopShutdown, g)
      else
        (let opts = \<lparr>ex_Endpoint = tr_Endpoint cfg, ex_Insecure = tr_Insecure cfg\<rparr> in
         case new_exporter opts of
           Some err \<Rightarrow> (Inl (Wrapped ''failed to create otlp trace exporter'' err), g)
         | None \<Rightarrow>
             (case merge_err of
                Some err \<Rightarrow> (Inl (Wrapped ''failed to build trace resource'' err), g)
              | None \<Rightarrow>
                  (let provider =
                     \<lparr>tp_exporter = opts,
                      tp_resource = [(''service.name'', app_Name app), (''service.version'', app_Version app),
                                     (''deployment.environment.name'', app_Environment app)],
                      tp_sample_ratio = tr_SampleRatio cfg, tp_parent_based = True\<rparr>
                   in (Inr (ProviderShutdown provider),
                       g\<lparr>g_provider := Some provider, g_errors_to_slog := True,
                         g_propagators := [''tracecontext'', ''baggage'']\<rparr>)))))"

section \<open>Properties\<close>

text \<open>
  Tracing is installed completely or not at all.  Disabled, or failing at any step, it
  leaves the process-wide state as it was, and the disabled case still hands back a shutdown to
  call; enabled and successful, the provider exports to the configured endpoint, the SDK's
  errors reach the log and both propagators are in place.
\<close>

lemma otelx_Init_all_or_nothing:
  "(case otelx_Init app cfg new_exporter merge_err g of
      (Inl err, g') \<Rightarrow> g' = g \<and> tr_Enabled cfg
    | (Inr NoopShutdown, g') \<Rightarrow> g' = g \<and> \<not> tr_Enabled cfg
    | (Inr (ProviderShutdown p), g') \<Rightarrow>
        tr_Enabled cfg \<and> g_provider g' = Some p \<and> g_errors_to_slog g'
        \<and> g_propagators g' = [''tracecontext'', ''baggage'']
        \<and> ex_Endpoint (tp_exporter p) = tr_Endpoint cfg \<and> tp_parent_based p)"
  by (auto simp: otelx_Init_def Let_def split: option.split)

end
