(* ===== verification/Database.thy ===== *)
theory Database
  imports Telemetry
begin

text \<open>
  \<open>database/database.go\<close>, \<open>database/pool.go\<close> and \<open>database/tracing.go\<close>: the
  connection string, the pool tuning, opening and closing the pool, its health report, and the
  span recorded for a query.  pgx enters through arguments: parsing a connection string, opening
  a pool, pinging it and its statistics.
\<close>

section \<open>The connection string\<close>

definition GetDialect :: gostring where
  "GetDialect = ''postgres''"

definition dsnFromConfig :: "DatabaseConfig \<Rightarrow> gostring" where
  "dsnFromConfig config =
     (let dsn = ''postgresql://'' @ db_User config @ '':'' @ db_Password config @ ''@'' @ db_Host config
                @ '':'' @ db_Port config @ ''/'' @ db_DBName config @ ''?sslmode=require''
      in if db_SSLModeDisabled config then replace_first dsn ''sslmode=require'' ''sslmode=disable''
         else dsn)"

section \<open>Pool settings\<close>

text \<open>The fields of \<open>*pgxpool.Config\<close> the code writes; \<open>None\<close> is a nil map or tracer.\<close>

record pool_config =
  pc_MaxConns :: int
  pc_MinConns :: int
  pc_MaxConnLifetime :: duration
  pc_MaxConnIdleTime :: duration
  pc_HealthCheckPeriod :: duration
  pc_RuntimeParams :: "(gostring \<rightharpoonup> gostring) option"
  pc_Tracer :: "gostring option"

definition statementTimeoutParam :: gostring where
  "statementTimeoutParam = ''statement_timeout''"

text \<open>\<open>Duration.Milliseconds\<close>: division truncated towards zero.\<close>

definition go_quot :: "int \<Rightarrow> int \<Rightarrow> int" where
  "go_quot a b = sgn a * sgn b * (\<bar>a\<bar> div \<bar>b\<bar>)"

definition Milliseconds :: "duration \<Rightarrow> int" where
  "Milliseconds d = go_quot d millisecond"

definition applyPoolSettings :: "pool_config \<Rightarrow> DatabaseConfig \<Rightarrow> pool_config" where
  "applyPoolSettings poolCfg cfg =
     (let p1 = (if db_MaxConns cfg > 0 then poolCfg\<lparr>pc_MaxConns := db_MaxConns cfg\<rparr> else poolCfg);
          p2 = (if db_MinConns cfg > 0 then p1\<lparr>pc_MinConns := db_MinConns cfg\<rparr> else p1);
          p3 = (if db_MaxConnLifetime cfg > 0 then p2\<lparr>pc_MaxConnLifetime := db_MaxConnLifetime cfg\<rparr> else p2);
          p4 = (if db_MaxConnIdleTime cfg > 0 then p3\<lparr>pc_MaxConnIdleTime := db_MaxConnIdleTime cfg\<rparr> else p3);
          p5 = (if db_HealthCheckPeriod cfg > 0 then p4\<lparr>pc_HealthCheckPeriod := db_HealthCheckPeriod cfg\<rparr> else p4)
      in if db_StatementTimeout cfg > 0
         then (let params = (case pc_RuntimeParams p5 of None \<Rightarrow> Map.empty | Some m \<Rightarrow> m)
               in p5\<lparr>pc_RuntimeParams :=
                      Some (params(statementTimeoutParam \<mapsto> itoa (Milliseconds (db_StatementTimeout cfg))))\<rparr>)
         else p5)"

definition tracerName :: gostring where
  "tracerName = ''github.com/softika/gopherizer/database''"

definition WithQueryTracer :: "pool_config \<Rightarrow> pool_config" where
  "WithQueryTracer c = c\<lparr>pc_Tracer := Some tracerName\<rparr>"

section \<open>Opening and closing\<close>

datatype pool_event = PoolLogged gostring | PoolOpened | PoolPinged | PoolClosed

definition creating_pool :: pool_event where
  "creating_pool = PoolLogged ''creating a new database connection pool...''"

text \<open>The service around a pool, and its accessors; \<open>OpenDBFromPool\<close> is pgx's.\<close>

record 'pool db_service =
  dbs_pool :: 'pool

definition service_DB :: "('pool \<Rightarrow> 'sql_db) \<Rightarrow> 'pool db_service \<Rightarrow> 'sql_db" where
  "service_DB OpenDBFromPool s = OpenDBFromPool (dbs_pool s)"

definition service_Pool :: "'pool db_service \<Rightarrow> 'pool" where
  "service_Pool s = dbs_pool s"

definition connectTimeout :: duration where
  "connectTimeout = 10 * second"

text \<open>
  \<open>New\<close>: the service or the error, and what happened to the pool on the way.  Connecting and
  pinging share one context, whose time limit is passed to both.
\<close>

definition database_New ::
  "DatabaseConfig \<Rightarrow> (pool_config \<Rightarrow> pool_config) list
   \<Rightarrow> (gostring \<Rightarrow> gerror + pool_config) \<Rightarrow> (duration \<Rightarrow> pool_config \<Rightarrow> gerror + 'pool) \<Rightarrow> (duration \<Rightarrow> 'pool \<Rightarrow> gerror option)
   \<Rightarrow> (gerror + 'pool db_service) \<times> pool_event list" where
  "database_New cfg opts ParseConfig NewWithConfig Ping =
     (case ParseConfig (dsnFromConfig cfg) of
        Inl err \<Rightarrow> (Inl (Wrapped ''failed to parse db connection config'' err), [creating_pool])
      | Inr parsed \<Rightarrow>
          (let poolCfg = foldl (\<lambda>c opt. opt c) (applyPoolSettings parsed cfg) opts in
           case NewWithConfig connectTimeout poolCfg of
             Inl err \<Rightarrow> (Inl (Wrapped ''failed to create db connection pool'' err), [creating_pool])
           | Inr pool \<Rightarrow>
               (case Ping connectTimeout pool of
                  Some err \<Rightarrow> (Inl (Wrapped ''failed to ping db'' err), [creating_pool, PoolOpened, PoolPinged, PoolClosed])
                | None \<Rightarrow> (Inr \<lparr>dbs_pool = pool\<rparr>, [creating_pool, PoolOpened, PoolPinged]))))"

definition database_Close :: "gerror option \<times> pool_event list" where
  "database_Close = (None, [PoolLogged ''closing the database connection...'', PoolClosed])"

section \<open>Health\<close>

text \<open>What \<open>pool.Stat()\<close> reports, in the order it is read.\<close>

record pool_stat =
  st_MaxConns :: int
  st_TotalConns :: int
  st_AcquiredConns :: int
  st_NewConnsCount :: int
  st_EmptyAcquireCount :: int
  st_CanceledAcquireCount :: int
  st_AcquireCount :: int
  st_AcquireDuration :: duration
  st_IdleConns :: int
  st_ConstructingConns :: int
  st_MaxIdleDestroyCount :: int
  st_MaxLifetimeDestroyCount :: int

definition health_message :: "pool_stat \<Rightarrow> gostring" where
  "health_message s =
     (let m0 = ''It's healthy'';
          m1 = (if st_TotalConns s > 40 then ''The database is experiencing heavy load.'' else m0);
          m2 = (if st_ConstructingConns s > 1000
                then ''The database has a high number of wait events, indicating potential bottlenecks.'' else m1);
          m3 = (if st_MaxIdleDestroyCount s > go_quot (st_TotalConns s) 2
                then ''Many idle connections are being closed, consider revising the connection pool settings.''
                else m2);
          m4 = (if st_MaxLifetimeDestroyCount s > go_quot (st_TotalConns s) 2
                then ''Many connections are being closed due to max lifetime, consider increasing max lifetime or revising the connection usage pattern.''
                else m3)
      in m4)"

text \<open>
  \<open>Health\<close>, given the outcome of the ping, the statistics, and \<open>Duration.String\<close>.
\<close>

definition database_Health ::
  "(duration \<Rightarrow> gostring) \<Rightarrow> gerror option \<times> pool_stat \<Rightarrow> (gostring \<rightharpoonup> gostring)" where
  "database_Health dur_string ps =
     (case fst ps of
        Some err \<Rightarrow> [''status'' \<mapsto> ''down'', ''error'' \<mapsto> ''db down: '' @ error_text err]
      | None \<Rightarrow>
          (let s = snd ps in
           [''status'' \<mapsto> ''up'',
            ''max_connections'' \<mapsto> itoa (st_MaxConns s),
            ''total_connections'' \<mapsto> itoa (st_TotalConns s),
            ''acquired_connections'' \<mapsto> itoa (st_AcquiredConns s),
            ''new_acquired_connections'' \<mapsto> itoa (st_NewConnsCount s),
            ''empty_acquire_count'' \<mapsto> itoa (st_EmptyAcquireCount s),
            ''canceled_acquire_count'' \<mapsto> itoa (st_CanceledAcquireCount s),
            ''acquire_count'' \<mapsto> itoa (st_AcquireCount s),
            ''acquire_duration'' \<mapsto> dur_string (st_AcquireDuration s),
            ''idle_connections'' \<mapsto> itoa (st_IdleConns s),
            ''constructing_connections'' \<mapsto> itoa (st_ConstructingConns s),
            ''max_idle_destroy_count'' \<mapsto> itoa (st_MaxIdleDestroyCount s),
            ''max_lifetime_destroy_count'' \<mapsto> itoa (st_MaxLifetimeDestroyCount s),
            ''message'' \<mapsto> health_message s]))"

text \<open>The record the same call logs when the ping failed.\<close>

definition database_Health_logs :: "ctx_ids \<Rightarrow> gerror option \<Rightarrow> log_record list" where
  "database_Health_logs ctx ping =
     (case ping of
        None \<Rightarrow> []
      | Some err \<Rightarrow> [log_at ctx LevelError ''db is down'' [(''error'', AError err)]])"

section \<open>Query spans\<close>

definition TraceQueryStart :: "gostring \<Rightarrow> 'arg list \<Rightarrow> span" where
  "TraceQueryStart sql args =
     \<lparr>sp_name = ''pg.query'',
      sp_attrs = [(''db.system.name'', AString ''postgresql''), (''db.query.text'', AString sql)],
      sp_status = Unset, sp_ended = False\<rparr>"

definition TraceQueryEnd :: "gerror option \<Rightarrow> span \<Rightarrow> span" where
  "TraceQueryEnd err sp =
     End_span
       (case err of
          None \<Rightarrow> sp
        | Some e \<Rightarrow> if \<not> errors_is e ErrNoRows then SetStatus (StatusError (error_text e)) sp else sp)"

section \<open>Lemmas\<close>

lemma go_quot_pos: "0 \<le> a \<Longrightarrow> 0 < b \<Longrightarrow> go_quot a b = a div b"
  by (simp add: go_quot_def sgn_if)

lemma Milliseconds_pos: "0 < d \<Longrightarrow> Milliseconds d = d div 1000000"
  by (simp add: Milliseconds_def go_quot_pos millisecond_def)

lemma nat_dec_small: "n < 10 \<Longrightarrow> nat_dec n = [char_of (48 + n)]"
  by (simp add: nat_dec.simps [of n])

lemma byte_char_of: "n < 256 \<Longrightarrow> byte (char_of n) = n"
  by (simp add: byte_def)

lemma dec_value_append: "dec_value (s @ t) acc = dec_value t (dec_value s acc)"
  by (induction s arbitrary: acc) auto

lemma dec_value_nat_dec: "dec_value (nat_dec n) 0 = n"
proof (induction n rule: nat_dec.induct)
  case (1 n)
  show ?case
  proof (cases "n < 10")
    case True
    then show ?thesis by (simp add: nat_dec_small byte_char_of)
  next
    case False
    with 1 have "dec_value (nat_dec (n div 10)) 0 = n div 10" by simp
    with False show ?thesis
      by (subst nat_dec.simps) (simp add: dec_value_append byte_char_of)
  qed
qed

lemma nat_dec_inj: "nat_dec m = nat_dec n \<longleftrightarrow> m = n"
  by (metis dec_value_nat_dec)

lemma itoa_nonneg_inj: "0 \<le> a \<Longrightarrow> 0 \<le> b \<Longrightarrow> itoa a = itoa b \<longleftrightarrow> a = b"
  by (auto simp: itoa_def nat_dec_inj)

lemma itoa_0: "itoa 0 = ''0''"
  by (simp add: itoa_def nat_dec_small char_of_eq_iff)

text \<open>Everything before the query part of the connection string.\<close>

definition dsn_base :: "DatabaseConfig \<Rightarrow> gostring" where
  "dsn_base c = ''postgresql://'' @ db_User c @ '':'' @ db_Password c @ ''@'' @ db_Host c
     @ '':'' @ db_Port c @ ''/'' @ db_DBName c"

lemma occurrence_before_separator:
  assumes sep: "sep \<notin> set old" and i: "i < length (b @ [sep])"
    and occ: "has_prefix (drop i ((b @ [sep]) @ old)) old"
  shows "contains b old"
proof -
  from occ obtain t where t: "drop i ((b @ [sep]) @ old) = old @ t" by (auto simp: has_prefix_iff)
  show ?thesis
  proof (cases "i + length old \<le> length b")
    case True
    have "take (length old) (drop i b) = old"
      using arg_cong [OF t, of "take (length old)"] True by simp
    then have "b = take i b @ old @ drop (length old) (drop i b)"
      by (metis append_take_drop_id)
    then show ?thesis unfolding contains_iff by metis
  next
    case False
    then have "length b - i < length old" using i by simp
    moreover have "(old @ t) ! (length b - i) = sep"
      unfolding t [symmetric] using i by (simp add: nth_append)
    ultimately have "sep \<in> set old" by (metis nth_append nth_mem)
    with sep show ?thesis by simp
  qed
qed

lemma dsn_unfold:
  "dsnFromConfig c =
     (if db_SSLModeDisabled c
      then replace_first ((dsn_base c @ ''?'') @ ''sslmode=require'') ''sslmode=require'' ''sslmode=disable''
      else dsn_base c @ ''?sslmode=require'')"
  by (simp add: dsnFromConfig_def dsn_base_def Let_def)

lemma dsn_disabled:
  assumes "\<not> contains (dsn_base c) ''sslmode=require''"
  shows "replace_first ((dsn_base c @ ''?'') @ ''sslmode=require'') ''sslmode=require'' ''sslmode=disable''
    = dsn_base c @ ''?sslmode=disable''"
proof -
  have "\<not> has_prefix (drop i ((dsn_base c @ ''?'') @ ''sslmode=require'')) ''sslmode=require''"
    if "i < length (dsn_base c @ ''?'')" for i
    using occurrence_before_separator [of "CHR ''?''" "''sslmode=require''" i "dsn_base c"] that assms
    by auto
  then show ?thesis
    using replace_first_leftmost [of "''sslmode=require''" "dsn_base c @ ''?''" "[]" "''sslmode=disable''"]
    by simp
qed

lemma health_status:
  "database_Health ds ps ''status'' = Some (if fst ps = None then ''up'' else ''down'')"
  by (cases "fst ps") (simp_all add: database_Health_def Let_def)

section \<open>Properties\<close>

text \<open>
  The connection string spells out the configuration with the SSL mode it asks for, as long
  as no component of it contains the text \<open>sslmode=require\<close> itself.
\<close>

lemma dsn_ssl_mode:
  assumes "\<not> contains (dsn_base c) ''sslmode=require''"
  shows "dsnFromConfig c = dsn_base c @ (if db_SSLModeDisabled c then ''?sslmode=disable'' else ''?sslmode=require'')"
  using dsn_disabled [OF assms] by (simp add: dsn_unfold)

text \<open>
  C40: the connection string does not determine the configuration it was built from.  Two
  configurations that validation accepts, with different passwords and hosts, give the same
  string; and one with SSL disabled gives a string that still requires it, with the password
  changed instead.  Neither the password nor any other component is escaped.
\<close>

theorem dsn_unescaped:
  "(\<exists>c d. validate_database c \<and> validate_database d
      \<and> db_Password c \<noteq> db_Password d \<and> db_Host c \<noteq> db_Host d
      \<and> dsnFromConfig c = dsnFromConfig d)
   \<and> (\<exists>c. validate_database c \<and> db_SSLModeDisabled c
      \<and> dsnFromConfig c = ''postgresql://u:sslmode=disable@h:5432/d?sslmode=require'')"
proof -
  let ?c = "(cfg_Database default_config)\<lparr>db_Password := ''a@b'', db_Host := ''h'', db_SSLModeDisabled := False\<rparr>"
  let ?d = "(cfg_Database default_config)\<lparr>db_Password := ''a'', db_Host := ''b@h'', db_SSLModeDisabled := False\<rparr>"
  let ?e = "(cfg_Database default_config)\<lparr>db_User := ''u'', db_Password := ''sslmode=require'', db_Host := ''h'',
              db_DBName := ''d''\<rparr>"
  have "validate_database ?c \<and> validate_database ?d
      \<and> db_Password ?c \<noteq> db_Password ?d \<and> db_Host ?c \<noteq> db_Host ?d
      \<and> dsnFromConfig ?c = dsnFromConfig ?d"
    by (simp add: validate_database_def required_def default_config_def dsn_unfold dsn_base_def)
  moreover have "validate_database ?e \<and> db_SSLModeDisabled ?e
      \<and> dsnFromConfig ?e = ''postgresql://u:sslmode=disable@h:5432/d?sslmode=require''"
    by (simp add: validate_database_def required_def default_config_def dsnFromConfig_def has_prefix_def)
  ultimately show ?thesis by blast
qed

text \<open>
  C38: a pool setting is written exactly when it is positive, and a driver default survives
  otherwise.  The statement timeout reaches Postgres in whole milliseconds, truncated, so a
  positive timeout below one millisecond is sent as 0, the value that disables it.
\<close>

theorem applyPoolSettings_spec:
  "(pc_MaxConns (applyPoolSettings p cfg) = (if 0 < db_MaxConns cfg then db_MaxConns cfg else pc_MaxConns p))
   \<and> (pc_MinConns (applyPoolSettings p cfg) = (if 0 < db_MinConns cfg then db_MinConns cfg else pc_MinConns p))
   \<and> (pc_MaxConnLifetime (applyPoolSettings p cfg)
        = (if 0 < db_MaxConnLifetime cfg then db_MaxConnLifetime cfg else pc_MaxConnLifetime p))
   \<and> (pc_MaxConnIdleTime (applyPoolSettings p cfg)
        = (if 0 < db_MaxConnIdleTime cfg then db_MaxConnIdleTime cfg else pc_MaxConnIdleTime p))
   \<and> (pc_HealthCheckPeriod (applyPoolSettings p cfg)
        = (if 0 < db_HealthCheckPeriod cfg then db_HealthCheckPeriod cfg else pc_HealthCheckPeriod p))
   \<and> (db_StatementTimeout cfg \<le> 0 \<longrightarrow>
        pc_RuntimeParams (applyPoolSettings p cfg) = pc_RuntimeParams p)
   \<and> (0 < db_StatementTimeout cfg \<longrightarrow>
        (\<exists>m. pc_RuntimeParams (applyPoolSettings p cfg) = Some m
           \<and> m ''statement_timeout'' = Some (itoa (db_StatementTimeout cfg div 1000000))
           \<and> (m ''statement_timeout'' = Some ''0'' \<longleftrightarrow> db_StatementTimeout cfg < millisecond)))"
proof -
  have zero: "(itoa (t div 1000000) = ''0'') = (t < millisecond)" if "0 < t" for t :: int
    using that itoa_nonneg_inj [of "t div 1000000" 0]
    by (simp add: itoa_0 millisecond_def pos_imp_zdiv_nonneg_iff zdiv_eq_0_iff)
  show ?thesis
    by (simp add: applyPoolSettings_def Let_def statementTimeoutParam_def Milliseconds_pos zero)
qed

theorem applyPoolSettings_spec_witness:
  "\<exists>m. pc_RuntimeParams (applyPoolSettings
        \<lparr>pc_MaxConns = 4, pc_MinConns = 0, pc_MaxConnLifetime = 0, pc_MaxConnIdleTime = 0,
         pc_HealthCheckPeriod = 0, pc_RuntimeParams = None, pc_Tracer = None\<rparr>
        ((cfg_Database default_config)\<lparr>db_StatementTimeout := 500000\<rparr>)) = Some m
     \<and> m ''statement_timeout'' = Some ''0''"
  using applyPoolSettings_spec [of _ "(cfg_Database default_config)\<lparr>db_StatementTimeout := 500000\<rparr>"]
  by (fastforce simp: millisecond_def)

text \<open>
  Opening the database leaks no pool and hands out none it has not reached.  On every
  failure each pool that was opened was also closed; on success exactly one pool is open, it
  answered the ping, and it was opened with the settings and then the options applied.
\<close>

lemma database_New_no_leak:
  "(case database_New cfg opts ParseConfig NewWithConfig Ping of
      (Inl err, evs) \<Rightarrow> count_list evs PoolOpened = count_list evs PoolClosed
    | (Inr s, evs) \<Rightarrow>
        evs = [creating_pool, PoolOpened, PoolPinged] \<and> Ping connectTimeout (service_Pool s) = None
        \<and> (\<exists>parsed. ParseConfig (dsnFromConfig cfg) = Inr parsed
             \<and> NewWithConfig connectTimeout (foldl (\<lambda>c opt. opt c) (applyPoolSettings parsed cfg) opts) = Inr (service_Pool s)))"
  by (auto simp: database_New_def creating_pool_def service_Pool_def Let_def split: sum.split option.split)

text \<open>
  Every query span is closed, and marked failed exactly when the query failed with
  something other than an absent row, however deeply that is wrapped; what is recorded never
  depends on the query's arguments.
\<close>

lemma query_span_outcome:
  "sp_ended (TraceQueryEnd err (TraceQueryStart sql args))
   \<and> (sp_status (TraceQueryEnd err (TraceQueryStart sql args)) \<noteq> Unset
        \<longleftrightarrow> (\<exists>e. err = Some e \<and> \<not> errors_is e ErrNoRows))
   \<and> TraceQueryEnd err (TraceQueryStart sql args) = TraceQueryEnd err (TraceQueryStart sql args')
   \<and> sp_status (TraceQueryEnd (Some (Wrapped p (Sentinel ErrNoRows txt))) (TraceQueryStart sql args)) = Unset"
  by (auto simp: TraceQueryEnd_def TraceQueryStart_def End_span_def SetStatus_def split: option.split)

end
