(* ===== verification/TxManager.thy ===== *)
theory TxManager
  imports Database
begin

text \<open>
  \<open>database/tx.go\<close>: running a function inside a transaction.

  The driver's \<open>Begin\<close>, \<open>Commit\<close> and \<open>Rollback\<close> and the caller's function act on a
  state \<open>'s\<close> that is the database together with the transaction's own view of it.  A panic
  of the function is a value, re-thrown after the deferred function ran.  The lemmas show which
  call ends the transaction on every path, which error the caller sees, and that the manager is
  atomic over any driver whose transactions are.
\<close>

datatype 'p fn_result = FnOk | FnErr gerror | FnPanic 'p

datatype 'p tx_completion = TxReturn "gerror option" | TxPanic 'p

datatype tx_call = CallBegin | CallFn | CallCommit | CallRollback

text \<open>The manager embeds the pool of the service it was made for, and begins through it.\<close>

record 'pool txManager =
  tm_Pool :: 'pool

definition NewTxManager :: "'pool db_service \<Rightarrow> 'pool txManager" where
  "NewTxManager db = \<lparr>tm_Pool = service_Pool db\<rparr>"

definition tx_Begin :: "('pool \<Rightarrow> 's \<Rightarrow> (gerror + 'tx) \<times> 's) \<Rightarrow> 'pool txManager \<Rightarrow> 's \<Rightarrow> (gerror + 'tx) \<times> 's" where
  "tx_Begin Pool_Begin tm = Pool_Begin (tm_Pool tm)"

definition rollbackErr :: "('s \<Rightarrow> gerror option \<times> 's) \<Rightarrow> 's \<Rightarrow> gerror option \<times> 's" where
  "rollbackErr Rollback s =
     (let (err, s') = Rollback s
      in (case err of
            Some e \<Rightarrow>
              if \<not> errors_is e ErrTxClosed then Some (Wrapped ''failed to roll back transaction'' e) else None
          | None \<Rightarrow> None, s'))"

definition tx_rollback :: "ctx_ids \<Rightarrow> ('s \<Rightarrow> gerror option \<times> 's) \<Rightarrow> 's \<Rightarrow> log_record list \<times> 's" where
  "tx_rollback ctx Rollback s =
     (let (err, s') = rollbackErr Rollback s
      in (case err of
            Some e \<Rightarrow> [log_at ctx LevelError ''rollback failed'' [(''error'', AError e)]]
          | None \<Rightarrow> [], s'))"

text \<open>
  \<open>Execute\<close>: the completion, the state, the records logged and the calls made.
\<close>

definition Execute ::
  "ctx_ids \<Rightarrow> ('s \<Rightarrow> (gerror + 'tx) \<times> 's) \<Rightarrow> ('tx \<Rightarrow> 's \<Rightarrow> gerror option \<times> 's) \<Rightarrow> ('tx \<Rightarrow> 's \<Rightarrow> gerror option \<times> 's)
   \<Rightarrow> ('tx \<Rightarrow> 's \<Rightarrow> 'p fn_result \<times> 's) \<Rightarrow> 's
   \<Rightarrow> 'p tx_completion \<times> 's \<times> log_record list \<times> tx_call list" where
  "Execute ctx Begin Commit Rollback fn s =
     (case Begin s of
        (Inl err, s1) \<Rightarrow> (TxReturn (Some (Wrapped ''failed to begin transaction'' err)), s1, [], [CallBegin])
      | (Inr tx, s1) \<Rightarrow>
          (case fn tx s1 of
             (FnPanic p, s2) \<Rightarrow>
               (let (logs, s3) = tx_rollback ctx (Rollback tx) s2
                in (TxPanic p, s3, logs, [CallBegin, CallFn, CallRollback]))
           | (FnErr err, s2) \<Rightarrow>
               (let (rbErr, s3) = rollbackErr (Rollback tx) s2
                in (TxReturn (case rbErr of Some rb \<Rightarrow> errors_join [err, rb] | None \<Rightarrow> Some err),
                    s3, [], [CallBegin, CallFn, CallRollback]))
           | (FnOk, s2) \<Rightarrow>
               (let (cErr, s3) = Commit tx s2
                in (TxReturn (case cErr of Some e \<Rightarrow> Some (Wrapped ''failed to commit transaction'' e) | None \<Rightarrow> None),
                    s3, [], [CallBegin, CallFn, CallCommit]))))"

lemma rollbackErr_state: "snd (rollbackErr Rollback s) = snd (Rollback s)"
  by (simp add: rollbackErr_def split_beta)

lemma tx_rollback_state: "snd (tx_rollback ctx Rollback s) = snd (Rollback s)"
  by (simp add: tx_rollback_def rollbackErr_state split_beta)

lemma rollbackErr_closed: "fst (Rollback s) = Some e \<Longrightarrow> errors_is e ErrTxClosed \<Longrightarrow> fst (rollbackErr Rollback s) = None"
  by (simp add: rollbackErr_def split_beta)

text \<open>The four ways \<open>Execute\<close> can go, with the result of each.\<close>

lemma Execute_begin_failed:
  "Begin s = (Inl err, s1) \<Longrightarrow>
     Execute ctx Begin Commit Rollback fn s
       = (TxReturn (Some (Wrapped ''failed to begin transaction'' err)), s1, [], [CallBegin])"
  by (simp add: Execute_def)

lemma Execute_ok:
  "Begin s = (Inr tx, s1) \<Longrightarrow> fn tx s1 = (FnOk, s2) \<Longrightarrow>
     Execute ctx Begin Commit Rollback fn s
       = (TxReturn (map_option (Wrapped ''failed to commit transaction'') (fst (Commit tx s2))),
          snd (Commit tx s2), [], [CallBegin, CallFn, CallCommit])"
  by (simp add: Execute_def split_beta map_option_case)

lemma Execute_error:
  "Begin s = (Inr tx, s1) \<Longrightarrow> fn tx s1 = (FnErr err, s2) \<Longrightarrow>
     Execute ctx Begin Commit Rollback fn s
       = (TxReturn (case fst (rollbackErr (Rollback tx) s2) of Some rb \<Rightarrow> errors_join [err, rb] | None \<Rightarrow> Some err),
          snd (Rollback tx s2), [], [CallBegin, CallFn, CallRollback])"
  by (simp add: Execute_def split_beta rollbackErr_state)

lemma Execute_panic:
  "Begin s = (Inr tx, s1) \<Longrightarrow> fn tx s1 = (FnPanic p, s2) \<Longrightarrow>
     Execute ctx Begin Commit Rollback fn s
       = (TxPanic p, snd (Rollback tx s2), fst (tx_rollback ctx (Rollback tx) s2), [CallBegin, CallFn, CallRollback])"
  by (simp add: Execute_def split_beta tx_rollback_state)

lemmas Execute_paths = Execute_begin_failed Execute_ok Execute_error Execute_panic

lemma Execute_cases:
  obtains (begin_failed) err s1 where "Begin s = (Inl err, s1)"
  | (ok) tx s1 s2 where "Begin s = (Inr tx, s1)" "fn tx s1 = (FnOk, s2)"
  | (error) tx s1 s2 err where "Begin s = (Inr tx, s1)" "fn tx s1 = (FnErr err, s2)"
  | (panic) tx s1 s2 p where "Begin s = (Inr tx, s1)" "fn tx s1 = (FnPanic p, s2)"
proof (cases "Begin s")
  case (Pair r s1)
  then show ?thesis
  proof (cases r)
    case (Inl err)
    with Pair begin_failed show ?thesis by simp
  next
    case (Inr tx)
    with Pair ok error panic show ?thesis
      by (metis fn_result.exhaust surj_pair)
  qed
qed

section \<open>Properties\<close>


text \<open>
  The caller learns what happened.  \<open>Execute\<close> reports success exactly when beginning,
  the function and the commit all succeeded; an error of the function is still found in what it
  returns, whatever the rollback did, with its classification; a panic is passed on; and a
  transaction the function closed itself does not turn into a rollback failure.
\<close>

lemma Execute_reports:
  "(fst (Execute ctx Begin Commit Rollback fn s) = TxReturn None \<longleftrightarrow>
      (\<exists>tx s1 s2. Begin s = (Inr tx, s1) \<and> fn tx s1 = (FnOk, s2) \<and> fst (Commit tx s2) = None))
   \<and> (\<forall>tx s1 err s2. Begin s = (Inr tx, s1) \<and> fn tx s1 = (FnErr err, s2) \<longrightarrow>
        (\<exists>e. fst (Execute ctx Begin Commit Rollback fn s) = TxReturn (Some e)
           \<and> (errors_is err target \<longrightarrow> errors_is e target)
           \<and> (as_typed err \<noteq> None \<longrightarrow> TypeOf e = TypeOf err)
           \<and> ((\<exists>rb. fst (Rollback tx s2) = Some rb \<and> errors_is rb ErrTxClosed) \<longrightarrow> e = err)))
   \<and> (\<forall>tx s1 p s2. Begin s = (Inr tx, s1) \<and> fn tx s1 = (FnPanic p, s2) \<longrightarrow>
        fst (Execute ctx Begin Commit Rollback fn s) = TxPanic p)"
proof -
  have "\<exists>e. (case fst (rollbackErr (Rollback tx) s2) of Some rb \<Rightarrow> errors_join [err, rb] | None \<Rightarrow> Some err) = Some e
      \<and> (errors_is err target \<longrightarrow> errors_is e target)
      \<and> (as_typed err \<noteq> None \<longrightarrow> TypeOf e = TypeOf err)
      \<and> ((\<exists>rb. fst (Rollback tx s2) = Some rb \<and> errors_is rb ErrTxClosed) \<longrightarrow> e = err)" for tx s2 err
    using rollbackErr_closed [of "Rollback tx" s2]
    by (cases "fst (rollbackErr (Rollback tx) s2)") (auto simp: errors_join_def TypeOf_def)
  then show ?thesis
    by (rule_tac Execute_cases [where Begin = Begin and s = s and fn = fn]) (auto simp: Execute_paths errors_join_def split: option.splits)
qed

text \<open>
  C11: over a driver whose transactions are isolated, \<open>Execute\<close> is atomic.  The committed
  data changes only when \<open>Execute\<close> reports success, and then to exactly what the function
  left in its transaction.  The hypotheses are the driver's documented behaviour: beginning and
  working in a transaction do not touch committed data, a failed commit and a rollback discard
  the transaction, a successful commit publishes it.
\<close>

theorem Execute_atomic:
  assumes "\<And>s. committed (snd (Begin s)) = committed s"
    and "\<And>tx s. committed (snd (fn tx s)) = committed s"
    and "\<And>tx s. committed (snd (Rollback tx s)) = committed s"
    and "\<And>tx s. committed (snd (Commit tx s)) = (if fst (Commit tx s) = None then pending s else committed s)"
    and "Execute ctx Begin Commit Rollback fn s = (done, s', logs, calls)"
  shows "committed s' =
    (if done = TxReturn None then pending (snd (fn (projr (fst (Begin s))) (snd (Begin s)))) else committed s)"
proof (cases rule: Execute_cases [where Begin = Begin and s = s and fn = fn])
  case (begin_failed err s1)
  with assms(1) [of s] assms(5) show ?thesis by (auto simp: Execute_paths)
next
  case (ok tx s1 s2)
  with assms(1) [of s] assms(2) [of tx s1] assms(4) [of tx s2] assms(5) show ?thesis
    by (auto simp: Execute_paths)
next
  case (error tx s1 s2 err)
  with assms(1) [of s] assms(2) [of tx s1] assms(3) [of tx s2] assms(5) show ?thesis
    by (auto simp: Execute_paths errors_join_def split: option.splits)
next
  case (panic tx s1 s2 p)
  with assms(1) [of s] assms(2) [of tx s1] assms(3) [of tx s2] assms(5) show ?thesis
    by (auto simp: Execute_paths)
qed

text \<open>A store of one number: its committed value and a transaction's copy of it.\<close>

theorem Execute_atomic_witness:
  "fst (fst (snd (Execute (None, None) (\<lambda>(c, w). (Inr (), (c, c))) (\<lambda>tx (c, w). (None, (w, w))) (\<lambda>tx (c, w). (None, (c, c)))
      (\<lambda>tx (c, w). (FnOk :: unit fn_result, (c, w + 5))) (1::nat, 0::nat)))) = 6"
proof -
  let ?B = "\<lambda>(c::nat, w::nat). (Inr () :: gerror + unit, (c, c))"
  let ?C = "\<lambda>tx::unit. \<lambda>(c::nat, w::nat). (None :: gerror option, (w, w))"
  let ?R = "\<lambda>tx::unit. \<lambda>(c::nat, w::nat). (None :: gerror option, (c, c))"
  let ?F = "\<lambda>tx::unit. \<lambda>(c::nat, w::nat). (FnOk :: unit fn_result, (c, w + 5))"
  obtain d s' logs calls where E: "Execute (None, None) ?B ?C ?R ?F (1, 0) = (d, s', logs, calls)"
    using prod_cases4 by blast
  have "d = TxReturn None" using E by (simp add: Execute_def)
  moreover have "fst s' = (if d = TxReturn None then snd (snd (?F () (snd (?B (1, 0))))) else fst (1, 0))"
    using Execute_atomic [of fst ?B ?F ?R ?C snd "(None, None)" "(1, 0)" d s' logs calls] E by (simp add: split_beta)
  ultimately show ?thesis using E by simp
qed

end
