(* ===== verification/Profile.thy ===== *)
theory Profile
  imports Telemetry
begin

text \<open>
  \<open>internal/base.go\<close> and \<open>internal/profile\<close>: the profile entity, its requests and
  response, the repository interface, and the service that runs each use case over a repository.

  Every service operation takes the context's ids, the request and the repository's state and
  returns the result, the state and the records it logged.  The locale \<open>profile_store\<close>
  states what the service may rely on about its repository, and its lemmas are what the service
  then promises its own callers.
\<close>

section \<open>Entities\<close>

type_synonym time = int

record Base =
  Id :: gostring
  CreatedAt :: time
  UpdatedAt :: time

record Profile = Base +
  FirstName :: gostring
  LastName :: gostring

text \<open>Go's zero value of \<open>time.Time\<close> is a fixed instant.\<close>

definition zero_time :: time where
  "zero_time = -62135596800 * 1000000000"

definition Profile_New :: Profile where
  "Profile_New = \<lparr>Id = [], CreatedAt = zero_time, UpdatedAt = zero_time, FirstName = [], LastName = []\<rparr>"

definition WithId :: "gostring \<Rightarrow> Profile \<Rightarrow> Profile" where
  "WithId i p = p\<lparr>Id := i\<rparr>"

definition WithFirstName :: "gostring \<Rightarrow> Profile \<Rightarrow> Profile" where
  "WithFirstName n p = p\<lparr>FirstName := n\<rparr>"

definition WithLastName :: "gostring \<Rightarrow> Profile \<Rightarrow> Profile" where
  "WithLastName n p = p\<lparr>LastName := n\<rparr>"

section \<open>Pagination\<close>

record PageRequest =
  page_Limit :: int
  page_Offset :: int

definition DefaultPageRequest :: PageRequest where
  "DefaultPageRequest = \<lparr>page_Limit = 10, page_Offset = 0\<rparr>"

record 'a Page =
  page_TotalPages :: int
  page_TotalItems :: int
  page_Items :: "'a list"

definition EmptyPage :: "'a Page" where
  "EmptyPage = \<lparr>page_TotalPages = 0, page_TotalItems = 0, page_Items = []\<rparr>"

section \<open>Requests and responses\<close>

record GetRequest =
  get_Id :: gostring

record CreateRequest =
  create_FirstName :: gostring
  create_LastName :: gostring

record UpdateRequest =
  update_Id :: gostring
  update_FirstName :: gostring
  update_LastName :: gostring

record DeleteRequest =
  delete_Id :: gostring

record Response =
  res_Id :: gostring
  res_FirstName :: gostring
  res_LastName :: gostring
  res_CreatedAt :: time
  res_UpdatedAt :: time

definition fromModel :: "Profile \<Rightarrow> Response" where
  "fromModel u =
     \<lparr>res_Id = Id u, res_FirstName = FirstName u, res_LastName = LastName u,
      res_CreatedAt = CreatedAt u, res_UpdatedAt = UpdatedAt u\<rparr>"

section \<open>The repository interface and the service\<close>

record 's Repository =
  repo_GetById :: "gostring \<Rightarrow> 's \<Rightarrow> (gerror + Profile) \<times> 's"
  repo_Create :: "Profile \<Rightarrow> 's \<Rightarrow> (gerror + Profile) \<times> 's"
  repo_Update :: "Profile \<Rightarrow> 's \<Rightarrow> (gerror + Profile) \<times> 's"
  repo_DeleteById :: "gostring \<Rightarrow> 's \<Rightarrow> gerror option \<times> 's"

definition svc_GetById ::
  "'s Repository \<Rightarrow> ctx_ids \<Rightarrow> GetRequest \<Rightarrow> 's \<Rightarrow> (gerror + Response) \<times> 's \<times> log_record list" where
  "svc_GetById r ctx req s =
     (case repo_GetById r (get_Id req) s of
        (Inl err, s') \<Rightarrow>
          (Inl (NewError (Wrapped ''failed to get profile by id'' err) (TypeOf err)), s',
           [log_at ctx LevelError ''failed to get profile by id''
              [(''id'', AString (get_Id req)), (''error'', AError err)]])
      | (Inr u, s') \<Rightarrow> (Inr (fromModel u), s', []))"

definition svc_Create ::
  "'s Repository \<Rightarrow> ctx_ids \<Rightarrow> CreateRequest \<Rightarrow> 's \<Rightarrow> (gerror + Response) \<times> 's \<times> log_record list" where
  "svc_Create r ctx req s =
     (let p = WithLastName (create_LastName req) (WithFirstName (create_FirstName req) Profile_New) in
      case repo_Create r p s of
        (Inl err, s') \<Rightarrow>
          (Inl (NewError (Wrapped ''failed to create profile'' err) (TypeOf err)), s',
           [log_at ctx LevelError ''failed to create profile'' [(''error'', AError err)]])
      | (Inr created, s') \<Rightarrow> (Inr (fromModel created), s', []))"

definition svc_Update ::
  "'s Repository \<Rightarrow> ctx_ids \<Rightarrow> UpdateRequest \<Rightarrow> 's \<Rightarrow> (gerror + Response) \<times> 's \<times> log_record list" where
  "svc_Update r ctx req s =
     (let u = WithLastName (update_LastName req)
                (WithFirstName (update_FirstName req) (WithId (update_Id req) Profile_New)) in
      case repo_Update r u s of
        (Inl err, s') \<Rightarrow>
          (Inl (NewError (Wrapped ''failed to update profile'' err) (TypeOf err)), s',
           [log_at ctx LevelError ''failed to update profile'' [(''error'', AError err)]])
      | (Inr updated, s') \<Rightarrow> (Inr (fromModel updated), s', []))"

definition svc_DeleteById ::
  "'s Repository \<Rightarrow> ctx_ids \<Rightarrow> DeleteRequest \<Rightarrow> 's \<Rightarrow> (gerror + bool) \<times> 's \<times> log_record list" where
  "svc_DeleteById r ctx req s =
     (case repo_DeleteById r (delete_Id req) s of
        (Some err, s') \<Rightarrow>
          (Inl (NewError (Wrapped ''failed to delete profile by id'' err) (TypeOf err)), s',
           [log_at ctx LevelError ''failed to delete profile by id''
              [(''id'', AString (delete_Id req)), (''error'', AError err)]])
      | (None, s') \<Rightarrow> (Inr True, s', []))"

lemmas builder_defs = Profile_New_def WithId_def WithFirstName_def WithLastName_def

section \<open>Lemmas that need no law\<close>

text \<open>A failure keeps the repository's classification and is logged exactly once.\<close>

lemma svc_GetById_error:
  "svc_GetById r ctx req s = (Inl e, s', logs) \<Longrightarrow>
     \<exists>err. repo_GetById r (get_Id req) s = (Inl err, s') \<and> TypeOf e = TypeOf err \<and> length logs = 1"
  by (auto simp: svc_GetById_def split: prod.splits sum.splits)

lemma svc_Create_error:
  "svc_Create r ctx req s = (Inl e, s', logs) \<Longrightarrow>
     \<exists>p err. repo_Create r p s = (Inl err, s') \<and> TypeOf e = TypeOf err \<and> length logs = 1"
  by (fastforce simp: svc_Create_def Let_def split: prod.splits sum.splits)

lemma svc_Update_error:
  "svc_Update r ctx req s = (Inl e, s', logs) \<Longrightarrow>
     \<exists>p err. repo_Update r p s = (Inl err, s') \<and> Id p = update_Id req \<and> TypeOf e = TypeOf err \<and> length logs = 1"
  by (fastforce simp: svc_Update_def Let_def builder_defs split: prod.splits sum.splits)

lemma svc_DeleteById_error:
  "svc_DeleteById r ctx req s = (Inl e, s', logs) \<Longrightarrow>
     \<exists>err. repo_DeleteById r (delete_Id req) s = (Some err, s') \<and> TypeOf e = TypeOf err \<and> length logs = 1"
  by (auto simp: svc_DeleteById_def split: prod.splits option.splits)

lemmas svc_errors = svc_GetById_error svc_Create_error svc_Update_error svc_DeleteById_error

section \<open>The contract of a repository\<close>

text \<open>
  \<open>key\<close> says which entity an id text names, \<open>view\<close> the names stored for each, and
  \<open>inv\<close> is the invariant every operation keeps.
\<close>

locale profile_store =
  fixes r :: "'s Repository"
    and key :: "gostring \<Rightarrow> 'k option"
    and view :: "'s \<Rightarrow> 'k \<Rightarrow> (gostring \<times> gostring) option"
    and inv :: "'s \<Rightarrow> bool"
  assumes get_ok: "inv s \<Longrightarrow> repo_GetById r i s = (Inr p, s') \<Longrightarrow>
        \<exists>k. key i = Some k \<and> key (Id p) = Some k \<and> view s k = Some (FirstName p, LastName p)"
    and get_frame: "repo_GetById r i s = (res, s') \<Longrightarrow> view s' = view s"
    and get_not_found: "repo_GetById r i s = (Inl e, s') \<Longrightarrow> TypeOf e = ErrNotFound \<Longrightarrow>
        key i = Some k \<Longrightarrow> view s k = None"
    and create_ok: "repo_Create r p s = (Inr q, s') \<Longrightarrow>
        \<exists>k. key (Id q) = Some k \<and> view s k = None
          \<and> view s' = (view s)(k \<mapsto> (FirstName p, LastName p))
          \<and> FirstName q = FirstName p \<and> LastName q = LastName p"
    and create_frame: "inv s \<Longrightarrow> repo_Create r p s = (Inl e, s') \<Longrightarrow> view s' = view s"
    and update_ok: "repo_Update r p s = (Inr q, s') \<Longrightarrow>
        \<exists>k. key (Id p) = Some k \<and> key (Id q) = Some k \<and> view s k \<noteq> None
          \<and> view s' = (view s)(k \<mapsto> (FirstName p, LastName p))
          \<and> FirstName q = FirstName p \<and> LastName q = LastName p"
    and update_frame: "inv s \<Longrightarrow> repo_Update r p s = (Inl e, s') \<Longrightarrow> view s' = view s"
    and delete_ok: "repo_DeleteById r i s = (None, s') \<Longrightarrow>
        \<exists>k. key i = Some k \<and> view s k \<noteq> None \<and> view s' = (view s)(k := None)"
    and delete_frame: "repo_DeleteById r i s = (Some e, s') \<Longrightarrow> view s' = view s"
    and inv_get: "inv s \<Longrightarrow> repo_GetById r i s = (res, s') \<Longrightarrow> inv s'"
    and inv_create: "inv s \<Longrightarrow> repo_Create r p s = (res, s') \<Longrightarrow> inv s'"
    and inv_update: "inv s \<Longrightarrow> repo_Update r p s = (res, s') \<Longrightarrow> inv s'"
    and inv_delete: "inv s \<Longrightarrow> repo_DeleteById r i s = (err, s') \<Longrightarrow> inv s'"
begin

lemma svc_get_ok:
  assumes "inv s" and "svc_GetById r ctx req s = (Inr res, s', logs)"
  shows "\<exists>k. key (get_Id req) = Some k \<and> view s k = Some (res_FirstName res, res_LastName res)"
  using assms get_ok by (fastforce simp: svc_GetById_def fromModel_def split: prod.splits sum.splits)

lemma svc_create_ok:
  assumes "svc_Create r ctx req s = (Inr res, s', logs)"
  shows "\<exists>k. key (res_Id res) = Some k \<and> view s k = None
    \<and> view s' = (view s)(k \<mapsto> (create_FirstName req, create_LastName req))
    \<and> res_FirstName res = create_FirstName req \<and> res_LastName res = create_LastName req"
  using assms create_ok
  by (fastforce simp: svc_Create_def Let_def fromModel_def builder_defs split: prod.splits sum.splits)

lemma svc_update_ok:
  assumes "svc_Update r ctx req s = (Inr res, s', logs)"
  shows "\<exists>k. key (update_Id req) = Some k \<and> key (res_Id res) = Some k \<and> view s k \<noteq> None
    \<and> view s' = (view s)(k \<mapsto> (update_FirstName req, update_LastName req))"
  using assms update_ok
  by (fastforce simp: svc_Update_def Let_def fromModel_def builder_defs split: prod.splits sum.splits)

lemma svc_delete_ok:
  assumes "svc_DeleteById r ctx req s = (Inr b, s', logs)"
  shows "\<exists>k. key (delete_Id req) = Some k \<and> view s k \<noteq> None \<and> view s' = (view s)(k := None)"
  using assms delete_ok by (fastforce simp: svc_DeleteById_def split: prod.splits option.splits)

text \<open>A read after a write: the names just stored, or a failure that is not \<open>NotFound\<close>.\<close>

lemma get_stored:
  assumes inv: "inv s" and k: "key i = Some k" and v: "view s k = Some (nm1, nm2)"
    and get: "svc_GetById r ctx \<lparr>get_Id = i\<rparr> s = (res, s', logs)"
  shows "(case res of Inr p \<Rightarrow> res_FirstName p = nm1 \<and> res_LastName p = nm2 | Inl e \<Rightarrow> TypeOf e \<noteq> ErrNotFound)"
proof (cases res)
  case (Inl e)
  with get obtain err where "repo_GetById r i s = (Inl err, s')" "TypeOf e = TypeOf err"
    using svc_GetById_error by fastforce
  with Inl k v get_not_found show ?thesis by fastforce
next
  case (Inr p)
  with inv get k v svc_get_ok [of s ctx "\<lparr>get_Id = i\<rparr>" p s' logs] show ?thesis by auto
qed

lemma get_absent:
  assumes inv: "inv s" and k: "key i = Some k" and v: "view s k = None"
    and get: "svc_GetById r ctx \<lparr>get_Id = i\<rparr> s = (res, s', logs)"
  shows "\<not> is_ok res"
proof
  assume "is_ok res"
  then obtain p where "res = Inr p" by (rule is_okE)
  with inv get k v svc_get_ok [of s ctx "\<lparr>get_Id = i\<rparr>" p s' logs] show False by auto
qed

lemma svc_inv_create: "inv s \<Longrightarrow> svc_Create r ctx req s = (res, s', logs) \<Longrightarrow> inv s'"
  using inv_create by (fastforce simp: svc_Create_def Let_def split: prod.splits sum.splits)

lemma svc_inv_update: "inv s \<Longrightarrow> svc_Update r ctx req s = (res, s', logs) \<Longrightarrow> inv s'"
  using inv_update by (fastforce simp: svc_Update_def Let_def split: prod.splits sum.splits)

lemma svc_inv_delete: "inv s \<Longrightarrow> svc_DeleteById r ctx req s = (res, s', logs) \<Longrightarrow> inv s'"
  using inv_delete by (fastforce simp: svc_DeleteById_def split: prod.splits option.splits)

lemma read_your_create:
  assumes "inv s" and "svc_Create r ctx req s = (Inr res, s1, logs)"
    and "svc_GetById r ctx' \<lparr>get_Id = res_Id res\<rparr> s1 = (got, s2, logs')"
  shows "(case got of Inr p \<Rightarrow> res_FirstName p = create_FirstName req \<and> res_LastName p = create_LastName req
    | Inl e \<Rightarrow> TypeOf e \<noteq> ErrNotFound)"
  using svc_create_ok [OF assms(2)] svc_inv_create [OF assms(1,2)] get_stored [OF _ _ _ assms(3)] by auto

lemma read_your_update:
  assumes "inv s" and "svc_Update r ctx req s = (Inr res, s1, logs)"
    and "svc_GetById r ctx' \<lparr>get_Id = update_Id req\<rparr> s1 = (got, s2, logs')"
  shows "(case got of Inr p \<Rightarrow> res_FirstName p = update_FirstName req \<and> res_LastName p = update_LastName req
    | Inl e \<Rightarrow> TypeOf e \<noteq> ErrNotFound)"
  using svc_update_ok [OF assms(2)] svc_inv_update [OF assms(1,2)] get_stored [OF _ _ _ assms(3)] by auto

lemma no_read_after_delete:
  assumes "inv s" and "svc_DeleteById r ctx req s = (Inr b, s1, logs)"
    and "svc_GetById r ctx' \<lparr>get_Id = delete_Id req\<rparr> s1 = (got, s2, logs')"
  shows "\<not> is_ok got"
  using svc_delete_ok [OF assms(2)] svc_inv_delete [OF assms(1,2)] get_absent [OF _ _ _ assms(3)] by auto

text \<open>A failed write changes nothing a reader could see.\<close>

lemma failed_writes_invisible:
  assumes "inv s"
  shows "svc_Create r ctx creq s = (Inl e, s', logs) \<Longrightarrow> view s' = view s"
    and "svc_Update r ctx ureq s = (Inl e, s', logs) \<Longrightarrow> view s' = view s"
    and "svc_DeleteById r ctx dreq s = (Inl e, s', logs) \<Longrightarrow> view s' = view s"
  using assms create_frame update_frame delete_frame svc_Create_error svc_Update_error svc_DeleteById_error
  by metis+

end

end
