(* ===== verification/Uuid.thy ===== *)
theory Uuid
  imports GoStrings "HOL-Library.Word"
begin

text \<open>
  Identifiers: the \<open>pattern\<close> the requests constrain an id with
  (\<open>api/operations.go\<close>, \<open>internal/profile/request.go\<close>), and the text form of a
  128-bit UUID as Postgres reads and prints it.  The lemmas show that the pattern describes
  exactly the texts that can be read, and that reading inverts printing.
\<close>

type_synonym uuid = "128 word"

section \<open>The pattern\<close>

definition hex_char :: "char \<Rightarrow> bool" where
  "hex_char c \<longleftrightarrow>
     (48 \<le> byte c \<and> byte c \<le> 57) \<or> (97 \<le> byte c \<and> byte c \<le> 102) \<or> (65 \<le> byte c \<and> byte c \<le> 70)"

definition hex_group :: "nat \<Rightarrow> gostring \<Rightarrow> bool" where
  "hex_group n s \<longleftrightarrow> length s = n \<and> list_all hex_char s"

text \<open>
  \<^verbatim>\<open>^[0-9a-fA-F]{8}-[0-9a-fA-F]{4}-[0-9a-fA-F]{4}-[0-9a-fA-F]{4}-[0-9a-fA-F]{12}$\<close>
\<close>

definition uuid_pattern :: "gostring \<Rightarrow> bool" where
  "uuid_pattern s =
     (case split_byte CHR ''-'' s of
        [a, b, c, d, e] \<Rightarrow>
          hex_group 8 a \<and> hex_group 4 b \<and> hex_group 4 c \<and> hex_group 4 d \<and> hex_group 12 e
      | _ \<Rightarrow> False)"

section \<open>Reading and printing\<close>

definition hex_digit :: "nat \<Rightarrow> char" where
  "hex_digit n = char_of (if n < 10 then 48 + n else 87 + n)"

definition digit_value :: "char \<Rightarrow> nat" where
  "digit_value c =
     (if byte c \<le> 57 then byte c - 48 else if byte c \<le> 70 then byte c - 55 else byte c - 87)"

fun hex_digits :: "nat \<Rightarrow> nat \<Rightarrow> gostring" where
  "hex_digits 0 x = []"
| "hex_digits (Suc n) x = hex_digits n (x div 16) @ [hex_digit (x mod 16)]"

fun hex_value :: "gostring \<Rightarrow> nat \<Rightarrow> nat" where
  "hex_value [] acc = acc"
| "hex_value (c # s) acc = hex_value s (acc * 16 + digit_value c)"

definition uuid_string :: "uuid \<Rightarrow> gostring" where
  "uuid_string u =
     (let h = hex_digits 32 (unat u)
      in join ''-'' [take 8 h, take 4 (drop 8 h), take 4 (drop 12 h), take 4 (drop 16 h), drop 20 h])"

definition uuid_parse :: "gostring \<Rightarrow> uuid option" where
  "uuid_parse s =
     (if uuid_pattern s then Some (of_nat (hex_value (concat (split_byte CHR ''-'' s)) 0)) else None)"

section \<open>Lemmas\<close>

lemma byte_hex_digit: "n < 16 \<Longrightarrow> byte (hex_digit n) = (if n < 10 then 48 + n else 87 + n)"
  by (simp add: hex_digit_def byte_def)

lemma digit_value_hex_digit: "n < 16 \<Longrightarrow> digit_value (hex_digit n) = n"
  by (simp add: digit_value_def byte_hex_digit)

lemma hex_char_hex_digit: "n < 16 \<Longrightarrow> hex_char (hex_digit n)"
  by (simp add: hex_char_def byte_hex_digit)

lemma length_hex_digits [simp]: "length (hex_digits n x) = n"
  by (induction n arbitrary: x) simp_all

lemma hex_digits_hex: "list_all hex_char (hex_digits n x)"
  by (induction n arbitrary: x) (simp_all add: hex_char_hex_digit)

lemma hex_value_append: "hex_value (s @ t) acc = hex_value t (hex_value s acc)"
  by (induction s arbitrary: acc) auto

lemma hex_value_hex_digits: "hex_value (hex_digits n x) 0 = x mod 16 ^ n"
proof (induction n arbitrary: x)
  case (Suc n)
  have "x mod (16 * 16 ^ n) = 16 * (x div 16 mod 16 ^ n) + x mod 16"
    by (rule mod_mult2_eq)
  with Suc show ?case by (simp add: hex_value_append digit_value_hex_digit mult.commute)
qed simp

lemma hex_char_not_hyphen: "list_all hex_char s \<Longrightarrow> CHR ''-'' \<notin> set s"
  by (auto simp: list_all_iff hex_char_def byte_def)

lemma list_all_take_drop: "list_all P xs \<Longrightarrow> list_all P (take n xs) \<and> list_all P (drop n xs)"
  by (metis append_take_drop_id list_all_append)

lemma uuid_string_groups:
  "split_byte CHR ''-'' (uuid_string u) =
     (let h = hex_digits 32 (unat u)
      in [take 8 h, take 4 (drop 8 h), take 4 (drop 12 h), take 4 (drop 16 h), drop 20 h])"
  unfolding uuid_string_def Let_def
  by (rule split_byte_join) (simp_all add: hex_char_not_hyphen list_all_take_drop hex_digits_hex)

lemma uuid_pattern_string: "uuid_pattern (uuid_string u)"
  by (simp add: uuid_pattern_def uuid_string_groups Let_def hex_group_def list_all_take_drop hex_digits_hex)

lemma uuid_parse_None: "uuid_parse s = None \<longleftrightarrow> \<not> uuid_pattern s"
  by (simp add: uuid_parse_def)

lemma uuid_parse_string: "uuid_parse (uuid_string u) = Some u"
proof -
  let ?h = "hex_digits 32 (unat u)"
  have split: "take 4 (drop 16 ?h) @ drop 20 ?h = drop 16 ?h"
      "take 4 (drop 12 ?h) @ drop 16 ?h = drop 12 ?h"
      "take 4 (drop 8 ?h) @ drop 12 ?h = drop 8 ?h"
    using append_take_drop_id [of 4 "drop 16 ?h"] append_take_drop_id [of 4 "drop 12 ?h"]
      append_take_drop_id [of 4 "drop 8 ?h"] by simp_all
  then have "concat (split_byte CHR ''-'' (uuid_string u)) = ?h"
    by (simp add: uuid_string_groups Let_def)
  moreover have "unat u < 2 ^ 128"
    using unsigned_less [where ?'a = nat and w = u] by simp
  then have "unat u mod 16 ^ 32 = unat u" by simp
  ultimately show ?thesis
    by (simp add: uuid_parse_def uuid_pattern_string hex_value_hex_digits)
qed

end
