(* ===== verification/Repository.thy ===== *)
theory Repository
  imports Profile Uuid
begin

text \<open>
  \<open>database/repositories\<close>: the profile repository over the \<open>profiles\<close> table, and the
  classification of driver failures.

  The table is the one the migrations create, with its constraints; each statement under
  \<open>sql/\<close> is an operation on it.  What Postgres and the driver decide is an argument
  (\<open>pg_env\<close>): the next identifier and timestamp, and whether a statement fails before it
  runs.  The repository's operations then are the Go methods, and interpreting
  \<open>profile_store\<close> on them discharges every law the service relies on.
\<close>

section \<open>The table and its statements\<close>

record row =
  row_first_name :: gostring
  row_last_name :: gostring
  row_created_at :: "time option"
  row_updated_at :: "time option"

text \<open>\<open>tick\<close> counts the statements executed and indexes the environment's answers.\<close>

record db =
  db_table :: "uuid \<rightharpoonup> row"
  db_tick :: nat

datatype statement =
    SelectProfile gostring
  | InsertProfile gostring gostring
  | UpdateProfile gostring gostring gostring
  | DeleteProfile gostring

text \<open>
  A statement that failed to run: its context expired or was cancelled, or the driver or the
  server reported something else.  An absent row is not among these, since it is reported only
  by scanning an empty result.
\<close>

datatype driver_failure =
    FailDeadline gostring
  | FailCanceled gostring
  | FailOther gostring bool

fun failure_error :: "driver_failure \<Rightarrow> gerror" where
  "failure_error (FailDeadline ctx) = Wrapped ctx (Sentinel DeadlineExceeded ''context deadline exceeded'')"
| "failure_error (FailCanceled ctx) = Wrapped ctx (Sentinel Canceled ''context canceled'')"
| "failure_error (FailOther msg net) = Foreign msg net"

record pg_env =
  pg_gen_uuid :: "nat \<Rightarrow> uuid"
  pg_now :: "nat \<Rightarrow> time"
  pg_fault :: "nat \<Rightarrow> statement \<Rightarrow> driver_failure option"

text \<open>
  \<^verbatim>\<open>first_name VARCHAR(255) NOT NULL CHECK (first_name <> '')\<close>, and the same for the last
  name; \<open>VARCHAR\<close> counts characters.
\<close>

definition name_constraint :: "gostring \<Rightarrow> bool" where
  "name_constraint n \<longleftrightarrow> n \<noteq> [] \<and> length (runes n) \<le> 255"

definition row_constraint :: "row \<Rightarrow> bool" where
  "row_constraint w \<longleftrightarrow> name_constraint (row_first_name w) \<and> name_constraint (row_last_name w)"

definition no_rows :: gerror where
  "no_rows = Sentinel ErrNoRows ''no rows in result set''"

definition pg_error :: "gostring \<Rightarrow> gerror" where
  "pg_error msg = Foreign msg False"

text \<open>One statement: fails as the environment says, or runs on the table.\<close>

definition run_statement ::
  "pg_env \<Rightarrow> statement \<Rightarrow> ((uuid \<rightharpoonup> row) \<Rightarrow> (gerror + 'a) \<times> (uuid \<rightharpoonup> row)) \<Rightarrow> db \<Rightarrow> (gerror + 'a) \<times> db" where
  "run_statement pg stm body s =
     (case pg_fault pg (db_tick s) stm of
        Some failure \<Rightarrow> (Inl (failure_error failure), s\<lparr>db_tick := Suc (db_tick s)\<rparr>)
      | None \<Rightarrow>
          (let (res, t') = body (db_table s)
           in (res, s\<lparr>db_table := t', db_tick := Suc (db_tick s)\<rparr>)))"

text \<open>\<open>sql/profile_get_by_id.sql\<close>.\<close>

definition sql_get_by_id :: "gostring \<Rightarrow> (uuid \<rightharpoonup> row) \<Rightarrow> (gerror + uuid \<times> row) \<times> (uuid \<rightharpoonup> row)" where
  "sql_get_by_id i t =
     (case uuid_parse i of
        None \<Rightarrow> (Inl (pg_error ''invalid input syntax for type uuid''), t)
      | Some u \<Rightarrow> (case t u of None \<Rightarrow> (Inl no_rows, t) | Some w \<Rightarrow> (Inr (u, w), t)))"

text \<open>\<open>sql/profile_insert.sql\<close>, with the key and the clock the environment supplies.\<close>

definition sql_insert ::
  "uuid \<Rightarrow> time \<Rightarrow> gostring \<Rightarrow> gostring \<Rightarrow> (uuid \<rightharpoonup> row) \<Rightarrow> (gerror + uuid \<times> row) \<times> (uuid \<rightharpoonup> row)" where
  "sql_insert u now f l t =
     (let w = \<lparr>row_first_name = f, row_last_name = l, row_created_at = Some now, row_updated_at = Some now\<rparr>
      in if \<not> row_constraint w then (Inl (pg_error ''violates a constraint of profiles''), t)
         else if t u \<noteq> None then (Inl (pg_error ''duplicate key value violates unique constraint''), t)
         else (Inr (u, w), t(u \<mapsto> w)))"

text \<open>\<open>sql/profile_update.sql\<close>: constraints are checked on the row it matches.\<close>

definition sql_update ::
  "time \<Rightarrow> gostring \<Rightarrow> gostring \<Rightarrow> gostring \<Rightarrow> (uuid \<rightharpoonup> row) \<Rightarrow> (gerror + uuid \<times> row) \<times> (uuid \<rightharpoonup> row)" where
  "sql_update now f l i t =
     (case uuid_parse i of
        None \<Rightarrow> (Inl (pg_error ''invalid input syntax for type uuid''), t)
      | Some u \<Rightarrow>
          (case t u of
             None \<Rightarrow> (Inl no_rows, t)
           | Some old \<Rightarrow>
               (let w = old\<lparr>row_first_name := f, row_last_name := l, row_updated_at := Some now\<rparr>
                in if \<not> row_constraint w then (Inl (pg_error ''violates a constraint of profiles''), t)
                   else (Inr (u, w), t(u \<mapsto> w)))))"

text \<open>\<open>sql/profile_delete_by_id.sql\<close>: the number of rows affected.\<close>

definition sql_delete_by_id :: "gostring \<Rightarrow> (uuid \<rightharpoonup> row) \<Rightarrow> (gerror + nat) \<times> (uuid \<rightharpoonup> row)" where
  "sql_delete_by_id i t =
     (case uuid_parse i of
        None \<Rightarrow> (Inl (pg_error ''invalid input syntax for type uuid''), t)
      | Some u \<Rightarrow> (case t u of None \<Rightarrow> (Inr 0, t) | Some w \<Rightarrow> (Inr 1, t(u := None))))"

section \<open>The repository\<close>

definition repo_classify :: "gerror \<Rightarrow> gerror" where
  "repo_classify err =
     (if errors_is err ErrNoRows then NewError err ErrNotFound
      else if errors_is err DeadlineExceeded \<or> errors_is err Canceled then NewError err ErrUnavailable
      else NewError err ErrInternal)"

definition notFound :: "gostring \<Rightarrow> gostring \<Rightarrow> gerror" where
  "notFound entity i = NewError (ErrNew (entity @ '' '' @ [CHR 0x22] @ i @ [CHR 0x22] @ '' not found'')) ErrNotFound"

text \<open>Scanning a timestamp into \<open>time.Time\<close> fails on NULL.\<close>

definition scan_times :: "row \<Rightarrow> (gerror + time \<times> time)" where
  "scan_times w =
     (case (row_created_at w, row_updated_at w) of
        (Some c, Some u) \<Rightarrow> Inr (c, u)
      | _ \<Rightarrow> Inl (Foreign ''cannot scan NULL into *time.Time'' False))"

definition GetById :: "pg_env \<Rightarrow> gostring \<Rightarrow> db \<Rightarrow> (gerror + Profile) \<times> db" where
  "GetById pg i s =
     (let (res, s') = run_statement pg (SelectProfile i) (sql_get_by_id i) s in
      case (case res of Inl e \<Rightarrow> Inl e
              | Inr (u, w) \<Rightarrow> (case scan_times w of Inl e \<Rightarrow> Inl e | Inr tms \<Rightarrow> Inr (u, w, tms))) of
        Inl err \<Rightarrow> (Inl (repo_classify (Wrapped ''failed to get profile by id'' err)), s')
      | Inr (u, w, c, m) \<Rightarrow>
          (Inr \<lparr>Id = uuid_string u, CreatedAt = c, UpdatedAt = m,
                FirstName = row_first_name w, LastName = row_last_name w\<rparr>, s'))"

definition Create :: "pg_env \<Rightarrow> Profile \<Rightarrow> db \<Rightarrow> (gerror + Profile) \<times> db" where
  "Create pg p s =
     (let (res, s') = run_statement pg (InsertProfile (FirstName p) (LastName p))
            (sql_insert (pg_gen_uuid pg (db_tick s)) (pg_now pg (db_tick s)) (FirstName p) (LastName p)) s in
      case (case res of Inl e \<Rightarrow> Inl e
              | Inr (u, w) \<Rightarrow> (case scan_times w of Inl e \<Rightarrow> Inl e | Inr tms \<Rightarrow> Inr (u, tms))) of
        Inl err \<Rightarrow> (Inl (repo_classify (Wrapped ''failed to create profile'' err)), s')
      | Inr (u, c, m) \<Rightarrow> (Inr (p\<lparr>Id := uuid_string u, CreatedAt := c, UpdatedAt := m\<rparr>), s'))"

definition Update :: "pg_env \<Rightarrow> Profile \<Rightarrow> db \<Rightarrow> (gerror + Profile) \<times> db" where
  "Update pg p s =
     (let (res, s') = run_statement pg (UpdateProfile (FirstName p) (LastName p) (Id p))
            (sql_update (pg_now pg (db_tick s)) (FirstName p) (LastName p) (Id p)) s in
      case (case res of Inl e \<Rightarrow> Inl e
              | Inr (u, w) \<Rightarrow> (case scan_times w of Inl e \<Rightarrow> Inl e | Inr tms \<Rightarrow> Inr (u, tms))) of
        Inl err \<Rightarrow> (Inl (repo_classify (Wrapped ''failed to update profile'' err)), s')
      | Inr (u, c, m) \<Rightarrow> (Inr (p\<lparr>Id := uuid_string u, CreatedAt := c, UpdatedAt := m\<rparr>), s'))"

definition DeleteById :: "pg_env \<Rightarrow> gostring \<Rightarrow> db \<Rightarrow> gerror option \<times> db" where
  "DeleteById pg i s =
     (let (res, s') = run_statement pg (DeleteProfile i) (sql_delete_by_id i) s in
      case res of
        Inl err \<Rightarrow> (Some (repo_classify (Wrapped ''failed to delete profile by id'' err)), s')
      | Inr rows \<Rightarrow> if rows = 0 then (Some (notFound ''profile'' i), s') else (None, s'))"

definition NewProfileRepository :: "pg_env \<Rightarrow> db Repository" where
  "NewProfileRepository pg =
     \<lparr>repo_GetById = GetById pg, repo_Create = Create pg, repo_Update = Update pg, repo_DeleteById = DeleteById pg\<rparr>"

section \<open>Invariant and abstraction\<close>

text \<open>Every stored row meets the constraints and carries both timestamps.\<close>

definition well_formed :: "db \<Rightarrow> bool" where
  "well_formed s \<longleftrightarrow>
     (\<forall>u w. db_table s u = Some w \<longrightarrow> row_constraint w \<and> row_created_at w \<noteq> None \<and> row_updated_at w \<noteq> None)"

definition names :: "row \<Rightarrow> gostring \<times> gostring" where
  "names w = (row_first_name w, row_last_name w)"

definition stored_names :: "db \<Rightarrow> uuid \<Rightarrow> (gostring \<times> gostring) option" where
  "stored_names s u = map_option names (db_table s u)"

section \<open>Lemmas\<close>

lemma TypeOf_repo_classify:
  "TypeOf (repo_classify err) =
     (if errors_is err ErrNoRows then ErrNotFound
      else if errors_is err DeadlineExceeded \<or> errors_is err Canceled then ErrUnavailable
      else ErrInternal)"
  by (simp add: repo_classify_def)

lemma error_types_distinct [simp]:
  "ErrNotFound \<noteq> ErrUnavailable" "ErrNotFound \<noteq> ErrInternal" "ErrUnavailable \<noteq> ErrInternal"
  "ErrUnavailable \<noteq> ErrNotFound" "ErrInternal \<noteq> ErrNotFound" "ErrInternal \<noteq> ErrUnavailable"
  by (simp_all add: error_type_defs)

lemma scan_times_complete:
  "row_created_at w \<noteq> None \<Longrightarrow> row_updated_at w \<noteq> None \<Longrightarrow> \<exists>tms. scan_times w = Inr tms"
  by (auto simp: scan_times_def)

lemma stored_names_tick [simp]: "stored_names (s\<lparr>db_tick := n\<rparr>) = stored_names s"
  by (simp add: stored_names_def fun_eq_iff)

lemma stored_names_upd [simp]:
  "stored_names (s\<lparr>db_table := (db_table s)(u \<mapsto> w)\<rparr>) = (stored_names s)(u \<mapsto> names w)"
  by (simp add: stored_names_def fun_eq_iff)

lemma stored_names_del [simp]:
  "stored_names (s\<lparr>db_table := (db_table s)(u := None)\<rparr>) = (stored_names s)(u := None)"
  by (simp add: stored_names_def fun_eq_iff)

lemma well_formed_tick [simp]: "well_formed (s\<lparr>db_tick := n\<rparr>) = well_formed s"
  by (simp add: well_formed_def)

lemma well_formed_del: "well_formed s \<Longrightarrow> well_formed (s\<lparr>db_table := (db_table s)(u := None)\<rparr>)"
  by (simp add: well_formed_def)

lemma well_formed_upd:
  "well_formed s \<Longrightarrow> row_constraint w \<Longrightarrow> row_created_at w \<noteq> None \<Longrightarrow> row_updated_at w \<noteq> None
   \<Longrightarrow> well_formed (s\<lparr>db_table := (db_table s)(u \<mapsto> w)\<rparr>)"
  by (simp add: well_formed_def)

lemma well_formedD:
  "well_formed s \<Longrightarrow> db_table s u = Some w \<Longrightarrow>
     row_constraint w \<and> row_created_at w \<noteq> None \<and> row_updated_at w \<noteq> None"
  by (simp add: well_formed_def)

text \<open>What each method does, one equation per outcome of its statement.\<close>

lemma run_statement_fault:
  "pg_fault pg (db_tick s) stm = Some f \<Longrightarrow>
     run_statement pg stm body s = (Inl (failure_error f), s\<lparr>db_tick := Suc (db_tick s)\<rparr>)"
  by (simp add: run_statement_def)

lemma run_statement_ok:
  "pg_fault pg (db_tick s) stm = None \<Longrightarrow>
     run_statement pg stm body s =
       (fst (body (db_table s)), s\<lparr>db_table := snd (body (db_table s)), db_tick := Suc (db_tick s)\<rparr>)"
  by (simp add: run_statement_def split_beta)

lemma failure_not_no_rows [simp]: "\<not> errors_is (failure_error f) ErrNoRows"
  by (cases f) simp_all

lemma scan_times_Inr: "scan_times w = Inr (c, m) \<longleftrightarrow> row_created_at w = Some c \<and> row_updated_at w = Some m"
  by (auto simp: scan_times_def split: option.split)

lemma scan_times_Some [simp]:
  "row_created_at w = Some c \<Longrightarrow> row_updated_at w = Some m \<Longrightarrow> scan_times w = Inr (c, m)"
  by (simp add: scan_times_Inr)

subsection \<open>GetById\<close>

lemma GetById_state: "GetById pg i s = (res, s') \<Longrightarrow> s' = s\<lparr>db_tick := Suc (db_tick s)\<rparr>"
  by (auto simp: GetById_def run_statement_def sql_get_by_id_def Let_def split: option.splits sum.splits prod.splits)

lemma GetById_Inr:
  assumes "GetById pg i s = (Inr p, s')"
  shows "\<exists>u w. uuid_parse i = Some u \<and> db_table s u = Some w \<and> Id p = uuid_string u
    \<and> (FirstName p, LastName p) = names w"
  using assms
  by (auto simp: GetById_def run_statement_def sql_get_by_id_def Let_def names_def
      split: option.splits sum.splits prod.splits)

text \<open>The outcome of a read, case by case.\<close>

lemma GetById_fault:
  "pg_fault pg (db_tick s) (SelectProfile i) = Some f \<Longrightarrow>
     fst (GetById pg i s) = Inl (repo_classify (Wrapped ''failed to get profile by id'' (failure_error f)))"
  by (simp add: GetById_def run_statement_fault)

lemma GetById_unparsable:
  "pg_fault pg (db_tick s) (SelectProfile i) = None \<Longrightarrow> uuid_parse i = None \<Longrightarrow>
     \<exists>e. fst (GetById pg i s) = Inl e \<and> TypeOf e = ErrInternal"
  by (simp add: GetById_def run_statement_ok sql_get_by_id_def TypeOf_repo_classify pg_error_def)

lemma GetById_missing:
  "pg_fault pg (db_tick s) (SelectProfile i) = None \<Longrightarrow> uuid_parse i = Some u \<Longrightarrow> db_table s u = None \<Longrightarrow>
     \<exists>e. fst (GetById pg i s) = Inl e \<and> TypeOf e = ErrNotFound"
  by (simp add: GetById_def run_statement_ok sql_get_by_id_def TypeOf_repo_classify no_rows_def)

lemma GetById_present:
  assumes "pg_fault pg (db_tick s) (SelectProfile i) = None" "uuid_parse i = Some u" "db_table s u = Some w"
    and "well_formed s"
  shows "\<exists>p. fst (GetById pg i s) = Inr p \<and> (FirstName p, LastName p) = names w \<and> Id p = uuid_string u"
proof -
  from well_formedD [OF assms(4,3)] obtain c m where "row_created_at w = Some c" "row_updated_at w = Some m"
    by auto
  with assms show ?thesis by (simp add: GetById_def run_statement_ok sql_get_by_id_def names_def)
qed

subsection \<open>Create\<close>

lemma Create_Inr:
  assumes "Create pg p s = (Inr q, s')"
  shows "\<exists>u w. Id q = uuid_string u \<and> db_table s u = None \<and> names w = (FirstName p, LastName p)
    \<and> row_constraint w \<and> row_created_at w \<noteq> None \<and> row_updated_at w \<noteq> None
    \<and> s' = s\<lparr>db_table := (db_table s)(u \<mapsto> w), db_tick := Suc (db_tick s)\<rparr>
    \<and> FirstName q = FirstName p \<and> LastName q = LastName p"
proof -
  let ?u = "pg_gen_uuid pg (db_tick s)" and ?now = "pg_now pg (db_tick s)"
  let ?w = "\<lparr>row_first_name = FirstName p, row_last_name = LastName p,
             row_created_at = Some ?now, row_updated_at = Some ?now\<rparr>"
  have "row_constraint ?w \<and> db_table s ?u = None
      \<and> s' = s\<lparr>db_table := (db_table s)(?u \<mapsto> ?w), db_tick := Suc (db_tick s)\<rparr>
      \<and> q = p\<lparr>Id := uuid_string ?u, CreatedAt := ?now, UpdatedAt := ?now\<rparr>"
    using assms
    by (auto simp: Create_def run_statement_def sql_insert_def Let_def
        split: option.splits sum.splits prod.splits if_splits)
  then show ?thesis by (intro exI [of _ ?u] exI [of _ ?w]) (simp add: names_def)
qed

lemma Create_Inl:
  assumes "Create pg p s = (Inl e, s')"
  shows "s' = s\<lparr>db_tick := Suc (db_tick s)\<rparr>"
  using assms
  by (auto simp: Create_def run_statement_def sql_insert_def Let_def
      split: option.splits sum.splits prod.splits if_splits)

subsection \<open>Update\<close>

lemma Update_Inr:
  assumes "Update pg p s = (Inr q, s')"
  shows "\<exists>u old w. uuid_parse (Id p) = Some u \<and> Id q = uuid_string u \<and> db_table s u = Some old
    \<and> names w = (FirstName p, LastName p) \<and> row_constraint w \<and> row_created_at w = row_created_at old
    \<and> row_created_at w \<noteq> None \<and> row_updated_at w \<noteq> None
    \<and> s' = s\<lparr>db_table := (db_table s)(u \<mapsto> w), db_tick := Suc (db_tick s)\<rparr>
    \<and> FirstName q = FirstName p \<and> LastName q = LastName p"
proof -
  let ?now = "pg_now pg (db_tick s)"
  from assms obtain u old where u: "uuid_parse (Id p) = Some u" "db_table s u = Some old"
    by (auto simp: Update_def run_statement_def sql_update_def Let_def
        split: option.splits sum.splits prod.splits)
  let ?w = "old\<lparr>row_first_name := FirstName p, row_last_name := LastName p, row_updated_at := Some ?now\<rparr>"
  from assms u have "\<exists>c. row_constraint ?w \<and> row_created_at old = Some c
      \<and> s' = s\<lparr>db_table := (db_table s)(u \<mapsto> ?w), db_tick := Suc (db_tick s)\<rparr>
      \<and> q = p\<lparr>Id := uuid_string u, CreatedAt := c, UpdatedAt := ?now\<rparr>"
    by (auto simp: Update_def run_statement_def sql_update_def Let_def scan_times_def
        split: option.splits sum.splits prod.splits if_splits)
  with u show ?thesis
    by (intro exI [of _ u] exI [of _ old] exI [of _ ?w]) (auto simp: names_def)
qed

lemma Update_Inl:
  assumes "Update pg p s = (Inl e, s')" and "well_formed s"
  shows "s' = s\<lparr>db_tick := Suc (db_tick s)\<rparr>"
  using assms
  by (auto simp: Update_def run_statement_def sql_update_def Let_def scan_times_def
      split: option.splits sum.splits prod.splits if_splits dest: well_formedD)

subsection \<open>DeleteById\<close>

lemma Delete_None:
  assumes "DeleteById pg i s = (None, s')"
  shows "\<exists>u w. uuid_parse i = Some u \<and> db_table s u = Some w
    \<and> s' = s\<lparr>db_table := (db_table s)(u := None), db_tick := Suc (db_tick s)\<rparr>"
  using assms
  by (fastforce simp: DeleteById_def run_statement_def sql_delete_by_id_def Let_def
      split: option.splits sum.splits prod.splits if_splits)

lemma Delete_Some:
  assumes "DeleteById pg i s = (Some e, s')"
  shows "s' = s\<lparr>db_tick := Suc (db_tick s)\<rparr>"
  using assms
  by (auto simp: DeleteById_def run_statement_def sql_delete_by_id_def Let_def
      split: option.splits sum.splits prod.splits if_splits)

lemma Delete_missing:
  "pg_fault pg (db_tick s) (DeleteProfile i) = None \<Longrightarrow> uuid_parse i = Some u \<Longrightarrow> db_table s u = None \<Longrightarrow>
     \<exists>e. fst (DeleteById pg i s) = Some e \<and> TypeOf e = ErrNotFound"
  by (simp add: DeleteById_def run_statement_ok sql_delete_by_id_def notFound_def)

section \<open>The repository keeps the contract\<close>

lemmas NewProfileRepository_simps [simp] =
  arg_cong [OF NewProfileRepository_def, of repo_GetById, simplified]
  arg_cong [OF NewProfileRepository_def, of repo_Create, simplified]
  arg_cong [OF NewProfileRepository_def, of repo_Update, simplified]
  arg_cong [OF NewProfileRepository_def, of repo_DeleteById, simplified]

lemma GetById_absent:
  assumes "GetById pg i s = (Inl e, s')" and "TypeOf e = ErrNotFound" and "uuid_parse i = Some u"
  shows "stored_names s u = None"
  using assms
  by (auto simp: stored_names_def GetById_def run_statement_def sql_get_by_id_def Let_def
      TypeOf_repo_classify scan_times_def split: option.splits sum.splits prod.splits if_splits)

lemma Create_stores:
  assumes "Create pg p s = (Inr q, s')"
  shows "\<exists>u. uuid_parse (Id q) = Some u \<and> stored_names s u = None
    \<and> stored_names s' = (stored_names s)(u \<mapsto> (FirstName p, LastName p))
    \<and> FirstName q = FirstName p \<and> LastName q = LastName p"
proof -
  obtain u w where "Id q = uuid_string u" "db_table s u = None" "names w = (FirstName p, LastName p)"
      "s' = s\<lparr>db_table := (db_table s)(u \<mapsto> w), db_tick := Suc (db_tick s)\<rparr>"
      "FirstName q = FirstName p" "LastName q = LastName p"
    using Create_Inr [OF assms] by auto
  then show ?thesis by (intro exI [of _ u]) (simp add: uuid_parse_string stored_names_def [of s])
qed

lemma Update_stores:
  assumes "Update pg p s = (Inr q, s')"
  shows "\<exists>u. uuid_parse (Id p) = Some u \<and> uuid_parse (Id q) = Some u \<and> stored_names s u \<noteq> None
    \<and> stored_names s' = (stored_names s)(u \<mapsto> (FirstName p, LastName p))
    \<and> FirstName q = FirstName p \<and> LastName q = LastName p"
proof -
  obtain u old w where "uuid_parse (Id p) = Some u" "Id q = uuid_string u" "db_table s u = Some old"
      "names w = (FirstName p, LastName p)"
      "s' = s\<lparr>db_table := (db_table s)(u \<mapsto> w), db_tick := Suc (db_tick s)\<rparr>"
      "FirstName q = FirstName p" "LastName q = LastName p"
    using Update_Inr [OF assms] by auto
  then show ?thesis by (intro exI [of _ u]) (simp add: uuid_parse_string stored_names_def [of s])
qed

lemma Delete_removes:
  assumes "DeleteById pg i s = (None, s')"
  shows "\<exists>u. uuid_parse i = Some u \<and> stored_names s u \<noteq> None \<and> stored_names s' = (stored_names s)(u := None)"
proof -
  obtain u w where "uuid_parse i = Some u" "db_table s u = Some w"
      "s' = s\<lparr>db_table := (db_table s)(u := None), db_tick := Suc (db_tick s)\<rparr>"
    using Delete_None [OF assms] by auto
  then show ?thesis by (intro exI [of _ u]) (simp add: stored_names_def [of s])
qed

lemma Update_well_formed:
  assumes "well_formed s" and "Update pg p s = (res, s')"
  shows "well_formed s'"
proof (cases res)
  case (Inr q)
  with assms(2) obtain u w where "row_constraint w" "row_created_at w \<noteq> None" "row_updated_at w \<noteq> None"
      "s' = s\<lparr>db_table := (db_table s)(u \<mapsto> w), db_tick := Suc (db_tick s)\<rparr>"
    using Update_Inr [of pg p s q s'] by auto
  with assms(1) show ?thesis using well_formed_upd [of s w u] by simp
qed (use assms in \<open>auto dest!: Update_Inl\<close>)

interpretation profiles: profile_store "NewProfileRepository pg" uuid_parse stored_names well_formed for pg
proof (unfold_locales, goal_cases)
  case (1 s i p s')
  then show ?case by (auto dest!: GetById_Inr simp: stored_names_def uuid_parse_string)
next
  case (3 i s e s' k)
  then show ?case by (auto intro: GetById_absent)
next
  case (4 p s q s')
  then show ?case by (auto dest: Create_stores)
next
  case (6 p s q s')
  then show ?case by (auto dest: Update_stores)
next
  case (8 i s s')
  then show ?case by (auto dest: Delete_removes)
next
  case (11 s p res s')
  then show ?case by (cases res) (auto dest!: Create_Inl Create_Inr intro!: well_formed_upd)
next
  case (12 s p res s')
  then show ?case by (auto intro: Update_well_formed)
next
  case (13 s i err s')
  then show ?case by (cases err) (auto dest!: Delete_None Delete_Some intro: well_formed_del)
qed (auto dest!: GetById_state Create_Inl Update_Inl Delete_Some)

text \<open>The states a process can bring the table to, starting from the migrated, empty one.\<close>

definition empty_db :: db where
  "empty_db = \<lparr>db_table = Map.empty, db_tick = 0\<rparr>"

inductive repo_step :: "pg_env \<Rightarrow> db \<Rightarrow> db \<Rightarrow> bool" for pg where
  step_get: "GetById pg i s = (res, s') \<Longrightarrow> repo_step pg s s'"
| step_create: "Create pg p s = (res, s') \<Longrightarrow> repo_step pg s s'"
| step_update: "Update pg p s = (res, s') \<Longrightarrow> repo_step pg s s'"
| step_delete: "DeleteById pg i s = (err, s') \<Longrightarrow> repo_step pg s s'"

inductive db_reachable :: "pg_env \<Rightarrow> db \<Rightarrow> bool" for pg where
  reach_empty: "db_reachable pg empty_db"
| reach_step: "db_reachable pg s \<Longrightarrow> repo_step pg s s' \<Longrightarrow> db_reachable pg s'"

lemmas repository_keeps_well_formed =
  profiles.inv_get [simplified] profiles.inv_create [simplified]
  profiles.inv_update [simplified] profiles.inv_delete [simplified]

lemma repo_step_well_formed: "repo_step pg s s' \<Longrightarrow> well_formed s \<Longrightarrow> well_formed s'"
  by (induction rule: repo_step.induct) (blast intro: repository_keeps_well_formed)+

lemma db_reachable_well_formed: "db_reachable pg s \<Longrightarrow> well_formed s"
proof (induction rule: db_reachable.induct)
  case reach_empty
  show ?case by (simp add: empty_db_def well_formed_def)
next
  case (reach_step s s')
  then show ?case by (blast intro: repo_step_well_formed)
qed

text \<open>The outcome of a read through the service, decided by the statement and the row.\<close>

lemma svc_GetById_outcome:
  assumes "db_reachable pg s"
  shows "(case svc_GetById (NewProfileRepository pg) ctx \<lparr>get_Id = i\<rparr> s of
      (Inl e, _) \<Rightarrow> Inl (TypeOf e)
    | (Inr p, _) \<Rightarrow> Inr (res_Id p, res_FirstName p, res_LastName p)) =
    (case pg_fault pg (db_tick s) (SelectProfile i) of
       Some (FailOther msg net) \<Rightarrow> Inl ErrInternal
     | Some _ \<Rightarrow> Inl ErrUnavailable
     | None \<Rightarrow>
         (case uuid_parse i of
            None \<Rightarrow> Inl ErrInternal
          | Some u \<Rightarrow>
              (case db_table s u of
                 None \<Rightarrow> Inl ErrNotFound
               | Some w \<Rightarrow> Inr (uuid_string u, row_first_name w, row_last_name w))))"
proof -
  have wf: "well_formed s" using assms by (rule db_reachable_well_formed)
  show ?thesis
  proof (cases "pg_fault pg (db_tick s) (SelectProfile i)")
    case (Some f)
    then show ?thesis
      by (cases f) (simp_all add: svc_GetById_def GetById_def run_statement_fault TypeOf_repo_classify)
  next
    case None
    then show ?thesis
      using wf by (auto simp: svc_GetById_def GetById_def run_statement_ok sql_get_by_id_def TypeOf_repo_classify
        pg_error_def no_rows_def scan_times_def fromModel_def split: option.split dest: well_formedD)
  qed
qed

text \<open>The other use cases, when the driver reports no failure of its own.\<close>

lemma svc_Create_ok:
  assumes "pg_fault pg (db_tick s) (InsertProfile (create_FirstName q) (create_LastName q)) = None"
    and "name_constraint (create_FirstName q)" "name_constraint (create_LastName q)"
    and "db_table s (pg_gen_uuid pg (db_tick s)) = None"
  shows "is_ok (fst (svc_Create (NewProfileRepository pg) ctx q s))"
  using assms
  by (simp add: svc_Create_def Create_def run_statement_ok sql_insert_def builder_defs row_constraint_def Let_def)

lemma svc_Update_outcome:
  assumes "well_formed s"
    and "pg_fault pg (db_tick s) (UpdateProfile (update_FirstName q) (update_LastName q) (update_Id q)) = None"
    and "name_constraint (update_FirstName q)" "name_constraint (update_LastName q)"
    and "uuid_parse (update_Id q) = Some u"
  shows "(case fst (svc_Update (NewProfileRepository pg) ctx q s) of
      Inl e \<Rightarrow> TypeOf e = ErrNotFound \<and> db_table s u = None | Inr res \<Rightarrow> db_table s u \<noteq> None)"
proof (cases "db_table s u")
  case None
  with assms show ?thesis
    by (simp add: svc_Update_def Update_def run_statement_ok sql_update_def builder_defs TypeOf_repo_classify
        no_rows_def Let_def)
next
  case (Some w)
  with assms obtain c where "row_created_at w = Some c" by (auto dest: well_formedD)
  with assms Some show ?thesis
    by (simp add: svc_Update_def Update_def run_statement_ok sql_update_def builder_defs row_constraint_def
        scan_times_def Let_def)
qed

lemma svc_DeleteById_outcome:
  assumes "pg_fault pg (db_tick s) (DeleteProfile i) = None" and "uuid_parse i = Some u"
  shows "(case fst (svc_DeleteById (NewProfileRepository pg) ctx \<lparr>delete_Id = i\<rparr> s) of
      Inl e \<Rightarrow> TypeOf e = ErrNotFound \<and> db_table s u = None | Inr res \<Rightarrow> db_table s u \<noteq> None)"
  using assms
  by (cases "db_table s u")
     (simp_all add: svc_DeleteById_def DeleteById_def run_statement_ok sql_delete_by_id_def notFound_def Let_def)

section \<open>Properties\<close>

text \<open>
  Whatever sequence of repository calls runs against the migrated table, and however its
  statements fail, every stored row satisfies the table's constraints and carries both
  timestamps, so no later read can fail on scanning one.
\<close>

lemma profiles_table_invariant:
  assumes "db_reachable pg s" and "db_table s u = Some w"
  shows "row_constraint w \<and> (\<exists>tms. scan_times w = Inr tms)"
  using well_formedD [OF db_reachable_well_formed [OF assms(1)] assms(2)] scan_times_complete by blast

definition sample_pg :: pg_env where
  "sample_pg = \<lparr>pg_gen_uuid = of_nat, pg_now = int, pg_fault = (\<lambda>_ _. None)\<rparr>"

definition sample_row :: row where
  "sample_row = \<lparr>row_first_name = ''Ada'', row_last_name = ''Byron'', row_created_at = Some 0, row_updated_at = Some 0\<rparr>"

definition sample_db :: db where
  "sample_db = \<lparr>db_table = [0 \<mapsto> sample_row], db_tick = 1\<rparr>"

definition sample_profile :: Profile where
  "sample_profile = WithLastName ''Byron'' (WithFirstName ''Ada'' Profile_New)"

lemma sample_constraint: "row_constraint sample_row"
  by (simp add: row_constraint_def name_constraint_def sample_row_def)
     (use length_runes_le [of "''Ada''"] length_runes_le [of "''Byron''"] in simp)

lemma sample_create: "Create sample_pg sample_profile empty_db =
    (Inr (sample_profile\<lparr>Id := uuid_string 0, CreatedAt := 0, UpdatedAt := 0\<rparr>), sample_db)"
  using sample_constraint
  by (simp add: Create_def run_statement_def sql_insert_def sample_pg_def empty_db_def sample_db_def
      sample_profile_def builder_defs sample_row_def Let_def)

lemma sample_db_reachable: "db_reachable sample_pg sample_db"
  by (rule reach_step [OF reach_empty step_create [OF sample_create]])

text \<open>
  C14: a write is what the next read finds.  Reading the identifier a create returned, or the one
  an update was given, yields the names written or a failure that is not \<open>NotFound\<close>; reading
  one just deleted never succeeds.
\<close>

theorem writes_then_reads:
  assumes "db_reachable pg s"
  shows "(case svc_Create (NewProfileRepository pg) ctx creq s of
      (Inl e, _) \<Rightarrow> True
    | (Inr res, s1, _) \<Rightarrow>
        (case svc_GetById (NewProfileRepository pg) ctx' \<lparr>get_Id = res_Id res\<rparr> s1 of
           (Inl e, _) \<Rightarrow> TypeOf e \<noteq> ErrNotFound
         | (Inr p, _) \<Rightarrow> res_FirstName p = create_FirstName creq \<and> res_LastName p = create_LastName creq))
    \<and> (case svc_Update (NewProfileRepository pg) ctx ureq s of
      (Inl e, _) \<Rightarrow> True
    | (Inr res, s1, _) \<Rightarrow>
        (case svc_GetById (NewProfileRepository pg) ctx' \<lparr>get_Id = update_Id ureq\<rparr> s1 of
           (Inl e, _) \<Rightarrow> TypeOf e \<noteq> ErrNotFound
         | (Inr p, _) \<Rightarrow> res_FirstName p = update_FirstName ureq \<and> res_LastName p = update_LastName ureq))
    \<and> (case svc_DeleteById (NewProfileRepository pg) ctx dreq s of
      (Inl e, _) \<Rightarrow> True
    | (Inr res, s1, _) \<Rightarrow>
        (case svc_GetById (NewProfileRepository pg) ctx' \<lparr>get_Id = delete_Id dreq\<rparr> s1 of (got, _) \<Rightarrow> \<not> is_ok got))"
proof -
  have wf: "well_formed s" using assms by (rule db_reachable_well_formed)
  note reads = profiles.read_your_create [OF wf] profiles.read_your_update [OF wf] profiles.no_read_after_delete [OF wf]
  show ?thesis
    by (intro conjI; clarsimp split: prod.split sum.split) (fastforce dest: reads)+
qed

theorem writes_then_reads_witness:
  "(case svc_Create (NewProfileRepository sample_pg) (None, None) \<lparr>create_FirstName = ''Ada'', create_LastName = ''Byron''\<rparr> empty_db of
      (Inl e, _) \<Rightarrow> False
    | (Inr res, s1, _) \<Rightarrow>
        (case svc_GetById (NewProfileRepository sample_pg) (None, None) \<lparr>get_Id = res_Id res\<rparr> s1 of
           (Inl e, _) \<Rightarrow> TypeOf e \<noteq> ErrNotFound
         | (Inr p, _) \<Rightarrow> res_FirstName p = ''Ada'' \<and> res_LastName p = ''Byron''))"
proof -
  have "fst (svc_Create (NewProfileRepository sample_pg) (None, None)
      \<lparr>create_FirstName = ''Ada'', create_LastName = ''Byron''\<rparr> empty_db) = Inr (fromModel
        (sample_profile\<lparr>Id := uuid_string 0, CreatedAt := 0, UpdatedAt := 0\<rparr>))"
    using sample_create by (simp add: svc_Create_def sample_profile_def [symmetric])
  then show ?thesis
    using writes_then_reads [OF reach_empty [of sample_pg], where ctx = "(None, None)" and ctx' = "(None, None)"
      and creq = "\<lparr>create_FirstName = ''Ada'', create_LastName = ''Byron''\<rparr>"]
    by (auto split: prod.splits sum.splits)
qed

end
