(* ===== verification/Health.thy ===== *)
theory Health
  imports Database
begin

text \<open>
  \<open>internal/health\<close> and \<open>database/repositories/health_repository.go\<close>: liveness, which
  touches nothing, and readiness, decided by the statistics the database service reports.  The
  locale \<open>health_source\<close> is all readiness needs of them; \<open>Health\<close> of the database
  satisfies it.
\<close>

section \<open>The service\<close>

definition statusUp :: gostring where
  "statusUp = ''up''"

record HealthResponse =
  hr_Status :: gostring

text \<open>Indexing a Go map: the zero value when the key is absent.\<close>

definition go_index :: "(gostring \<rightharpoonup> gostring) \<Rightarrow> gostring \<Rightarrow> gostring" where
  "go_index m k = (case m k of Some v \<Rightarrow> v | None \<Rightarrow> [])"

definition Live :: "gerror + HealthResponse" where
  "Live = Inr \<lparr>hr_Status = statusUp\<rparr>"

definition Check :: "ctx_ids \<Rightarrow> (gostring \<rightharpoonup> gostring) \<Rightarrow> (gerror + HealthResponse) \<times> log_record list" where
  "Check ctx stats =
     (if go_index stats ''status'' \<noteq> statusUp
      then (Inl (NewError (ErrNew ''dependency unavailable'') ErrUnavailable),
            [log_at ctx LevelError ''readiness check failed'' [(''stats'', AMap stats)]])
      else (Inr \<lparr>hr_Status = statusUp\<rparr>,
            [log_at ctx LevelDebug ''readiness check passed'' [(''stats'', AMap stats)]]))"

text \<open>The repository passes the database's report on.\<close>

definition HealthRepository_Health ::
  "(duration \<Rightarrow> gostring) \<Rightarrow> gerror option \<times> pool_stat \<Rightarrow> (gostring \<rightharpoonup> gostring)" where
  "HealthRepository_Health dur_string ps = database_Health dur_string ps"

section \<open>The contract of a source of health\<close>

locale health_source =
  fixes health :: "'e \<Rightarrow> (gostring \<rightharpoonup> gostring)"
    and reachable :: "'e \<Rightarrow> bool"
  assumes status_up: "health e ''status'' = Some ''up'' \<longleftrightarrow> reachable e"
begin

lemma ready: "is_ok (fst (Check ctx (health e))) \<longleftrightarrow> reachable e"
  using status_up [of e] by (auto simp: Check_def go_index_def statusUp_def split: option.splits)

lemma not_ready: "\<not> reachable e \<Longrightarrow>
    fst (Check ctx (health e)) = Inl (NewError (ErrNew ''dependency unavailable'') ErrUnavailable)"
  using status_up [of e] by (auto simp: Check_def go_index_def statusUp_def split: option.splits)

end

interpretation db_health: health_source "HealthRepository_Health dur_string" "\<lambda>ps. fst ps = None" for dur_string
  by unfold_locales (simp add: HealthRepository_Health_def health_status)

section \<open>Properties\<close>

text \<open>
  The service is ready exactly when the database answered its ping.  Otherwise it reports
  unavailability with a fixed text, and the failure's own detail is in the log record only.
\<close>

lemma readiness_is_ping:
  "(case Check ctx (HealthRepository_Health dur_string (ping, stats)) of (res, logs) \<Rightarrow>
      is_ok res = (ping = None)
      \<and> res = (case ping of None \<Rightarrow> Inr \<lparr>hr_Status = ''up''\<rparr>
               | Some err \<Rightarrow> Inl (NewError (ErrNew ''dependency unavailable'') ErrUnavailable))
      \<and> map lr_level logs = [if ping = None then LevelDebug else LevelError])"
proof (cases ping)
  case None
  then have "go_index (HealthRepository_Health dur_string (ping, stats)) ''status'' = ''up''"
    by (simp add: HealthRepository_Health_def health_status go_index_def)
  with None show ?thesis by (simp add: Check_def statusUp_def log_at_def)
next
  case (Some err)
  then have "go_index (HealthRepository_Health dur_string (ping, stats)) ''status'' = ''down''"
    by (simp add: HealthRepository_Health_def health_status go_index_def)
  with Some show ?thesis by (simp add: Check_def statusUp_def log_at_def)
qed

end
