(* ===== verification/Http.thy ===== *)
theory Http
  imports Telemetry Authx
begin

text \<open>
  The request, the response writer and the state a handler runs in, and the middlewares of
  \<open>api/\<close> that observe a request: \<open>correlation.go\<close>, \<open>accesslog.go\<close>,
  \<open>recoverer.go\<close>, \<open>tracing.go\<close> and the recording part of \<open>metrics.go\<close>.

  A handler takes a request and a state and either returns or panics, with the state it left.
  A middleware is a function from handlers to handlers, so a theorem about one quantifies over
  everything that may run inside it.  What chi's writer wrapper, the UUID generator, the JSON
  encoder and the tracing SDK answer is the environment's.  The locale \<open>observer\<close> is the
  contract of a middleware that only watches.
\<close>

section \<open>Requests\<close>

record req_context = auth_context +
  cx_request_id :: "gostring option"
  cx_correlation_id :: "gostring option"
  cx_span :: span_context
  cx_client_ip :: gostring
  cx_deadline :: "int option"

record request =
  rq_method :: gostring
  rq_path :: gostring
  rq_header :: "gostring \<Rightarrow> gostring list"
  rq_remote_addr :: gostring
  rq_body :: gostring
  rq_body_limit :: "int option"
  rq_ctx :: req_context

text \<open>\<open>Header.Get\<close>: the first value, or the empty string.\<close>

definition header_get :: "request \<Rightarrow> gostring \<Rightarrow> gostring" where
  "header_get r k = (case rq_header r k of [] \<Rightarrow> [] | v # _ \<Rightarrow> v)"

definition ids_of :: "req_context \<Rightarrow> ctx_ids" where
  "ids_of ctx = (cx_request_id ctx, cx_correlation_id ctx)"

section \<open>The response writer\<close>

text \<open>
  \<open>net/http\<close>'s writer: the header map, the status once written (0 before), the headers as
  they stood at that moment, and the body.  \<open>wr_broken\<close> is the error of a lost connection.
\<close>

record writer =
  wr_header :: "gostring \<rightharpoonup> gostring"
  wr_code :: int
  wr_sent :: "gostring \<rightharpoonup> gostring"
  wr_body :: gostring
  wr_broken :: "gerror option"

definition Header_Set :: "gostring \<Rightarrow> gostring \<Rightarrow> writer \<Rightarrow> writer" where
  "Header_Set k v w = w\<lparr>wr_header := (wr_header w)(k \<mapsto> v)\<rparr>"

definition Header_Del :: "gostring \<Rightarrow> writer \<Rightarrow> writer" where
  "Header_Del k w = w\<lparr>wr_header := (wr_header w)(k := None)\<rparr>"

text \<open>The first final status wins; an informational one does not commit the response.\<close>

definition WriteHeader :: "int \<Rightarrow> writer \<Rightarrow> writer" where
  "WriteHeader c w =
     (if wr_code w \<noteq> 0 then w
      else if 100 \<le> c \<and> c < 200 \<and> c \<noteq> 101 then w
      else w\<lparr>wr_code := c, wr_sent := wr_header w\<rparr>)"

definition Write :: "gostring \<Rightarrow> writer \<Rightarrow> gerror option \<times> writer" where
  "Write bs w =
     (let w' = (if wr_code w = 0 then WriteHeader 200 w else w) in
      case wr_broken w' of
        Some err \<Rightarrow> (Some err, w')
      | None \<Rightarrow> (None, w'\<lparr>wr_body := wr_body w' @ bs\<rparr>))"

text \<open>\<open>http.Error\<close>.\<close>

definition http_Error :: "gostring \<Rightarrow> int \<Rightarrow> writer \<Rightarrow> writer" where
  "http_Error msg c w =
     snd (Write (msg @ [CHR 0x0A])
       (WriteHeader c
         (Header_Set ''X-Content-Type-Options'' ''nosniff''
           (Header_Set ''Content-Type'' ''text/plain; charset=utf-8''
             (Header_Del ''Content-Length'' w)))))"

text \<open>\<open>http.StatusText\<close> on the statuses of server faults.\<close>

definition StatusText :: "int \<Rightarrow> gostring" where
  "StatusText c =
     (if c = 500 then ''Internal Server Error''
      else if c = 501 then ''Not Implemented''
      else if c = 502 then ''Bad Gateway''
      else if c = 503 then ''Service Unavailable''
      else if c = 504 then ''Gateway Timeout''
      else if c = 505 then ''HTTP Version Not Supported''
      else if c = 506 then ''Variant Also Negotiates''
      else if c = 507 then ''Insufficient Storage''
      else if c = 508 then ''Loop Detected''
      else if c = 510 then ''Not Extended''
      else if c = 511 then ''Network Authentication Required''
      else [])"

section \<open>Handlers\<close>

datatype panic_value = PanicError gerror | PanicOther gostring

datatype completion = Returned | Panicked panic_value

text \<open>The labels of the HTTP collectors, and one observation of the latency histogram.\<close>

record request_labels =
  lb_method :: gostring
  lb_route :: gostring
  lb_status :: gostring

record observation =
  ob_labels :: request_labels
  ob_elapsed :: duration
  ob_exemplar :: "gostring option"

text \<open>
  The state a handler runs in.  \<open>st_route\<close> is chi's mutable routing context, absent when
  none was installed; \<open>st_uuids\<close> counts the ids generated; \<open>st_app\<close> is whatever the
  handlers act on.
\<close>

record 's http =
  st_writer :: writer
  st_now :: int
  st_uuids :: nat
  st_route :: "gostring option"
  st_logs :: "log_record list"
  st_counts :: "request_labels list"
  st_observed :: "observation list"
  st_spans :: "span list"
  st_app :: 's

type_synonym 's handler = "request \<Rightarrow> 's http \<Rightarrow> completion \<times> 's http"
type_synonym 's middleware = "'s handler \<Rightarrow> 's handler"

record http_env =
  he_NewV7 :: "nat \<Rightarrow> gostring"
  he_Status :: "writer \<Rightarrow> int"
  he_BytesWritten :: "writer \<Rightarrow> int"
  he_marshal_500 :: "gerror + gostring"
  he_stack :: "panic_value \<Rightarrow> gostring"
  he_extract :: "(gostring \<Rightarrow> gostring list) \<Rightarrow> span_context \<Rightarrow> span_context"
  he_start :: "gostring \<Rightarrow> span_context \<Rightarrow> span_context"
  he_exemplars :: bool

definition update_writer :: "(writer \<Rightarrow> writer) \<Rightarrow> 's http \<Rightarrow> 's http" where
  "update_writer f s = s\<lparr>st_writer := f (st_writer s)\<rparr>"

definition add_log :: "log_record \<Rightarrow> 's http \<Rightarrow> 's http" where
  "add_log l s = s\<lparr>st_logs := st_logs s @ [l]\<rparr>"

definition routeUnmatched :: gostring where
  "routeUnmatched = ''unmatched''"

definition routePattern :: "'s http \<Rightarrow> gostring" where
  "routePattern s =
     (case st_route s of
        None \<Rightarrow> routeUnmatched
      | Some pattern \<Rightarrow> if pattern \<noteq> [] then pattern else routeUnmatched)"

definition statusImplicitOK :: int where
  "statusImplicitOK = 200"

text \<open>What a wrapped writer reports, as \<open>accesslog.go\<close> and \<open>tracing.go\<close> read it.\<close>

definition reported_status :: "http_env \<Rightarrow> 's http \<Rightarrow> int" where
  "reported_status env s =
     (let status = he_Status env (st_writer s) in if status = 0 then statusImplicitOK else status)"

section \<open>Correlation\<close>

definition requestIdHeader :: gostring where "requestIdHeader = ''X-Request-Id''"
definition correlationIdHeader :: gostring where "correlationIdHeader = ''X-Correlation-Id''"
definition maxIdLength :: nat where "maxIdLength = 128"

definition safe_rune :: "nat \<Rightarrow> bool" where
  "safe_rune c \<longleftrightarrow>
     (97 \<le> c \<and> c \<le> 122) \<or> (65 \<le> c \<and> c \<le> 90) \<or> (48 \<le> c \<and> c \<le> 57) \<or> c = 45 \<or> c = 95 \<or> c = 46"

fun safe_loop :: "nat list \<Rightarrow> bool" where
  "safe_loop [] = True"
| "safe_loop (c # cs) = (if safe_rune c then safe_loop cs else False)"

definition safeId :: "gostring \<Rightarrow> gostring" where
  "safeId v =
     (if v = [] \<or> length v > maxIdLength then []
      else if safe_loop (runes v) then v else [])"

definition correlation :: "http_env \<Rightarrow> 's middleware" where
  "correlation env next r s =
     (let requestId = he_NewV7 env (st_uuids s);
          s = s\<lparr>st_uuids := Suc (st_uuids s)\<rparr>;
          inbound = safeId (header_get r correlationIdHeader);
          correlationId = (if inbound = [] then requestId else inbound);
          ctx = (rq_ctx r)\<lparr>cx_request_id := Some requestId, cx_correlation_id := Some correlationId\<rparr>;
          s = update_writer (Header_Set requestIdHeader requestId) s;
          s = update_writer (Header_Set correlationIdHeader correlationId) s
      in next (r\<lparr>rq_ctx := ctx\<rparr>) s)"

section \<open>The access log\<close>

definition metricsPath :: "HTTPConfig \<Rightarrow> gostring" where
  "metricsPath cfg = (if met_Path (http_Metrics cfg) = [] then ''/metrics'' else met_Path (http_Metrics cfg))"

definition levelForStatus :: "int \<Rightarrow> log_level" where
  "levelForStatus status =
     (if status \<ge> 500 then LevelError else if status \<ge> 400 then LevelWarn else LevelInfo)"

definition access_record :: "http_env \<Rightarrow> request \<Rightarrow> int \<Rightarrow> 's http \<Rightarrow> log_record" where
  "access_record env r start s =
     log_at (ids_of (rq_ctx r)) (levelForStatus (reported_status env s)) ''http request''
       [(''method'', AString (rq_method r)),
        (''route'', AString (routePattern s)),
        (''path'', AString (rq_path r)),
        (''status'', AInt (reported_status env s)),
        (''bytes'', AInt (he_BytesWritten env (st_writer s))),
        (''duration_ms'', AMillis (Fract (st_now s - start) millisecond)),
        (''remote_addr'', AString (rq_remote_addr r)),
        (''user_agent'', AString (header_get r ''User-Agent''))]"

definition accessLogger :: "http_env \<Rightarrow> HTTPConfig \<Rightarrow> 's middleware" where
  "accessLogger env cfg next r s =
     (if rq_path r = metricsPath cfg then next r s
      else
        (case next r s of
           (Panicked p, s1) \<Rightarrow> (Panicked p, s1)
         | (Returned, s1) \<Rightarrow> (Returned, add_log (access_record env r (st_now s) s1) s1)))"

section \<open>Recovery\<close>

definition problemContentType :: gostring where
  "problemContentType = ''application/problem+json''"

definition writeInternalError :: "http_env \<Rightarrow> req_context \<Rightarrow> 's http \<Rightarrow> 's http" where
  "writeInternalError env ctx s =
     (case he_marshal_500 env of
        Inl err \<Rightarrow>
          update_writer (http_Error (StatusText 500) 500)
            (add_log (log_at (ids_of ctx) LevelError ''failed to encode error response'' [(''error'', AError err)]) s)
      | Inr body \<Rightarrow>
          (let w = WriteHeader 500 (Header_Set ''Content-Type'' problemContentType (st_writer s)) in
           case Write body w of
             (Some err, w') \<Rightarrow>
               add_log (log_at (ids_of ctx) LevelError ''failed to write error response'' [(''error'', AError err)])
                 (s\<lparr>st_writer := w'\<rparr>)
           | (None, w') \<Rightarrow> s\<lparr>st_writer := w'\<rparr>))"

definition deliberate_abort :: "panic_value \<Rightarrow> bool" where
  "deliberate_abort rvr =
     (case rvr of PanicError err \<Rightarrow> errors_is err ErrAbortHandler | PanicOther _ \<Rightarrow> False)"

definition panic_text :: "panic_value \<Rightarrow> gostring" where
  "panic_text rvr = (case rvr of PanicError err \<Rightarrow> error_text err | PanicOther txt \<Rightarrow> txt)"

definition panic_record :: "http_env \<Rightarrow> req_context \<Rightarrow> request \<Rightarrow> panic_value \<Rightarrow> 's http \<Rightarrow> log_record" where
  "panic_record env ctx r rvr s =
     log_at (ids_of ctx) LevelError ''panic recovered''
       [(''panic'', AString (panic_text rvr)),
        (''stack'', AString (he_stack env rvr)),
        (''method'', AString (rq_method r)),
        (''route'', AString (routePattern s)),
        (''path'', AString (rq_path r))]"

definition reportPanic :: "http_env \<Rightarrow> req_context \<Rightarrow> request \<Rightarrow> panic_value \<Rightarrow> 's http \<Rightarrow> completion \<times> 's http" where
  "reportPanic env ctx r rvr s =
     (if deliberate_abort rvr then (Panicked rvr, s)
      else (Returned, writeInternalError env ctx (add_log (panic_record env ctx r rvr s) s)))"

definition recoverer :: "http_env \<Rightarrow> 's middleware" where
  "recoverer env next r s =
     (case next r s of
        (Panicked rvr, s1) \<Rightarrow> reportPanic env (rq_ctx r) r rvr s1
      | (Returned, s1) \<Rightarrow> (Returned, s1))"

section \<open>Tracing\<close>

definition server_span :: "http_env \<Rightarrow> request \<Rightarrow> 's http \<Rightarrow> span \<Rightarrow> span" where
  "server_span env r s sp =
     (let status = reported_status env s;
          route = routePattern s;
          sp = SetName (rq_method r @ '' '' @ route) sp;
          sp = SetAttributes
                 [(''http.request.method'', AString (rq_method r)),
                  (''http.route'', AString route),
                  (''http.response.status_code'', AInt status),
                  (''url.path'', AString (rq_path r))] sp
      in if status \<ge> 500 then SetStatus (StatusError (StatusText status)) sp else sp)"

text \<open>The span is ended by a \<open>defer\<close>, on a panic too.\<close>

definition end_span :: "span \<Rightarrow> 's http \<Rightarrow> 's http" where
  "end_span sp s = s\<lparr>st_spans := st_spans s @ [End_span sp]\<rparr>"

definition traced_request :: "http_env \<Rightarrow> request \<Rightarrow> request" where
  "traced_request env r =
     (let parent = he_extract env (rq_header r) (cx_span (rq_ctx r))
      in r\<lparr>rq_ctx := (rq_ctx r)\<lparr>cx_span := he_start env (rq_method r) parent\<rparr>\<rparr>)"

definition tracing :: "http_env \<Rightarrow> 's middleware" where
  "tracing env next r s =
     (let sp = \<lparr>sp_name = rq_method r, sp_attrs = [], sp_status = Unset, sp_ended = False\<rparr> in
      case next (traced_request env r) s of
        (Panicked p, s1) \<Rightarrow> (Panicked p, end_span sp s1)
      | (Returned, s1) \<Rightarrow> (Returned, end_span (server_span env r s1 sp) s1))"

section \<open>Metrics\<close>

text \<open>\<open>observeDuration\<close>, on a histogram that may or may not take exemplars.\<close>

definition observeDuration :: "http_env \<Rightarrow> req_context \<Rightarrow> request_labels \<Rightarrow> duration \<Rightarrow> observation" where
  "observeDuration env ctx labels elapsed =
     \<lparr>ob_labels = labels, ob_elapsed = elapsed,
      ob_exemplar = (if sc_sampled (cx_span ctx) \<and> he_exemplars env then Some (sc_trace_id (cx_span ctx)) else None)\<rparr>"

definition metrics_middleware :: "http_env \<Rightarrow> 's middleware" where
  "metrics_middleware env next r s =
     (case next r s of
        (Panicked p, s1) \<Rightarrow> (Panicked p, s1)
      | (Returned, s1) \<Rightarrow>
          (let labels = \<lparr>lb_method = rq_method r, lb_route = routePattern s1,
                         lb_status = itoa (he_Status env (st_writer s1))\<rparr>
           in (Returned,
               s1\<lparr>st_counts := st_counts s1 @ [labels],
                  st_observed := st_observed s1 @ [observeDuration env (rq_ctx r) labels (st_now s1 - st_now s)]\<rparr>)))"

section \<open>Lemmas on the writer\<close>

lemma update_writer_simps [simp, http_simps]:
  "st_writer (update_writer f s) = f (st_writer s)" "st_app (update_writer f s) = st_app s"
  "st_logs (update_writer f s) = st_logs s" "st_route (update_writer f s) = st_route s"
  "st_now (update_writer f s) = st_now s" "st_uuids (update_writer f s) = st_uuids s"
  "st_counts (update_writer f s) = st_counts s" "st_spans (update_writer f s) = st_spans s"
  "st_observed (update_writer f s) = st_observed s"
  by (simp_all add: update_writer_def)

lemma add_log_simps [simp, http_simps]:
  "st_writer (add_log l s) = st_writer s" "st_app (add_log l s) = st_app s"
  "st_logs (add_log l s) = st_logs s @ [l]" "st_route (add_log l s) = st_route s"
  "st_now (add_log l s) = st_now s" "st_uuids (add_log l s) = st_uuids s"
  "st_counts (add_log l s) = st_counts s" "st_spans (add_log l s) = st_spans s"
  "st_observed (add_log l s) = st_observed s"
  by (simp_all add: add_log_def)

lemma log_at_simps [simp]:
  "lr_level (log_at ids l m a) = l" "lr_msg (log_at ids l m a) = m" "lr_attrs (log_at ids l m a) = a"
  "lr_request_id (log_at ids l m a) = fst ids" "lr_correlation_id (log_at ids l m a) = snd ids"
  by (simp_all add: log_at_def)

lemma Header_simps [simp, http_simps]:
  "wr_code (Header_Set k v w) = wr_code w" "wr_body (Header_Set k v w) = wr_body w"
  "wr_broken (Header_Set k v w) = wr_broken w" "wr_sent (Header_Set k v w) = wr_sent w"
  "wr_header (Header_Set k v w) = (wr_header w)(k \<mapsto> v)"
  by (simp_all add: Header_Set_def)

text \<open>The status is decided once.\<close>

lemma WriteHeader_committed: "wr_code w \<noteq> 0 \<Longrightarrow> WriteHeader c w = w"
  by (simp add: WriteHeader_def)

lemma WriteHeader_code: "200 \<le> c \<Longrightarrow> wr_code (WriteHeader c w) = (if wr_code w = 0 then c else wr_code w)"
  by (simp add: WriteHeader_def)

lemma WriteHeader_sent:
  "200 \<le> c \<Longrightarrow> wr_code w = 0 \<Longrightarrow> wr_sent (WriteHeader c w) = wr_header w"
  by (simp add: WriteHeader_def)

lemma WriteHeader_keeps [simp]: "wr_body (WriteHeader c w) = wr_body w" "wr_broken (WriteHeader c w) = wr_broken w"
  "wr_header (WriteHeader c w) = wr_header w"
  by (simp_all add: WriteHeader_def)

lemma Write_committed: "wr_code w \<noteq> 0 \<Longrightarrow>
    Write bs w = (case wr_broken w of Some err \<Rightarrow> (Some err, w) | None \<Rightarrow> (None, w\<lparr>wr_body := wr_body w @ bs\<rparr>))"
  by (simp add: Write_def)

lemma routePattern_add_log [simp]: "routePattern (add_log l s) = routePattern s"
  by (simp add: routePattern_def)

section \<open>Middlewares that only watch\<close>

text \<open>
  What a caller and the application can observe of a run: how it completed, the response, and
  the state the handlers act on.
\<close>

definition response_of :: "completion \<times> 's http \<Rightarrow> completion \<times> writer \<times> 's" where
  "response_of out = (fst out, st_writer (snd out), st_app (snd out))"

text \<open>An observer runs what it wraps once, on the request it adopted, and answers as it did.\<close>

locale observer =
  fixes mw :: "'s middleware" and adopt :: "request \<Rightarrow> request"
  assumes watched: "response_of (mw next r s) = response_of (next (adopt r) s)"
begin

lemma panics_pass: "fst (mw next r s) = fst (next (adopt r) s)"
  using watched [of "next" r s] by (simp add: response_of_def)

lemma same_answer:
  "response_of (next (adopt r) s) = response_of (next' (adopt r) s) \<Longrightarrow> response_of (mw next r s) = response_of (mw next' r s)"
  by (simp add: watched)

end

locale observers = outer: observer mw adopt + inner: observer mw' adopt'
  for mw :: "'s middleware" and adopt and mw' :: "'s middleware" and adopt'

sublocale observers \<subseteq> both: observer "\<lambda>next. mw (mw' next)" "\<lambda>r. adopt' (adopt r)"
  by unfold_locales (simp add: outer.watched inner.watched)

interpretation access: observer "accessLogger env cfg" "\<lambda>r. r" for env cfg
  by unfold_locales (simp add: response_of_def accessLogger_def split: completion.split prod.split)

interpretation trace: observer "tracing env" "traced_request env" for env
  by unfold_locales (simp add: response_of_def tracing_def end_span_def Let_def split: completion.split prod.split)

interpretation meter: observer "metrics_middleware env" "\<lambda>r. r" for env
  by unfold_locales (simp add: response_of_def metrics_middleware_def Let_def split: completion.split prod.split)

interpretation watched: observers "tracing env" "traced_request env" "accessLogger env cfg" "\<lambda>r. r" for env cfg
  by unfold_locales

section \<open>Lemmas on correlation\<close>

definition safe_char :: "char \<Rightarrow> bool" where
  "safe_char c = safe_rune (byte c)"

definition safe_token :: "gostring \<Rightarrow> bool" where
  "safe_token v \<longleftrightarrow> v \<noteq> [] \<and> length v \<le> 128 \<and> list_all safe_char v"

lemma safe_loop_list_all: "safe_loop cs = list_all safe_rune cs"
  by (induction cs) auto

lemma safe_rune_ascii: "safe_rune c \<Longrightarrow> c < 0x80"
  by (auto simp: safe_rune_def)

text \<open>The loop ranges over runes, but a safe rune is a byte.\<close>

lemma safe_runes_bytes: "list_all safe_rune (runes v) \<longleftrightarrow> list_all safe_char v"
proof
  assume "list_all safe_rune (runes v)"
  moreover from this have "ascii v"
    using runes_below_ascii [of v] by (auto simp: list_all_iff dest: safe_rune_ascii)
  ultimately show "list_all safe_char v" by (auto simp: runes_ascii list_all_iff safe_char_def)
next
  assume safe: "list_all safe_char v"
  then have "ascii v" by (auto simp: ascii_def list_all_iff safe_char_def dest: safe_rune_ascii)
  with safe show "list_all safe_rune (runes v)" by (auto simp: runes_ascii list_all_iff safe_char_def)
qed

lemma safeId_safe_token: "safeId v = (if safe_token v then v else [])"
  by (auto simp: safeId_def safe_token_def maxIdLength_def safe_loop_list_all safe_runes_bytes)

section \<open>Lemmas on recovery\<close>

lemma writeInternalError_keeps [simp]:
  "st_app (writeInternalError env ctx s) = st_app s"
  "st_route (writeInternalError env ctx s) = st_route s"
  "st_now (writeInternalError env ctx s) = st_now s"
  "st_counts (writeInternalError env ctx s) = st_counts s"
  "st_spans (writeInternalError env ctx s) = st_spans s"
  by (auto simp: writeInternalError_def Let_def split: sum.split prod.split option.split)

text \<open>Whichever way the body is encoded or lost, the status is 500 unless one was sent before.\<close>

lemma Write_code [simp]: "wr_code w \<noteq> 0 \<Longrightarrow> wr_code (snd (Write bs w)) = wr_code w"
  by (simp add: Write_committed split: option.split)

lemma http_Error_code: "200 \<le> c \<Longrightarrow> wr_code (http_Error msg c w) = (if wr_code w = 0 then c else wr_code w)"
  by (simp add: http_Error_def WriteHeader_code Header_Del_def)

lemma writeInternalError_code:
  "wr_code (st_writer (writeInternalError env ctx s)) =
     (if wr_code (st_writer s) = 0 then 500 else wr_code (st_writer s))"
proof (cases "he_marshal_500 env")
  case (Inl e)
  then show ?thesis by (simp add: writeInternalError_def http_Error_code)
next
  case (Inr bs)
  let ?w = "WriteHeader 500 (Header_Set ''Content-Type'' problemContentType (st_writer s))"
  have code: "wr_code ?w = (if wr_code (st_writer s) = 0 then 500 else wr_code (st_writer s))"
    by (simp add: WriteHeader_code)
  then have "wr_code (snd (Write bs ?w)) = wr_code ?w" by simp
  with Inr code show ?thesis
    by (cases "Write bs ?w") (simp add: writeInternalError_def Let_def split: option.split)
qed

lemma writeInternalError_logs:
  "\<exists>extra. st_logs (writeInternalError env ctx s) = st_logs s @ extra
     \<and> list_all (\<lambda>l. lr_level l = LevelError \<and> (lr_request_id l, lr_correlation_id l) = ids_of ctx) extra"
  by (auto simp: writeInternalError_def Let_def split: sum.split prod.split option.split)

lemma writeInternalError_clean:
  assumes "he_marshal_500 env = Inr bs" and "wr_code (st_writer s) = 0" and "wr_broken (st_writer s) = None"
  shows "writeInternalError env ctx s =
    s\<lparr>st_writer := (st_writer s)
        \<lparr>wr_header := (wr_header (st_writer s))(''Content-Type'' \<mapsto> problemContentType), wr_code := 500,
         wr_sent := (wr_header (st_writer s))(''Content-Type'' \<mapsto> problemContentType),
         wr_body := wr_body (st_writer s) @ bs\<rparr>\<rparr>"
  using assms by (simp add: writeInternalError_def Let_def WriteHeader_def Header_Set_def Write_def)

lemma recoverer_panic:
  "next r s = (Panicked p, s1) \<Longrightarrow> \<not> deliberate_abort p \<Longrightarrow>
     recoverer env next r s =
       (Returned, writeInternalError env (rq_ctx r) (add_log (panic_record env (rq_ctx r) r p s1) s1))"
  by (simp add: recoverer_def reportPanic_def)

lemma recoverer_escapes: "fst (recoverer env next r s) = Panicked p \<Longrightarrow> deliberate_abort p"
  by (auto simp: recoverer_def reportPanic_def split: prod.splits completion.splits if_splits)

section \<open>Properties\<close>

text \<open>
  The wrapper as chi documents it: the status written, 0 when none was, and the bytes written.
\<close>

definition faithful_wrapper :: "http_env \<Rightarrow> bool" where
  "faithful_wrapper env \<longleftrightarrow>
     (\<forall>w. he_Status env w = wr_code w \<and> he_BytesWritten env w = int (length (wr_body w)))"

text \<open>
  C33: every request runs under a freshly generated request id and a correlation id, both echoed
  to the caller.  The correlation id is the caller's own exactly when that is a token of at
  most 128 letters, digits, dashes, underscores and dots, so nothing else a caller sends can
  reach a log line through it.
\<close>

theorem correlation_ids:
  "\<exists>r' s'. correlation env next r s = next r' s'
    \<and> (let inbound = header_get r ''X-Correlation-Id''; rid = he_NewV7 env (st_uuids s);
           cid = (if safe_token inbound then inbound else rid)
       in ids_of (rq_ctx r') = (Some rid, Some cid)
          \<and> wr_header (st_writer s') = (wr_header (st_writer s))(''X-Request-Id'' \<mapsto> rid, ''X-Correlation-Id'' \<mapsto> cid)
          \<and> st_uuids s' = Suc (st_uuids s) \<and> st_logs s' = st_logs s \<and> st_app s' = st_app s
          \<and> identityKey (rq_ctx r') = identityKey (rq_ctx r) \<and> rq_body r' = rq_body r)"
proof -
  let ?rid = "he_NewV7 env (st_uuids s)" and ?inbound = "header_get r ''X-Correlation-Id''"
  let ?cid = "if safe_token ?inbound then ?inbound else ?rid"
  let ?r' = "r\<lparr>rq_ctx := (rq_ctx r)\<lparr>cx_request_id := Some ?rid, cx_correlation_id := Some ?cid\<rparr>\<rparr>"
  let ?s' = "update_writer (Header_Set ''X-Correlation-Id'' ?cid)
    (update_writer (Header_Set ''X-Request-Id'' ?rid) (s\<lparr>st_uuids := Suc (st_uuids s)\<rparr>))"
  have "(if safeId ?inbound = [] then ?rid else safeId ?inbound) = ?cid"
    by (simp add: safeId_safe_token safe_token_def)
  then have "correlation env next r s = next ?r' ?s'"
    by (simp only: correlation_def Let_def correlationIdHeader_def requestIdHeader_def)
  then show ?thesis
    by (intro exI [of _ ?r'] exI [of _ ?s']) (simp add: ids_of_def Let_def)
qed

text \<open>
  The three observing middlewares change nothing a caller or the application can see: the
  traced, logged and measured handler completes, answers and acts exactly as the bare one does
  on the traced request.
\<close>

lemma observability_transparent:
  "response_of (tracing env (accessLogger env cfg (metrics_middleware env h)) r s)
     = response_of (h (traced_request env r) s)"
  using watched.both.watched [of env cfg "metrics_middleware env h" r s] meter.watched [of env h] by simp

text \<open>
  C16: a handler that panics before answering is answered 500, and one that had already begun its
  response keeps the status it sent.  Two records tell the story under the request's own ids:
  the panic, and the access line with the status the caller saw.
\<close>

theorem panic_answered_and_logged:
  assumes wrapper: "faithful_wrapper env" and path: "rq_path r \<noteq> metricsPath cfg"
    and panicked: "h r s = (Panicked p, s1)" and fault: "\<not> deliberate_abort p"
  shows "\<exists>s' fault_line extra access_line.
    accessLogger env cfg (recoverer env h) r s = (Returned, s')
    \<and> wr_code (st_writer s') = (if wr_code (st_writer s1) = 0 then 500 else wr_code (st_writer s1))
    \<and> st_app s' = st_app s1
    \<and> st_logs s' = st_logs s1 @ [fault_line] @ extra @ [access_line]
    \<and> lr_msg fault_line = ''panic recovered'' \<and> lr_level fault_line = LevelError
    \<and> lr_msg access_line = ''http request''
    \<and> map_of (lr_attrs access_line) ''status'' = Some (AInt (wr_code (st_writer s')))
    \<and> list_all (\<lambda>l. (lr_request_id l, lr_correlation_id l) = ids_of (rq_ctx r)) ([fault_line] @ extra @ [access_line])"
proof -
  let ?line = "panic_record env (rq_ctx r) r p s1"
  let ?s2 = "writeInternalError env (rq_ctx r) (add_log ?line s1)"
  let ?access = "access_record env r (st_now s) ?s2"
  obtain extra where extra: "st_logs ?s2 = (st_logs s1 @ [?line]) @ extra"
    "list_all (\<lambda>l. lr_level l = LevelError \<and> (lr_request_id l, lr_correlation_id l) = ids_of (rq_ctx r)) extra"
    using writeInternalError_logs [of env "rq_ctx r" "add_log ?line s1"] by auto
  have code: "wr_code (st_writer ?s2) = (if wr_code (st_writer s1) = 0 then 500 else wr_code (st_writer s1))"
    by (simp add: writeInternalError_code)
  then have "reported_status env ?s2 = wr_code (st_writer ?s2)"
    using wrapper by (auto simp: reported_status_def faithful_wrapper_def)
  then have status: "map_of (lr_attrs ?access) ''status'' = Some (AInt (wr_code (st_writer ?s2)))"
    by (simp add: access_record_def)
  have "accessLogger env cfg (recoverer env h) r s = (Returned, add_log ?access ?s2)"
    using path recoverer_panic [of h r s p s1 env] panicked fault by (simp add: accessLogger_def)
  then show ?thesis
    using extra code status
    by (intro exI [of _ "add_log ?access ?s2"] exI [of _ ?line] exI [of _ extra] exI [of _ ?access])
       (auto simp: panic_record_def access_record_def ids_of_def list_all_iff)
qed

definition blank_context :: req_context where
  "blank_context = \<lparr>identityKey = None, cx_request_id = Some ''r1'', cx_correlation_id = Some ''c1'',
     cx_span = \<lparr>sc_trace_id = [], sc_span_id = [], sc_valid = False, sc_sampled = False\<rparr>,
     cx_client_ip = [], cx_deadline = None\<rparr>"

definition sample_request :: "gostring \<Rightarrow> gostring \<Rightarrow> request" where
  "sample_request method path = \<lparr>rq_method = method, rq_path = path, rq_header = (\<lambda>_. []),
     rq_remote_addr = ''192.0.2.1:4711'', rq_body = [], rq_body_limit = None, rq_ctx = blank_context\<rparr>"

definition fresh_http :: "'s \<Rightarrow> 's http" where
  "fresh_http app = \<lparr>st_writer = \<lparr>wr_header = Map.empty, wr_code = 0, wr_sent = Map.empty, wr_body = [], wr_broken = None\<rparr>,
     st_now = 0, st_uuids = 0, st_route = Some [], st_logs = [], st_counts = [], st_observed = [], st_spans = [], st_app = app\<rparr>"

definition sample_env :: http_env where
  "sample_env = \<lparr>he_NewV7 = (\<lambda>n. ''id''), he_Status = wr_code, he_BytesWritten = (\<lambda>w. int (length (wr_body w))),
     he_marshal_500 = Inr ''{}'', he_stack = (\<lambda>_. []), he_extract = (\<lambda>_ sc. sc), he_start = (\<lambda>_ sc. sc),
     he_exemplars = True\<rparr>"

lemma sample_env_wrapper: "faithful_wrapper sample_env"
  by (simp add: faithful_wrapper_def sample_env_def)

theorem panic_answered_and_logged_witness:
  "\<exists>s'. accessLogger sample_env (cfg_Http default_config)
        (recoverer sample_env (\<lambda>r s. (Panicked (PanicOther ''boom''), s)))
        (sample_request ''GET'' ''/x'') (fresh_http ()) = (Returned, s')
    \<and> wr_code (st_writer s') = 500"
  using panic_answered_and_logged [OF sample_env_wrapper, of "sample_request ''GET'' ''/x''" "cfg_Http default_config"
      "\<lambda>r s. (Panicked (PanicOther ''boom''), s)" "fresh_http ()" "PanicOther ''boom''" "fresh_http ()"]
  by (auto simp: sample_request_def fresh_http_def deliberate_abort_def metricsPath_def default_config_def)

text \<open>
  C34: nothing about a panic reaches the caller.  Two runs that panic in the same state with
  different values leave the very same response.
\<close>

theorem panic_detail_withheld:
  assumes "h r s = (Panicked p, s1)" and "h' r s = (Panicked q, s1)"
    and "\<not> deliberate_abort p" and "\<not> deliberate_abort q"
  shows "response_of (recoverer env h r s) = response_of (recoverer env h' r s)"
  using assms
  by (auto simp: recoverer_panic response_of_def writeInternalError_def Let_def split: sum.split prod.split option.split)

theorem panic_detail_withheld_witness:
  "response_of (recoverer sample_env (\<lambda>r s. (Panicked (PanicOther ''secret''), s)) (sample_request ''GET'' ''/x'') (fresh_http ()))
   = response_of (recoverer sample_env (\<lambda>r s. (Panicked (PanicError (ErrNew ''other'')), s)) (sample_request ''GET'' ''/x'') (fresh_http ()))"
  by (rule panic_detail_withheld [of _ _ _ "PanicOther ''secret''" "fresh_http ()" _ "PanicError (ErrNew ''other'')"])
     (simp_all add: deliberate_abort_def)

text \<open>
  Tracing emits exactly one span per request and always ends it.  A request that returned
  names its span by method and matched route, and the span is an error exactly when the status
  is a server fault; one that panicked keeps the method alone.
\<close>

lemma tracing_one_span:
  "(case next (traced_request env r) s of (c, s1) \<Rightarrow>
      \<exists>sp. st_spans (snd (tracing env next r s)) = st_spans s1 @ [sp] \<and> sp_ended sp
        \<and> sp_name sp = (if c = Returned then rq_method r @ '' '' @ routePattern s1 else rq_method r)
        \<and> (sp_status sp \<noteq> Unset) = (c = Returned \<and> 500 \<le> reported_status env s1))"
  by (auto simp: tracing_def end_span_def End_span_def server_span_def SetName_def SetAttributes_def SetStatus_def
      Let_def split: prod.split completion.split)

text \<open>
  C35: a request is counted once, with its method, the matched route or \<open>unmatched\<close>, never the
  raw path, and the status the wrapper reports; but only if its handler returns.  One that
  panics is answered 500 by the recoverer outside and enters neither collector.
\<close>

theorem metrics_count_only_returns:
  "(case h r s of (c, s1) \<Rightarrow>
      st_counts (snd (recoverer env (metrics_middleware env h) r s)) =
        st_counts s1 @ (if c = Returned
          then [\<lparr>lb_method = rq_method r, lb_route = routePattern s1, lb_status = itoa (he_Status env (st_writer s1))\<rparr>]
          else []))"
  by (auto simp: recoverer_def reportPanic_def metrics_middleware_def Let_def split: prod.split completion.split)

end
