(* ===== verification/Guard.thy ===== *)
theory Guard
  imports Http Oidcx
begin

text \<open>
  \<open>api/errors.go\<close> and \<open>api/auth.go\<close>: the status and wording of each domain error, and
  the guard that puts an operation behind a bearer token and a requirement.

  huma enters through its error writer, which acts on the response only, and through the order
  in which it runs an operation's middlewares.  The verifier is any that keeps the contract
  \<open>token_verifier\<close>; the last properties are about the one of \<open>pkg/oidcx\<close>.
\<close>

section \<open>Client errors\<close>

definition clientMessages :: "int \<rightharpoonup> gostring" where
  "clientMessages =
     [ErrInvalidInput \<mapsto> ''invalid request'', ErrUnauthorized \<mapsto> ''unauthorized'',
      ErrForbidden \<mapsto> ''forbidden'', ErrNotFound \<mapsto> ''not found'',
      ErrUnavailable \<mapsto> ''service unavailable'', ErrInternal \<mapsto> ''internal server error'']"

definition client_message :: "int \<Rightarrow> gostring" where
  "client_message t = (case clientMessages t of Some msg \<Rightarrow> msg | None \<Rightarrow> [])"

text \<open>huma's status error: its status, and the detail its \<open>Error()\<close> returns.\<close>

record status_error =
  se_status :: int
  se_detail :: gostring

definition statusError :: "int \<Rightarrow> status_error" where
  "statusError t =
     (let msg = client_message t in
      if t = ErrInvalidInput then \<lparr>se_status = 400, se_detail = msg\<rparr>
      else if t = ErrUnauthorized then \<lparr>se_status = 401, se_detail = msg\<rparr>
      else if t = ErrForbidden then \<lparr>se_status = 403, se_detail = msg\<rparr>
      else if t = ErrNotFound then \<lparr>se_status = 404, se_detail = msg\<rparr>
      else if t = ErrUnavailable then \<lparr>se_status = 503, se_detail = msg\<rparr>
      else \<lparr>se_status = 500, se_detail = client_message ErrInternal\<rparr>)"

definition apiError :: "ctx_ids \<Rightarrow> gerror option \<Rightarrow> status_error option \<times> log_record list" where
  "apiError ids err =
     (case err of
        None \<Rightarrow> (None, [])
      | Some e \<Rightarrow>
          (Some (statusError (TypeOf e)),
           [log_at ids LevelError ''request failed'' [(''error'', AError e), (''type'', AInt (TypeOf e))]]))"

section \<open>Operations of huma\<close>

text \<open>An operation's middleware also sees the operation it runs for, here its identifier.\<close>

type_synonym 's op_middleware = "gostring \<Rightarrow> 's middleware"

record 's operation =
  op_OperationID :: gostring
  op_Method :: gostring
  op_Path :: gostring
  op_DefaultStatus :: int
  op_MaxBodyBytes :: int
  op_Security :: "security option"
  op_Middlewares :: "'s op_middleware list"
  op_Errors :: "int list"

type_synonym write_err = "int \<Rightarrow> gostring \<Rightarrow> writer \<Rightarrow> writer"

text \<open>Middlewares run in the order they are listed, the handler innermost.\<close>

definition run_operation :: "'s operation \<Rightarrow> 's handler \<Rightarrow> 's handler" where
  "run_operation op h = foldr (\<lambda>m next. m (op_OperationID op) next) (op_Middlewares op) h"

section \<open>The guard\<close>

definition securitySchemeName :: gostring where "securitySchemeName = ''bearerAuth''"
definition authorizationHeader :: gostring where "authorizationHeader = ''Authorization''"
definition bearerPrefix :: gostring where "bearerPrefix = ''Bearer ''"

record guard =
  g_verifier :: "gostring \<Rightarrow> gerror + identity"

record security_scheme =
  ss_Type :: gostring
  ss_Scheme :: gostring
  ss_Description :: gostring
  ss_BearerFormat :: gostring

definition securityScheme :: "OIDCConfig \<Rightarrow> security_scheme" where
  "securityScheme cfg =
     \<lparr>ss_Type = ''http'', ss_Scheme = ''bearer'',
      ss_Description = ''OIDC access token issued by '' @ oidc_Issuer cfg
        @ '', presented as '' @ [CHR 0x60] @ ''Authorization: Bearer <token>'' @ [CHR 0x60] @ ''.'',
      ss_BearerFormat = []\<rparr>"

definition bearerToken :: "gostring \<Rightarrow> gostring option" where
  "bearerToken header =
     (if length header < length bearerPrefix
         \<or> \<not> equal_fold (take (length bearerPrefix) header) bearerPrefix
      then None
      else (let token = trim_space (drop (length bearerPrefix) header)
            in if token \<noteq> [] then Some token else None))"

definition challenge :: gostring where
  "challenge = ''Bearer error='' @ [CHR 0x22] @ ''invalid_token'' @ [CHR 0x22]"

definition deny ::
  "write_err \<Rightarrow> gostring \<Rightarrow> int \<Rightarrow> gostring \<Rightarrow> (gostring \<times> attr_value) list \<Rightarrow> 's handler" where
  "deny WriteErr operation errType reason extra r s =
     (let status = statusError errType;
          s = (if errType = ErrUnauthorized then update_writer (Header_Set ''WWW-Authenticate'' challenge) s else s);
          attrs = [(''operation'', AString operation), (''reason'', AString reason),
                   (''status'', AInt (se_status status))] @ extra;
          s = add_log (log_at (ids_of (rq_ctx r)) LevelWarn ''request denied'' attrs) s
      in (Returned, update_writer (WriteErr (se_status status) (se_detail status)) s))"

definition guard_middleware :: "write_err \<Rightarrow> guard \<Rightarrow> requirements \<Rightarrow> 's op_middleware" where
  "guard_middleware WriteErr g req operation next r s =
     (case bearerToken (header_get r authorizationHeader) of
        None \<Rightarrow> deny WriteErr operation ErrUnauthorized ''no bearer token presented'' [] r s
      | Some token \<Rightarrow>
          (case g_verifier g token of
             Inl err \<Rightarrow> deny WriteErr operation (TypeOf err) ''token rejected'' [(''error'', AError err)] r s
           | Inr i \<Rightarrow>
               if \<not> Satisfied req i
               then deny WriteErr operation ErrForbidden ''requirement not satisfied''
                      [(''subject'', AString (Subject i)), (''required'', AString (Requirements_String req))] r s
               else next (r\<lparr>rq_ctx := NewContext (rq_ctx r) i\<rparr>) s))"

definition secured :: "write_err \<Rightarrow> 's operation \<Rightarrow> requirements \<Rightarrow> guard option \<Rightarrow> 's operation" where
  "secured WriteErr op req g =
     (case g of
        None \<Rightarrow> op
      | Some g \<Rightarrow>
          (let security = (case OpenAPI req securitySchemeName of
                             None \<Rightarrow> [[(securitySchemeName, [])]] | Some sec \<Rightarrow> sec)
           in op\<lparr>op_Security := Some security,
                 op_Middlewares := op_Middlewares op @ [guard_middleware WriteErr g req],
                 op_Errors := op_Errors op @ [401, 403, 503]\<rparr>))"

section \<open>Lemmas\<close>

lemma statusError_simps [simp]:
  "statusError ErrInvalidInput = \<lparr>se_status = 400, se_detail = ''invalid request''\<rparr>"
  "statusError ErrUnauthorized = \<lparr>se_status = 401, se_detail = ''unauthorized''\<rparr>"
  "statusError ErrForbidden = \<lparr>se_status = 403, se_detail = ''forbidden''\<rparr>"
  "statusError ErrNotFound = \<lparr>se_status = 404, se_detail = ''not found''\<rparr>"
  "statusError ErrUnavailable = \<lparr>se_status = 503, se_detail = ''service unavailable''\<rparr>"
  "statusError ErrInternal = \<lparr>se_status = 500, se_detail = ''internal server error''\<rparr>"
  by (simp_all add: statusError_def client_message_def clientMessages_def error_type_defs Let_def)

lemma run_operation_append:
  "run_operation (op\<lparr>op_Middlewares := op_Middlewares op @ [m], op_Security := x, op_Errors := y\<rparr>) h
     = run_operation op (m (op_OperationID op) h)"
  by (simp add: run_operation_def)

lemma deny_effects [simp]:
  "fst (deny WriteErr operation t reason extra r s) = Returned"
  "st_app (snd (deny WriteErr operation t reason extra r s)) = st_app s"
  by (simp_all add: deny_def Let_def)

lemma deny_writer:
  "st_writer (snd (deny WriteErr operation t reason extra r s)) =
     WriteErr (se_status (statusError t)) (se_detail (statusError t))
       (if t = ErrUnauthorized then Header_Set ''WWW-Authenticate'' challenge (st_writer s) else st_writer s)"
  by (simp add: deny_def Let_def)

lemma deny_logs:
  "\<exists>l. st_logs (snd (deny WriteErr operation t reason extra r s)) = st_logs s @ [l]
     \<and> lr_level l = LevelWarn \<and> lr_msg l = ''request denied''
     \<and> (lr_request_id l, lr_correlation_id l) = ids_of (rq_ctx r)
     \<and> map_of (lr_attrs l) ''status'' = Some (AInt (se_status (statusError t)))"
  by (simp add: deny_def Let_def)

text \<open>The decision the guard takes: whose request this is, or the type of the refusal.\<close>

definition admitted :: "guard \<Rightarrow> requirements \<Rightarrow> request \<Rightarrow> identity option" where
  "admitted g req r =
     (case bearerToken (header_get r authorizationHeader) of
        None \<Rightarrow> None
      | Some token \<Rightarrow>
          (case g_verifier g token of
             Inl err \<Rightarrow> None
           | Inr i \<Rightarrow> if Satisfied req i then Some i else None))"

definition refusal :: "guard \<Rightarrow> request \<Rightarrow> int" where
  "refusal g r =
     (case bearerToken (header_get r authorizationHeader) of
        None \<Rightarrow> ErrUnauthorized
      | Some token \<Rightarrow> (case g_verifier g token of Inl err \<Rightarrow> TypeOf err | Inr i \<Rightarrow> ErrForbidden))"

lemma guard_admits:
  "admitted g req r = Some i \<Longrightarrow>
     guard_middleware WriteErr g req operation next r s = next (r\<lparr>rq_ctx := NewContext (rq_ctx r) i\<rparr>) s"
  by (auto simp: admitted_def guard_middleware_def split: option.splits sum.splits if_splits)

lemma guard_refuses:
  "admitted g req r = None \<Longrightarrow>
     \<exists>reason extra. guard_middleware WriteErr g req operation next r s
       = deny WriteErr operation (refusal g r) reason extra r s"
  by (auto simp: admitted_def refusal_def guard_middleware_def split: option.splits sum.splits if_splits)

context token_verifier
begin

lemma refusal_answer:
  "refusal \<lparr>g_verifier = verify\<rparr> r \<in> {ErrUnauthorized, ErrForbidden, ErrUnavailable}"
  using refusal_typed by (auto simp: refusal_def split: option.split sum.split)

lemma admitted_somebody: "admitted \<lparr>g_verifier = verify\<rparr> req r = Some i \<Longrightarrow> Subject i \<noteq> []"
  using verified_subject by (auto simp: admitted_def split: option.splits sum.splits if_splits)

end

lemma refusal_statuses:
  assumes "t \<in> {ErrUnauthorized, ErrForbidden, ErrUnavailable}"
  shows "(se_status (statusError t), se_detail (statusError t))
      \<in> {(401, ''unauthorized''), (403, ''forbidden''), (503, ''service unavailable'')}
    \<and> (se_status (statusError t) = 401 \<longleftrightarrow> t = ErrUnauthorized)"
proof -
  have "ErrForbidden \<noteq> ErrUnauthorized" "ErrUnavailable \<noteq> ErrUnauthorized"
    by (simp_all add: error_type_defs)
  with assms show ?thesis by auto
qed

section \<open>Lemmas on the bearer credential\<close>

definition ascii_lower :: "char \<Rightarrow> nat" where
  "ascii_lower c = (if 65 \<le> byte c \<and> byte c \<le> 90 then byte c + 32 else byte c)"

lemma fold_rune_ascii: "byte c < 0x80 \<Longrightarrow> fold_rune (byte c) = ascii_lower c"
  by (simp add: fold_rune_def ascii_lower_def)

lemma fold_rune_high: "\<not> r < 0x80 \<Longrightarrow> fold_rune r \<in> {0x6B, 0x73} \<or> 0x80 \<le> fold_rune r"
  by (simp add: fold_rune_def)

text \<open>
  Folding equality with a text in which no letter k or s occurs is equality of bytes up to ASCII
  case: no other rune folds into it.
\<close>

lemma equal_fold_ascii:
  assumes t: "ascii t" and no_ks: "list_all (\<lambda>n. n \<noteq> 0x6B \<and> n \<noteq> 0x73) (map ascii_lower t)"
  shows "equal_fold s t \<longleftrightarrow> map ascii_lower s = map ascii_lower t"
proof
  have rt: "map fold_rune (runes t) = map ascii_lower t"
    using t by (simp add: runes_ascii ascii_def list_all_iff fold_rune_ascii)
  have low: "list_all (\<lambda>n. n < 0x80) (map ascii_lower t)"
    using t by (auto simp: list_all_iff ascii_def ascii_lower_def)
  have from_ascii: "ascii s \<Longrightarrow> map fold_rune (runes s) = map ascii_lower s" for s
    by (simp add: runes_ascii ascii_def list_all_iff fold_rune_ascii)
  show "map ascii_lower s = map ascii_lower t" if eq: "equal_fold s t"
  proof -
    from eq have eq': "map fold_rune (runes s) = map ascii_lower t" by (simp add: equal_fold_def rt)
    have "r < 0x80" if "r \<in> set (runes s)" for r
    proof (rule ccontr)
      assume "\<not> r < 0x80"
      moreover have "fold_rune r \<in> set (map ascii_lower t)" using that eq' by (metis imageI set_map)
      ultimately show False using fold_rune_high [of r] low no_ks by (fastforce simp: list_all_iff)
    qed
    then have "ascii s" using runes_below_ascii [of s] by (simp add: list_all_iff)
    with eq' show ?thesis by (simp add: from_ascii)
  qed
  show "equal_fold s t" if eq: "map ascii_lower s = map ascii_lower t"
  proof -
    have "ascii_lower c < 0x80 \<longleftrightarrow> byte c < 0x80" for c by (simp add: ascii_lower_def)
    then have "ascii s"
      using low unfolding eq [symmetric] by (simp add: ascii_def list_all_iff)
    with eq show ?thesis by (simp add: equal_fold_def rt from_ascii)
  qed
qed

lemma bearerPrefix_fold:
  "equal_fold s bearerPrefix \<longleftrightarrow> map ascii_lower s = map byte ''bearer ''"
  by (subst equal_fold_ascii) (simp_all add: bearerPrefix_def ascii_def byte_def ascii_lower_def)

lemma bearerPrefix_length: "length bearerPrefix = 7"
  by (simp add: bearerPrefix_def)

section \<open>Properties\<close>

text \<open>
  C2: the guard is complete mediation.  A request whose credential the verifier does not accept,
  or whose identity does not satisfy the requirement, gets the same response whatever the
  operation would have done: the operation is not run, the application is untouched, and one
  denial is logged.  Any other runs exactly once, under the verified identity.
\<close>

theorem guard_complete_mediation:
  "(case admitted g req r of
      Some i \<Rightarrow>
        Satisfied req i
        \<and> (\<exists>token. bearerToken (header_get r ''Authorization'') = Some token \<and> g_verifier g token = Inr i)
        \<and> guard_middleware WriteErr g req operation next r s = next (r\<lparr>rq_ctx := NewContext (rq_ctx r) i\<rparr>) s
    | None \<Rightarrow>
        guard_middleware WriteErr g req operation next r s = guard_middleware WriteErr g req operation next' r s
        \<and> fst (guard_middleware WriteErr g req operation next r s) = Returned
        \<and> st_app (snd (guard_middleware WriteErr g req operation next r s)) = st_app s
        \<and> (\<exists>l. st_logs (snd (guard_middleware WriteErr g req operation next r s)) = st_logs s @ [l]
             \<and> lr_msg l = ''request denied''))"
proof (cases "admitted g req r")
  case (Some i)
  then show ?thesis
    by (auto simp: guard_admits admitted_def authorizationHeader_def split: option.splits sum.splits if_splits)
next
  case None
  have same: "guard_middleware WriteErr g req operation next r s = guard_middleware WriteErr g req operation next' r s"
    using None by (auto simp: admitted_def guard_middleware_def split: option.splits sum.splits if_splits)
  obtain reason extra where eq: "guard_middleware WriteErr g req operation next' r s
      = deny WriteErr operation (refusal g r) reason extra r s"
    using guard_refuses [OF None] by blast
  show ?thesis
    using deny_logs [of WriteErr operation "refusal g r" reason extra r s] by (auto simp: None same eq)
qed

text \<open>
  C30: behind the OIDC verifier a refusal is one of three generic answers, chosen by whose fault
  it is: 401 with a challenge when there is no credential or it is rejected, 403 when the
  requirement is not met, 503 when the provider cannot be reached.  It is never a 500, and its
  wording is fixed by the status.
\<close>

theorem refusal_is_generic:
  assumes "admitted \<lparr>g_verifier = Verify cfg tv ht\<rparr> req r = None"
  shows "\<exists>status msg w.
    st_writer (snd (guard_middleware WriteErr \<lparr>g_verifier = Verify cfg tv ht\<rparr> req operation next r s)) = WriteErr status msg w
    \<and> (status, msg) \<in> {(401, ''unauthorized''), (403, ''forbidden''), (503, ''service unavailable'')}
    \<and> w = (if status = 401 then Header_Set ''WWW-Authenticate'' challenge (st_writer s) else st_writer s)"
proof -
  obtain reason extra where "guard_middleware WriteErr \<lparr>g_verifier = Verify cfg tv ht\<rparr> req operation next r s
      = deny WriteErr operation (refusal \<lparr>g_verifier = Verify cfg tv ht\<rparr> r) reason extra r s"
    using guard_refuses [OF assms] by blast
  then show ?thesis
    using refusal_statuses [OF oidc.refusal_answer [of cfg tv ht r]]
    by (intro exI [of _ "se_status (statusError (refusal \<lparr>g_verifier = Verify cfg tv ht\<rparr> r))"]
        exI [of _ "se_detail (statusError (refusal \<lparr>g_verifier = Verify cfg tv ht\<rparr> r))"] exI conjI)
       (auto simp: deny_writer)
qed

theorem refusal_is_generic_witness:
  "\<exists>status msg w.
    st_writer (snd (guard_middleware (\<lambda>c msg w. WriteHeader c w) \<lparr>g_verifier = Verify sample_cfg sample_library Inr\<rparr>
      (Scope [''profile:read'']) ''get-profile'' (\<lambda>r s. (Returned, s)) (sample_request ''GET'' ''/x'') (fresh_http ())))
      = WriteHeader status w \<and> (status, msg) \<in> {(401, ''unauthorized''), (403, ''forbidden''), (503, ''service unavailable'')}"
  using refusal_is_generic [of sample_cfg sample_library Inr "Scope [''profile:read'']" "sample_request ''GET'' ''/x''"
      "\<lambda>c msg w. WriteHeader c w" "''get-profile''" "\<lambda>r s. (Returned, s)" "fresh_http ()"]
  by (auto simp: admitted_def sample_request_def header_get_def bearerToken_def bearerPrefix_def)

text \<open>
  An operation advertises a requirement exactly when it enforces one.  Without a guard
  nothing changes; with one, the operation always carries a security field, the three refusal
  statuses, and runs only behind the guard for that very requirement, the empty one included,
  which refuses every caller.
\<close>

lemma secured_advertises_what_it_enforces:
  "secured WriteErr op req None = op
   \<and> op_Security (secured WriteErr op req (Some g)) \<noteq> None
   \<and> op_Errors (secured WriteErr op req (Some g)) = op_Errors op @ [401, 403, 503]
   \<and> run_operation (secured WriteErr op req (Some g)) h
       = run_operation op (guard_middleware WriteErr g req (op_OperationID op) h)
   \<and> admitted g [] r = None
   \<and> op_Security (secured WriteErr op [] (Some g)) = Some [[(''bearerAuth'', [])]]"
  by (auto simp: secured_def Let_def run_operation_def admitted_def OpenAPI_def securitySchemeName_def
      split: option.split sum.split)

text \<open>
  C31: a credential is read from an \<open>Authorization\<close> header exactly when its first seven bytes
  are \<open>Bearer\<close> and a space in any ASCII case, and what follows is not blank; it is what
  follows, trimmed.  Inner spaces are kept, so a header with two words is one credential and
  not a malformed header.
\<close>

theorem bearerToken_spec:
  "(bearerToken h = Some token) =
     (map ascii_lower (take 7 h) = map byte ''bearer '' \<and> token = trim_space (drop 7 h) \<and> token \<noteq> [])
   \<and> bearerToken ''bEARER a b'' = Some ''a b''"
proof
  define B where "B = map byte ''bearer ''"
  have unfolded: "bearerToken x = (if length x < 7 \<or> map ascii_lower (take 7 x) \<noteq> B then None
      else (let token = trim_space (drop 7 x) in if token \<noteq> [] then Some token else None))" for x
    unfolding bearerToken_def bearerPrefix_fold bearerPrefix_length B_def by (rule refl)
  have "length B = 7" by (simp add: B_def)
  then have short: "length h < 7 \<Longrightarrow> map ascii_lower (take 7 h) \<noteq> B"
    by (auto dest: arg_cong [where f = length])
  show "(bearerToken h = Some token) =
      (map ascii_lower (take 7 h) = map byte ''bearer '' \<and> token = trim_space (drop 7 h) \<and> token \<noteq> [])"
    unfolding B_def [symmetric] using short by (auto simp: unfolded Let_def)
  have "segments ''a b'' = [(97, ''a''), (32, '' ''), (98, ''b'')]"
    by (subst segments_ascii) (simp_all add: byte_def)
  then show "bearerToken ''bEARER a b'' = Some ''a b''"
    by (simp add: unfolded B_def Let_def trim_space_def space_rune_def ascii_lower_def byte_def)
qed

end
