(* ===== verification/Operations.thy ===== *)
theory Operations
  imports Guard Health Repository
begin

text \<open>
  \<open>api/operations.go\<close> and \<open>api/bootstrap.go\<close>: the operations of the service, the
  requirement each is registered with, the constraints their inputs declare, and the handlers
  that run a use case and turn its failure into a status.

  How huma turns such a handler into an HTTP one is the parameter \<open>adapt\<close>; nothing proved
  here depends on it.
\<close>

section \<open>Handlers\<close>

text \<open>A handler, by the input huma decodes for it and the body it returns.\<close>

type_synonym ('s, 'i, 'o) huma_fn = "ctx_ids \<Rightarrow> 'i \<Rightarrow> 's \<Rightarrow> (status_error + 'o) \<times> 's \<times> log_record list"

datatype 's operation_fn =
    OnNothing "('s, unit, HealthResponse) huma_fn"
  | OnCreate "('s, CreateRequest, Response) huma_fn"
  | OnUpdate "('s, UpdateRequest, Response) huma_fn"
  | OnGet "('s, gostring, Response) huma_fn"
  | OnDelete "('s, gostring, unit) huma_fn"

record 's repositories =
  rp_health :: "'s \<Rightarrow> (gostring \<rightharpoonup> gostring)"
  rp_profile :: "'s Repository"

record 's services =
  sv_health :: "'s \<Rightarrow> (gostring \<rightharpoonup> gostring)"
  sv_profile :: "'s Repository"

definition initRepositories ::
  "(duration \<Rightarrow> gostring) \<Rightarrow> (db \<Rightarrow> gerror option \<times> pool_stat) \<Rightarrow> pg_env \<Rightarrow> db repositories" where
  "initRepositories dur_string ping pg =
     \<lparr>rp_health = (\<lambda>s. HealthRepository_Health dur_string (ping s)), rp_profile = NewProfileRepository pg\<rparr>"

definition initServices :: "'s repositories \<Rightarrow> 's services" where
  "initServices s = \<lparr>sv_health = rp_health s, sv_profile = rp_profile s\<rparr>"

text \<open>The failure branch every handler shares: \<open>return nil, apiError(ctx, err)\<close>.\<close>

definition fail_with :: "ctx_ids \<Rightarrow> gerror \<Rightarrow> 's \<Rightarrow> log_record list \<Rightarrow> (status_error + 'o) \<times> 's \<times> log_record list" where
  "fail_with ids err s logs =
     (case apiError ids (Some err) of
        (Some e, l) \<Rightarrow> (Inl e, s, logs @ l)
      | (None, l) \<Rightarrow> (Inl (statusError ErrInternal), s, logs @ l))"

definition health_live :: "('s, unit, HealthResponse) huma_fn" where
  "health_live ids _ s = (case Live of Inl err \<Rightarrow> fail_with ids err s [] | Inr res \<Rightarrow> (Inr res, s, []))"

definition readiness :: "'s services \<Rightarrow> ('s, unit, HealthResponse) huma_fn" where
  "readiness svc ids _ s =
     (case Check ids (sv_health svc s) of
        (Inl err, logs) \<Rightarrow> fail_with ids err s logs
      | (Inr res, logs) \<Rightarrow> (Inr res, s, logs))"

definition create_profile :: "'s services \<Rightarrow> ('s, CreateRequest, Response) huma_fn" where
  "create_profile svc ids body s =
     (case svc_Create (sv_profile svc) ids body s of
        (Inl err, s', logs) \<Rightarrow> fail_with ids err s' logs
      | (Inr res, s', logs) \<Rightarrow> (Inr res, s', logs))"

definition update_profile :: "'s services \<Rightarrow> ('s, UpdateRequest, Response) huma_fn" where
  "update_profile svc ids body s =
     (case svc_Update (sv_profile svc) ids body s of
        (Inl err, s', logs) \<Rightarrow> fail_with ids err s' logs
      | (Inr res, s', logs) \<Rightarrow> (Inr res, s', logs))"

definition get_profile :: "'s services \<Rightarrow> ('s, gostring, Response) huma_fn" where
  "get_profile svc ids i s =
     (case svc_GetById (sv_profile svc) ids \<lparr>get_Id = i\<rparr> s of
        (Inl err, s', logs) \<Rightarrow> fail_with ids err s' logs
      | (Inr res, s', logs) \<Rightarrow> (Inr res, s', logs))"

definition delete_profile :: "'s services \<Rightarrow> ('s, gostring, unit) huma_fn" where
  "delete_profile svc ids i s =
     (case svc_DeleteById (sv_profile svc) ids \<lparr>delete_Id = i\<rparr> s of
        (Inl err, s', logs) \<Rightarrow> fail_with ids err s' logs
      | (Inr _, s', logs) \<Rightarrow> (Inr (), s', logs))"

section \<open>Declared constraints\<close>

text \<open>
  The \<open>minLength\<close>, \<open>maxLength\<close> and \<open>pattern\<close> tags of the inputs; JSON Schema counts
  characters.
\<close>

definition name_valid :: "gostring \<Rightarrow> bool" where
  "name_valid n \<longleftrightarrow> 1 \<le> length (runes n) \<and> length (runes n) \<le> 72"

definition CreateRequest_valid :: "CreateRequest \<Rightarrow> bool" where
  "CreateRequest_valid q \<longleftrightarrow> name_valid (create_FirstName q) \<and> name_valid (create_LastName q)"

definition UpdateRequest_valid :: "UpdateRequest \<Rightarrow> bool" where
  "UpdateRequest_valid q \<longleftrightarrow>
     uuid_pattern (update_Id q) \<and> name_valid (update_FirstName q) \<and> name_valid (update_LastName q)"

definition profileIdInput_valid :: "gostring \<Rightarrow> bool" where
  "profileIdInput_valid i = uuid_pattern i"

section \<open>Registration\<close>

definition scopeProfileRead :: gostring where "scopeProfileRead = ''profile:read''"
definition scopeProfileWrite :: gostring where "scopeProfileWrite = ''profile:write''"
definition roleAdmin :: gostring where "roleAdmin = ''admin''"

definition plain_operation :: "gostring \<Rightarrow> gostring \<Rightarrow> gostring \<Rightarrow> int \<Rightarrow> int \<Rightarrow> 's operation" where
  "plain_operation opid method path status max_body =
     \<lparr>op_OperationID = opid, op_Method = method, op_Path = path, op_DefaultStatus = status,
      op_MaxBodyBytes = max_body, op_Security = None, op_Middlewares = [], op_Errors = []\<rparr>"

definition registerHealth :: "'s services \<Rightarrow> ('s operation \<times> 's operation_fn) list" where
  "registerHealth svc =
     [(plain_operation ''health-live'' ''GET'' ''/health/live'' 0 0, OnNothing health_live),
      (plain_operation ''health-ready'' ''GET'' ''/health/ready'' 0 0, OnNothing (readiness svc)),
      (plain_operation ''health'' ''GET'' ''/health'' 0 0, OnNothing (readiness svc))]"

definition registerProfile ::
  "write_err \<Rightarrow> 's services \<Rightarrow> int \<Rightarrow> guard option \<Rightarrow> ('s operation \<times> 's operation_fn) list" where
  "registerProfile WriteErr svc maxBodyBytes g =
     [(secured WriteErr (plain_operation ''create-profile'' ''POST'' ''/api/v1/profile'' 201 maxBodyBytes)
         (Scope [scopeProfileWrite]) g, OnCreate (create_profile svc)),
      (secured WriteErr (plain_operation ''update-profile'' ''PUT'' ''/api/v1/profile'' 0 maxBodyBytes)
         (Scope [scopeProfileWrite]) g, OnUpdate (update_profile svc)),
      (secured WriteErr (plain_operation ''get-profile'' ''GET'' ''/api/v1/profile/{id}'' 0 0)
         (Scope [scopeProfileRead]) g, OnGet (get_profile svc)),
      (secured WriteErr (plain_operation ''delete-profile'' ''DELETE'' ''/api/v1/profile/{id}'' 204 0)
         (AllOf [Scope [scopeProfileWrite], Role [roleAdmin]]) g, OnDelete (delete_profile svc))]"

definition registerOperations ::
  "write_err \<Rightarrow> 's services \<Rightarrow> int \<Rightarrow> guard option \<Rightarrow> ('s operation \<times> 's operation_fn) list" where
  "registerOperations WriteErr s maxBodyBytes g = registerHealth s @ registerProfile WriteErr s maxBodyBytes g"

section \<open>Lemmas\<close>

lemma fail_with_simp [simp]:
  "fail_with ids err s logs =
     (Inl (statusError (TypeOf err)), s,
      logs @ [log_at ids LevelError ''request failed'' [(''error'', AError err), (''type'', AInt (TypeOf err))]])"
  by (simp add: fail_with_def apiError_def)

lemma Scope_satisfied: "Satisfied (Scope [n]) i \<longleftrightarrow> HasScope i n"
  by (simp add: Scope_def satisfied_iff)

lemma scope_and_role_satisfied:
  "Satisfied (AllOf [Scope [n], Role [m]]) i \<longleftrightarrow> HasScope i n \<and> HasRole i m"
  by (simp add: AllOf_def Scope_def Role_def cross_def satisfied_iff)

lemma name_valid_constraint: "name_valid n \<Longrightarrow> name_constraint n"
  by (auto simp: name_valid_def name_constraint_def runes_def)

lemma pattern_parses: "uuid_pattern i \<Longrightarrow> \<exists>u. uuid_parse i = Some u"
  by (simp add: uuid_parse_def)

section \<open>Properties\<close>

text \<open>The rule each protected operation is meant to enforce, by operation.\<close>

definition may :: "gostring \<Rightarrow> identity \<Rightarrow> bool" where
  "may opid i =
     (if opid = ''get-profile'' then HasScope i ''profile:read''
      else if opid = ''delete-profile'' then HasScope i ''profile:write'' \<and> HasRole i ''admin''
      else HasScope i ''profile:write'')"

lemmas operation_defs =
  registerProfile_def plain_operation_def scopeProfileRead_def scopeProfileWrite_def roleAdmin_def

lemma registered_guard:
  "list_all (\<lambda>(op, fn). \<exists>req. (\<forall>i. Satisfied req i = may (op_OperationID op) i)
      \<and> run_operation op = guard_middleware WriteErr g req (op_OperationID op))
    (registerProfile WriteErr svc maxBodyBytes (Some g))"
proof -
  have one: "\<exists>req. (\<forall>i. Satisfied req i = may opid i)
      \<and> run_operation (secured WriteErr (plain_operation opid m p st mb) r (Some g)) = guard_middleware WriteErr g req opid"
    if "\<And>i. Satisfied r i = may opid i" for opid m p st mb r
    using that
    by (intro exI [of _ r]) (simp add: secured_def Let_def run_operation_def plain_operation_def fun_eq_iff)
  have ident: "op_OperationID (secured WriteErr (plain_operation opid m p st mb) r (Some g)) = opid" for opid m p st mb r
    by (simp add: secured_def Let_def plain_operation_def)
  show ?thesis
    unfolding registerProfile_def
    by (simp add: ident del: HasScope_iff HasRole_iff)
       (intro conjI; rule one;
         simp add: Scope_satisfied scope_and_role_satisfied may_def scopeProfileRead_def scopeProfileWrite_def
           roleAdmin_def)
qed

text \<open>Every registered profile operation, run under any adapter, is decided by the guard.\<close>

lemma guarded_outcome:
  "list_all (\<lambda>(op, fn).
      (\<exists>token i. bearerToken (header_get r ''Authorization'') = Some token \<and> g_verifier g token = Inr i
         \<and> may (op_OperationID op) i
         \<and> run_operation op (adapt op fn) r s = adapt op fn (r\<lparr>rq_ctx := NewContext (rq_ctx r) i\<rparr>) s)
      \<or> (fst (run_operation op (adapt op fn) r s) = Returned \<and> st_app (snd (run_operation op (adapt op fn) r s)) = st_app s))
    (registerProfile WriteErr svc maxBodyBytes (Some g))"
proof (rule list.pred_mono_strong [OF registered_guard], clarify)
  fix op :: "'a operation" and fn :: "'a operation_fn" and req
  assume sat: "\<forall>i. Satisfied req i = may (op_OperationID op) i"
    and run: "run_operation op = guard_middleware WriteErr g req (op_OperationID op)"
    and other: "\<not> (fst (run_operation op (adapt op fn) r s) = Returned
      \<and> st_app (snd (run_operation op (adapt op fn) r s)) = st_app s)"
  show "\<exists>token i. bearerToken (header_get r ''Authorization'') = Some token \<and> g_verifier g token = Inr i
      \<and> may (op_OperationID op) i
      \<and> run_operation op (adapt op fn) r s = adapt op fn (r\<lparr>rq_ctx := NewContext (rq_ctx r) i\<rparr>) s"
  proof (cases "admitted g req r")
    case None
    then obtain reason extra where "run_operation op (adapt op fn) r s
        = deny WriteErr (op_OperationID op) (refusal g r) reason extra r s"
      using guard_refuses [OF None, of WriteErr "op_OperationID op" "adapt op fn" s] by (auto simp: run)
    with other show ?thesis by simp
  next
    case (Some i)
    then have "Satisfied req i \<and> (\<exists>token. bearerToken (header_get r ''Authorization'') = Some token \<and> g_verifier g token = Inr i)"
      by (auto simp: admitted_def authorizationHeader_def split: option.splits sum.splits if_splits)
    with sat guard_admits [OF Some, of WriteErr "op_OperationID op" "adapt op fn" s] show ?thesis
      by (auto simp: run)
  qed
qed

text \<open>
  C4: with authentication on, every profile operation either runs its handler under an identity
  that the verifier accepted and that holds what the operation requires (for deletion the write
  scope and the admin role together), or answers without running anything: the stored profiles
  are exactly as before.  This holds for any way of adapting handlers to HTTP.
\<close>

theorem profile_operations_guarded:
  "list_all (\<lambda>(op, fn).
      (\<exists>token i. bearerToken (header_get r ''Authorization'') = Some token \<and> g_verifier g token = Inr i
         \<and> may (op_OperationID op) i
         \<and> run_operation op (adapt op fn) r s = adapt op fn (r\<lparr>rq_ctx := NewContext (rq_ctx r) i\<rparr>) s)
      \<or> (fst (run_operation op (adapt op fn) r s) = Returned \<and> st_app (snd (run_operation op (adapt op fn) r s)) = st_app s))
    (registerProfile WriteErr svc maxBodyBytes (Some g))"
  by (rule guarded_outcome)

text \<open>
  The answer to reading a profile.  A request that ran out of time is 503, an absent profile
  404, a driver failure or an unreadable identifier 500, each with fixed wording; otherwise the
  stored names are returned under the canonical identifier.
\<close>

lemma get_profile_answers:
  assumes "db_reachable pg s"
  shows "(case get_profile (initServices (initRepositories dur_string ping pg)) ids i s of
      (Inl se, _) \<Rightarrow> Inl (se_status se, se_detail se)
    | (Inr p, _) \<Rightarrow> Inr (res_Id p, res_FirstName p, res_LastName p)) =
    (case pg_fault pg (db_tick s) (SelectProfile i) of
       Some (FailOther msg net) \<Rightarrow> Inl (500, ''internal server error'')
     | Some _ \<Rightarrow> Inl (503, ''service unavailable'')
     | None \<Rightarrow>
         (case uuid_parse i of
            None \<Rightarrow> Inl (500, ''internal server error'')
          | Some u \<Rightarrow>
              (case db_table s u of
                 None \<Rightarrow> Inl (404, ''not found'')
               | Some w \<Rightarrow> Inr (uuid_string u, row_first_name w, row_last_name w))))"
proof -
  let ?svc = "svc_GetById (NewProfileRepository pg) ids \<lparr>get_Id = i\<rparr> s"
  have "(case get_profile (initServices (initRepositories dur_string ping pg)) ids i s of
      (Inl se, _) \<Rightarrow> Inl (se_status se, se_detail se)
    | (Inr p, _) \<Rightarrow> Inr (res_Id p, res_FirstName p, res_LastName p))
    = (case (case ?svc of (Inl e, _) \<Rightarrow> Inl (TypeOf e) | (Inr p, _) \<Rightarrow> Inr (res_Id p, res_FirstName p, res_LastName p)) of
         Inl t \<Rightarrow> Inl (se_status (statusError t), se_detail (statusError t)) | Inr x \<Rightarrow> Inr x)"
    by (simp add: get_profile_def initServices_def initRepositories_def split: prod.split sum.split)
  then show ?thesis
    unfolding svc_GetById_outcome [OF assms, of ids i] by (simp split: option.split driver_failure.split)
qed

text \<open>
  A request that meets its declared constraints fails for the database's own reasons or
  because the profile does not exist, and for no other.  With the statement executed and the new
  key unused, a valid creation succeeds, and a valid update, read or deletion succeeds exactly
  when the profile is stored and is 404 otherwise; no table constraint and no malformed
  identifier is ever reached.
\<close>

lemma valid_requests_fail_only_with_404:
  assumes "db_reachable pg s" and "\<And>stm. pg_fault pg (db_tick s) stm = None"
    and "db_table s (pg_gen_uuid pg (db_tick s)) = None"
    and "CreateRequest_valid creq" and "UpdateRequest_valid ureq" and "profileIdInput_valid i"
    and "svc = initServices (initRepositories dur_string ping pg)"
  shows "is_ok (fst (create_profile svc ids creq s))
    \<and> (case fst (update_profile svc ids ureq s) of
         Inl se \<Rightarrow> se_status se = 404 \<and> db_table s (the (uuid_parse (update_Id ureq))) = None
       | Inr res \<Rightarrow> db_table s (the (uuid_parse (update_Id ureq))) \<noteq> None)
    \<and> (case fst (get_profile svc ids i s) of
         Inl se \<Rightarrow> se_status se = 404 \<and> db_table s (the (uuid_parse i)) = None
       | Inr res \<Rightarrow> db_table s (the (uuid_parse i)) \<noteq> None)
    \<and> (case fst (delete_profile svc ids i s) of
         Inl se \<Rightarrow> se_status se = 404 \<and> db_table s (the (uuid_parse i)) = None
       | Inr res \<Rightarrow> db_table s (the (uuid_parse i)) \<noteq> None)"
proof -
  have wf: "well_formed s" using assms(1) by (rule db_reachable_well_formed)
  have profile: "sv_profile svc = NewProfileRepository pg"
    by (simp add: assms(7) initServices_def initRepositories_def)
  obtain u where u: "uuid_parse (update_Id ureq) = Some u"
    using assms(5) pattern_parses by (auto simp: UpdateRequest_valid_def)
  obtain v where v: "uuid_parse i = Some v"
    using assms(6) pattern_parses by (auto simp: profileIdInput_valid_def)
  have "is_ok (fst (svc_Create (NewProfileRepository pg) ids creq s))"
    using assms(2,3,4) by (intro svc_Create_ok) (simp_all add: CreateRequest_valid_def name_valid_constraint)
  then have "is_ok (fst (create_profile svc ids creq s))"
    by (auto simp: create_profile_def profile is_ok_def split: prod.splits sum.splits)
  moreover have "(case fst (svc_Update (NewProfileRepository pg) ids ureq s) of
      Inl e \<Rightarrow> TypeOf e = ErrNotFound \<and> db_table s u = None | Inr res \<Rightarrow> db_table s u \<noteq> None)"
    using assms(2,5) u by (intro svc_Update_outcome [OF wf]) (simp_all add: UpdateRequest_valid_def name_valid_constraint)
  moreover note svc_GetById_outcome [OF assms(1), of ids i] svc_DeleteById_outcome [OF assms(2) v, of ids]
  ultimately show ?thesis
    using u v assms(2)
    by (auto simp: update_profile_def get_profile_def delete_profile_def profile split: prod.splits sum.splits option.splits)
qed

end
