(* ===== verification/Router.thy ===== *)
theory Router
  imports Operations
begin

text \<open>
  The rest of \<open>api/\<close> that assembles the service: list parsing and CORS (\<open>cors.go\<close>), the
  body limit, the request timeout, the client's address and the rate limiter, the middleware
  stack and the router (\<open>router.go\<close>), the schema names (\<open>schema.go\<close>) and the HTTP
  server's settings (\<open>server.go\<close>).

  The stack is a list of layers with the settings the configuration gives them.  A layer that
  chi, cors or httprate implements runs as the parameter \<open>stack_lib\<close> says; those written here
  run as modelled in \<open>Http\<close>.
\<close>

section \<open>CORS\<close>

definition corsMaxAge :: int where
  "corsMaxAge = 300"

text \<open>The loop over the parts; the nil slice of no entries is the empty list.\<close>

fun splitList_loop :: "gostring list \<Rightarrow> gostring list \<Rightarrow> gostring list" where
  "splitList_loop [] out = out"
| "splitList_loop (part # parts) out =
     (let trimmed = trim_space part in
      splitList_loop parts (if trimmed \<noteq> [] then out @ [trimmed] else out))"

definition splitList :: "gostring \<Rightarrow> gostring list" where
  "splitList v = splitList_loop (split_byte CHR '','' v) []"

record cors_options =
  AllowedOrigins :: "gostring list"
  AllowedMethods :: "gostring list"
  AllowedHeaders :: "gostring list"
  AllowCredentials :: bool
  MaxAge :: int

definition corsMiddleware :: "HTTPConfig \<Rightarrow> cors_options option" where
  "corsMiddleware cfg =
     (let origins = splitList (cors_Origins (http_Cors cfg)) in
      if length origins = 0 then None
      else Some \<lparr>AllowedOrigins = origins,
                 AllowedMethods = splitList (cors_Methods (http_Cors cfg)),
                 AllowedHeaders = splitList (cors_Headers (http_Cors cfg)),
                 AllowCredentials = (\<not> List.member origins ''*''),
                 MaxAge = corsMaxAge\<rparr>)"

section \<open>Limits\<close>

definition bodyLimit :: "HTTPConfig \<Rightarrow> int option" where
  "bodyLimit cfg = (if http_MaxBodyBytes cfg \<le> 0 then None else Some (http_MaxBodyBytes cfg))"

definition requestTimeout :: "HTTPConfig \<Rightarrow> duration option" where
  "requestTimeout cfg = (if http_RequestTimeout cfg \<le> 0 then None else Some (http_RequestTimeout cfg))"

datatype client_ip_source = ClientIPFromXFFTrustedProxies int | ClientIPFromHeader gostring | ClientIPFromRemoteAddr

definition clientIPResolver :: "HTTPConfig \<Rightarrow> client_ip_source" where
  "clientIPResolver cfg =
     (let ip = http_ClientIP cfg in
      if cip_From ip = ''xff'' then ClientIPFromXFFTrustedProxies (cip_TrustedProxies ip)
      else if cip_From ip = ''header'' then
        (if cip_TrustedHeader ip = [] then ClientIPFromRemoteAddr else ClientIPFromHeader (cip_TrustedHeader ip))
      else ClientIPFromRemoteAddr)"

text \<open>\<open>strings.IndexByte\<close> and \<open>LastIndexByte\<close>; \<open>None\<close> is \<open>-1\<close>.\<close>

definition index_byte :: "char \<Rightarrow> gostring \<Rightarrow> nat option" where
  "index_byte c s = (let n = length (takeWhile (\<lambda>d. d \<noteq> c) s) in if n = length s then None else Some n)"

definition last_index_byte :: "char \<Rightarrow> gostring \<Rightarrow> nat option" where
  "last_index_byte c s = map_option (\<lambda>n. length s - Suc n) (index_byte c (rev s))"

text \<open>\<open>net.SplitHostPort\<close>: host and port, or \<open>None\<close> for any of its errors.\<close>

definition SplitHostPort :: "gostring \<Rightarrow> (gostring \<times> gostring) option" where
  "SplitHostPort hp =
     (case last_index_byte CHR '':'' hp of
        None \<Rightarrow> None
      | Some i \<Rightarrow>
          (let parsed =
             (if hp ! 0 = CHR ''['' then
                (case index_byte CHR '']'' hp of
                   None \<Rightarrow> None
                 | Some e \<Rightarrow>
                     if e + 1 = length hp then None
                     else if e + 1 = i then Some (drop 1 (take e hp), 1, e + 1)
                     else None)
              else if List.member (take i hp) CHR '':'' then None
              else Some (take i hp, 0, 0))
           in case parsed of
                None \<Rightarrow> None
              | Some (host, j, k) \<Rightarrow>
                  if List.member (drop j hp) CHR ''['' then None
                  else if List.member (drop k hp) CHR '']'' then None
                  else Some (host, drop (i + 1) hp)))"

definition clientIPKey :: "(gostring \<Rightarrow> gostring) \<Rightarrow> request \<Rightarrow> gostring" where
  "clientIPKey CanonicalizeIP r =
     (if cx_client_ip (rq_ctx r) \<noteq> [] then CanonicalizeIP (cx_client_ip (rq_ctx r))
      else CanonicalizeIP
        (case SplitHostPort (rq_remote_addr r) of None \<Rightarrow> rq_remote_addr r | Some (host, _) \<Rightarrow> host))"

text \<open>The limiter: how many requests in which window; its key is \<open>clientIPKey\<close>.\<close>

definition rateLimiter :: "HTTPConfig \<Rightarrow> (int \<times> duration) option" where
  "rateLimiter cfg =
     (if rl_Requests (http_RateLimit cfg) \<le> 0 \<or> rl_Window (http_RateLimit cfg) \<le> 0 then None
      else Some (rl_Requests (http_RateLimit cfg), rl_Window (http_RateLimit cfg)))"

section \<open>The middleware stack\<close>

datatype layer =
    Tracing
  | Correlation
  | AccessLog
  | CleanPath
  | Recoverer
  | Timeout duration
  | Heartbeat gostring
  | NoCache
  | AllowContentEncoding "gostring list"
  | BodyLimit int
  | Cors cors_options
  | MetricsLayer
  | ClientIP client_ip_source
  | RateLimit int duration

definition option_layer :: "('a \<Rightarrow> layer) \<Rightarrow> 'a option \<Rightarrow> layer list" where
  "option_layer f x = (case x of None \<Rightarrow> [] | Some a \<Rightarrow> [f a])"

text \<open>The layers in the order of the \<open>r.Use\<close> calls, and whether collectors were built.\<close>

definition defaultMiddlewares :: "Config \<Rightarrow> layer list \<times> bool" where
  "defaultMiddlewares cfg =
     (let h = cfg_Http cfg in
      ((if tr_Enabled (cfg_Tracing cfg) then [Tracing] else [])
       @ [Correlation, AccessLog, CleanPath, Recoverer]
       @ option_layer Timeout (requestTimeout h)
       @ [Heartbeat ''/'', NoCache, AllowContentEncoding [''deflate'', ''gzip'']]
       @ option_layer BodyLimit (bodyLimit h)
       @ option_layer Cors (corsMiddleware h)
       @ (if met_Enabled (http_Metrics h) then [MetricsLayer] else [])
       @ (case rateLimiter h of
            None \<Rightarrow> []
          | Some (n, window) \<Rightarrow> [ClientIP (clientIPResolver h), RateLimit n window]),
       met_Enabled (http_Metrics h)))"

record 's stack_lib =
  sl_CleanPath :: "'s middleware"
  sl_Timeout :: "duration \<Rightarrow> 's middleware"
  sl_Heartbeat :: "gostring \<Rightarrow> 's middleware"
  sl_NoCache :: "'s middleware"
  sl_AllowContentEncoding :: "gostring list \<Rightarrow> 's middleware"
  sl_Cors :: "cors_options \<Rightarrow> 's middleware"
  sl_ClientIP :: "client_ip_source \<Rightarrow> 's middleware"
  sl_LimitBy :: "int \<Rightarrow> duration \<Rightarrow> (request \<Rightarrow> gostring) \<Rightarrow> 's middleware"
  sl_CanonicalizeIP :: "gostring \<Rightarrow> gostring"

text \<open>\<open>http.MaxBytesReader\<close>: reads of the body stop at the limit; an outer limit also holds.\<close>

definition bodyLimit_handler :: "int \<Rightarrow> 's middleware" where
  "bodyLimit_handler n next r s =
     next (r\<lparr>rq_body_limit := Some (case rq_body_limit r of None \<Rightarrow> n | Some m \<Rightarrow> min m n)\<rparr>) s"

fun apply_layer :: "http_env \<Rightarrow> 's stack_lib \<Rightarrow> HTTPConfig \<Rightarrow> layer \<Rightarrow> 's middleware" where
  "apply_layer env lib cfg Tracing = tracing env"
| "apply_layer env lib cfg Correlation = correlation env"
| "apply_layer env lib cfg AccessLog = accessLogger env cfg"
| "apply_layer env lib cfg CleanPath = sl_CleanPath lib"
| "apply_layer env lib cfg Recoverer = recoverer env"
| "apply_layer env lib cfg (Timeout d) = sl_Timeout lib d"
| "apply_layer env lib cfg (Heartbeat p) = sl_Heartbeat lib p"
| "apply_layer env lib cfg NoCache = sl_NoCache lib"
| "apply_layer env lib cfg (AllowContentEncoding es) = sl_AllowContentEncoding lib es"
| "apply_layer env lib cfg (BodyLimit n) = bodyLimit_handler n"
| "apply_layer env lib cfg (Cors opts) = sl_Cors lib opts"
| "apply_layer env lib cfg MetricsLayer = metrics_middleware env"
| "apply_layer env lib cfg (ClientIP src) = sl_ClientIP lib src"
| "apply_layer env lib cfg (RateLimit n w) = sl_LimitBy lib n w (clientIPKey (sl_CanonicalizeIP lib))"

fun chain :: "http_env \<Rightarrow> 's stack_lib \<Rightarrow> HTTPConfig \<Rightarrow> layer list \<Rightarrow> 's middleware" where
  "chain env lib cfg [] h = h"
| "chain env lib cfg (l # ls) h = apply_layer env lib cfg l (chain env lib cfg ls h)"

section \<open>Schema names\<close>

text \<open>A type as reflection describes it: pointers and slices around a named element.\<close>

datatype go_type = TNamed gostring gostring | TPointer go_type | TSlice go_type

fun elem_pkg :: "go_type \<Rightarrow> gostring" where
  "elem_pkg (TNamed pkg name) = pkg"
| "elem_pkg (TPointer t) = elem_pkg t"
| "elem_pkg (TSlice t) = elem_pkg t"

definition modulePath :: gostring where
  "modulePath = ''github.com/softika/gopherizer/''"

text \<open>\<open>strings.ToUpper\<close> on one byte; a byte that is no rune becomes the replacement rune.\<close>

definition upper_byte :: "char \<Rightarrow> gostring" where
  "upper_byte c =
     (if byte c < 128 then [if 97 \<le> byte c \<and> byte c \<le> 122 then char_of (byte c - 32) else c]
      else [char_of (0xEF :: nat), char_of (0xBF :: nat), char_of (0xBD :: nat)])"

definition schemaNamer :: "(go_type \<Rightarrow> gostring \<Rightarrow> gostring) \<Rightarrow> go_type \<Rightarrow> gostring \<Rightarrow> gostring" where
  "schemaNamer DefaultSchemaNamer t hint =
     (let name = DefaultSchemaNamer t hint;
          pkg = elem_pkg t
      in if \<not> has_prefix pkg modulePath then name
         else (let short = (case last_index_byte CHR ''/'' pkg of None \<Rightarrow> pkg | Some i \<Rightarrow> drop (i + 1) pkg)
               in case short of [] \<Rightarrow> name | c # rest \<Rightarrow> upper_byte c @ rest @ name))"

text \<open>
  huma's registry, by the arguments the code builds it from: the prefix of a reference and the
  naming function.
\<close>

record schema_registry =
  sr_prefix :: gostring
  sr_namer :: "go_type \<Rightarrow> gostring \<Rightarrow> gostring"

definition newSchemaRegistry :: "(go_type \<Rightarrow> gostring \<Rightarrow> gostring) \<Rightarrow> schema_registry" where
  "newSchemaRegistry DefaultSchemaNamer =
     \<lparr>sr_prefix = ''#/components/schemas/'', sr_namer = schemaNamer DefaultSchemaNamer\<rparr>"

section \<open>The router\<close>

record router_options =
  o_verifier :: "(gostring \<Rightarrow> gerror + identity) option"

definition WithVerifier :: "(gostring \<Rightarrow> gerror + identity) option \<Rightarrow> router_options \<Rightarrow> router_options" where
  "WithVerifier v opts = opts\<lparr>o_verifier := v\<rparr>"

text \<open>
  The parts of huma's configuration the code sets; the schema registry still takes huma's own
  naming function as an argument.
\<close>

datatype docs_renderer = DocsRendererStoplight | DocsRendererSwaggerUI

record openapi_config =
  oc_Title :: gostring
  oc_Version :: gostring
  oc_OpenAPIPath :: gostring
  oc_DocsPath :: gostring
  oc_DocsRenderer :: docs_renderer
  oc_Schemas :: "(go_type \<Rightarrow> gostring \<Rightarrow> gostring) \<Rightarrow> schema_registry"
  oc_SecuritySchemes :: "(gostring \<rightharpoonup> security_scheme) option"
  oc_CreateHooks :: nat

definition openApiConfig :: "(gostring \<Rightarrow> gostring \<Rightarrow> openapi_config) \<Rightarrow> Config \<Rightarrow> openapi_config" where
  "openApiConfig DefaultConfig cfg =
     (let c = DefaultConfig (app_Name (cfg_App cfg)) (app_Version (cfg_App cfg));
          c = c\<lparr>oc_OpenAPIPath := ''/openapi'', oc_DocsPath := ''/docs'', oc_DocsRenderer := DocsRendererSwaggerUI\<rparr>;
          c = c\<lparr>oc_Schemas := newSchemaRegistry\<rparr>;
          c = (if oidc_Enabled (cfg_Oidc cfg)
               then c\<lparr>oc_SecuritySchemes := Some [securitySchemeName \<mapsto> securityScheme (cfg_Oidc cfg)]\<rparr> else c)
      in c\<lparr>oc_CreateHooks := 0\<rparr>)"

record 's router =
  rt_environment :: gostring
  rt_layers :: "layer list"
  rt_scrape :: "gostring option"
  rt_openapi :: openapi_config
  rt_guard :: "guard option"
  rt_operations :: "('s operation \<times> 's operation_fn) list"
  rt_log :: "log_record list"

text \<open>A panic while building is \<open>Inl\<close>, with its message.\<close>

definition NewRouter ::
  "(gostring \<Rightarrow> gostring \<Rightarrow> openapi_config) \<Rightarrow> write_err \<Rightarrow> Config \<Rightarrow> 's services
   \<Rightarrow> (router_options \<Rightarrow> router_options) list \<Rightarrow> gostring + 's router" where
  "NewRouter DefaultConfig WriteErr cfg svc opts =
     (let o' = foldl (\<lambda>acc opt. opt acc) \<lparr>o_verifier = None\<rparr> opts in
      if oidc_Enabled (cfg_Oidc cfg) \<and> o_verifier o' = None
      then Inl ''api: oidc is enabled but no verifier was supplied; pass api.WithVerifier''
      else
        (let (layers, m) = defaultMiddlewares cfg;
             g = (if oidc_Enabled (cfg_Oidc cfg) then map_option (\<lambda>v. \<lparr>g_verifier = v\<rparr>) (o_verifier o') else None)
         in Inr \<lparr>rt_environment = app_Environment (cfg_App cfg),
                 rt_layers = layers,
                 rt_scrape = (if m then Some (metricsPath (cfg_Http cfg)) else None),
                 rt_openapi = openApiConfig DefaultConfig cfg,
                 rt_guard = g,
                 rt_operations = registerOperations WriteErr svc (http_MaxBodyBytes (cfg_Http cfg)) g,
                 rt_log = [log_at (None, None) LevelInfo ''api authentication'' [(''enabled'', ABool (g \<noteq> None))]]\<rparr>))"

section \<open>The server\<close>

definition defaultReadHeaderTimeout :: duration where
  "defaultReadHeaderTimeout = 10 * second"

record http_server =
  hs_Addr :: gostring
  hs_ReadTimeout :: duration
  hs_ReadHeaderTimeout :: duration
  hs_WriteTimeout :: duration
  hs_IdleTimeout :: duration
  hs_MaxHeaderBytes :: int

definition httpServer :: "HTTPConfig \<Rightarrow> http_server" where
  "httpServer cfg =
     (let t = http_ReadHeaderTimeout cfg;
          t = (if t \<le> 0 then defaultReadHeaderTimeout else t)
      in \<lparr>hs_Addr = http_Host cfg @ '':'' @ http_Port cfg,
          hs_ReadTimeout = http_ReadTimeout cfg, hs_ReadHeaderTimeout = t,
          hs_WriteTimeout = http_WriteTimeout cfg, hs_IdleTimeout = http_IdleTimeout cfg,
          hs_MaxHeaderBytes = 2 ^ 20\<rparr>)"

text \<open>
  \<open>Server\<close>: its configuration, and the nil pointer until \<open>Run\<close> assigns the
  \<open>*http.Server\<close>.  \<open>Run\<close> then listens, with an outcome of its own; \<open>Shutdown\<close>
  calls a method through the pointer, and a nil one is dereferenced there, which is
  \<open>None\<close>.
\<close>

record server =
  srv_cfg :: HTTPConfig
  srv_http :: "http_server option"

definition NewServer :: "HTTPConfig \<Rightarrow> server" where
  "NewServer cfg = \<lparr>srv_cfg = cfg, srv_http = None\<rparr>"

definition Server_Run :: "server \<Rightarrow> server" where
  "Server_Run s = s\<lparr>srv_http := Some (httpServer (srv_cfg s))\<rparr>"

definition Server_Shutdown :: "(http_server \<Rightarrow> 'r) \<Rightarrow> server \<Rightarrow> 'r option" where
  "Server_Shutdown http_Shutdown s = map_option http_Shutdown (srv_http s)"

section \<open>Lemmas on lists and addresses\<close>

lemma splitList_loop_append: "splitList_loop parts out = out @ splitList_loop parts []"
proof (induction parts arbitrary: out)
  case (Cons p parts)
  show ?case by (simp add: Let_def Cons [of "out @ [trim_space p]"] Cons [of "[trim_space p]"] Cons [of out])
qed simp

lemma splitList_filter: "splitList v = filter (\<lambda>w. w \<noteq> []) (map trim_space (split_byte CHR '','' v))"
proof -
  have "splitList_loop parts [] = filter (\<lambda>w. w \<noteq> []) (map trim_space parts)" for parts
    by (induction parts) (simp_all add: Let_def splitList_loop_append [of _ "[_]"])
  then show ?thesis by (simp add: splitList_def)
qed

lemma takeWhile_until: "c \<notin> set s \<Longrightarrow> takeWhile (\<lambda>d. d \<noteq> c) (s @ c # t) = s"
  by (induction s) auto

lemma index_byte_append: "c \<notin> set s \<Longrightarrow> index_byte c (s @ c # t) = Some (length s)"
  by (simp add: index_byte_def takeWhile_until Let_def)

lemma last_index_byte_append:
  "c \<notin> set t \<Longrightarrow> last_index_byte c (s @ c # t) = Some (length s)"
  using index_byte_append [of c "rev t" "rev s"] by (simp add: last_index_byte_def)

text \<open>The two forms of an address of a peer: a plain host, and one in brackets.\<close>

lemma SplitHostPort_plain:
  assumes "set h \<inter> {CHR '':'', CHR ''['', CHR '']''} = {}" and "set p \<inter> {CHR '':'', CHR ''['', CHR '']''} = {}"
  shows "SplitHostPort (h @ CHR '':'' # p) = Some (h, p)"
proof -
  have "(h @ CHR '':'' # p) ! 0 \<noteq> CHR ''[''" using assms by (cases h) auto
  then show ?thesis
    using assms by (auto simp: SplitHostPort_def last_index_byte_append Let_def)
qed

lemma SplitHostPort_brackets:
  assumes "set h \<inter> {CHR ''['', CHR '']''} = {}" and "set p \<inter> {CHR '':'', CHR ''['', CHR '']''} = {}"
  shows "SplitHostPort (CHR ''['' # h @ CHR '']'' # CHR '':'' # p) = Some (h, p)"
proof -
  have close: "index_byte CHR '']'' (CHR ''['' # h @ CHR '']'' # CHR '':'' # p) = Some (Suc (length h))"
    using index_byte_append [of "CHR '']''" "CHR ''['' # h" "CHR '':'' # p"] assms by simp
  have colon: "last_index_byte CHR '':'' (CHR ''['' # h @ CHR '']'' # CHR '':'' # p) = Some (Suc (Suc (length h)))"
    using last_index_byte_append [of "CHR '':''" p "CHR ''['' # h @ [CHR '']'']"] assms by simp
  from assms show ?thesis by (auto simp: SplitHostPort_def close colon Let_def)
qed

section \<open>Lemmas on the stack\<close>

lemma chain_append: "chain env lib cfg (ls @ ms) h = chain env lib cfg ls (chain env lib cfg ms h)"
  by (induction ls) auto

lemma default_stack_shape:
  "\<exists>inner. fst (defaultMiddlewares cfg) =
     (if tr_Enabled (cfg_Tracing cfg) then [Tracing] else []) @ [Correlation, AccessLog, CleanPath, Recoverer] @ inner
     \<and> list_all (\<lambda>l. l \<notin> {Tracing, Correlation, AccessLog, CleanPath, Recoverer}) inner"
  by (simp add: defaultMiddlewares_def Let_def option_layer_def split: option.split prod.split)

section \<open>Properties\<close>

text \<open>
  chi's \<open>CleanPath\<close>, as documented, only rewrites the path routing will use: it hands the
  request on and does nothing else.
\<close>

definition cleans_path :: "'s stack_lib \<Rightarrow> bool" where
  "cleans_path lib \<longleftrightarrow> (\<forall>next r s. \<exists>r'. sl_CleanPath lib next r s = next r' s)"

lemma recovered_chain:
  assumes "cleans_path lib"
  shows "(case fst (chain env lib cfg [Correlation, AccessLog, CleanPath, Recoverer] h r s) of
      Returned \<Rightarrow> True | Panicked p \<Rightarrow> deliberate_abort p)"
proof -
  obtain r1 s1 where corr: "correlation env (accessLogger env cfg (sl_CleanPath lib (recoverer env h))) r s
      = accessLogger env cfg (sl_CleanPath lib (recoverer env h)) r1 s1"
    by (simp add: correlation_def Let_def)
  obtain r2 where clean: "sl_CleanPath lib (recoverer env h) r1 s1 = recoverer env h r2 s1"
    using assms unfolding cleans_path_def by blast
  have "fst (chain env lib cfg [Correlation, AccessLog, CleanPath, Recoverer] h r s) = fst (recoverer env h r2 s1)"
    by (simp add: corr access.panics_pass clean)
  then show ?thesis by (auto split: completion.split intro: recoverer_escapes)
qed

lemma stack_eq:
  "fst (chain env lib cfg ((if t then [Tracing] else []) @ ls) h r s)
     = fst (chain env lib cfg ls h (if t then traced_request env r else r) s)"
  by (simp add: trace.panics_pass)

text \<open>
  C17: no panic of a handler, nor of any layer the router installs inside the recoverer, takes
  the connection down: for every configuration the stack completes, or passes on only the
  deliberate abort net/http defines.
\<close>

theorem stack_contains_panics:
  assumes "cleans_path lib"
  shows "(case fst (chain env lib (cfg_Http cfg) (fst (defaultMiddlewares cfg)) h r s) of
      Returned \<Rightarrow> True | Panicked p \<Rightarrow> deliberate_abort p)"
proof -
  obtain inner where inner: "fst (defaultMiddlewares cfg) =
     (if tr_Enabled (cfg_Tracing cfg) then [Tracing] else []) @ ([Correlation, AccessLog, CleanPath, Recoverer] @ inner)"
    using default_stack_shape [of cfg] by auto
  show ?thesis
    unfolding inner stack_eq
    unfolding chain_append [of _ _ _ "[Correlation, AccessLog, CleanPath, Recoverer]"] by (rule recovered_chain [OF assms])
qed

definition sample_lib :: "'s stack_lib" where
  "sample_lib = \<lparr>sl_CleanPath = (\<lambda>next r s. next (r\<lparr>rq_path := rq_path r\<rparr>) s),
     sl_Timeout = (\<lambda>d next r s. next (r\<lparr>rq_ctx := (rq_ctx r)\<lparr>cx_deadline := Some (st_now s + d)\<rparr>\<rparr>) s),
     sl_Heartbeat = (\<lambda>_ next. next), sl_NoCache = (\<lambda>next. next), sl_AllowContentEncoding = (\<lambda>_ next. next),
     sl_Cors = (\<lambda>_ next. next), sl_ClientIP = (\<lambda>_ next. next), sl_LimitBy = (\<lambda>_ _ _ next. next),
     sl_CanonicalizeIP = (\<lambda>ip. ip)\<rparr>"

lemma sample_lib_cleans: "cleans_path sample_lib"
  by (auto simp: cleans_path_def sample_lib_def)

theorem stack_contains_panics_witness:
  "(case fst (chain sample_env sample_lib (cfg_Http default_config) (fst (defaultMiddlewares default_config))
        (\<lambda>r s. (Panicked (PanicOther ''boom''), s)) (sample_request ''GET'' ''/x'') (fresh_http ())) of
      Returned \<Rightarrow> True | Panicked p \<Rightarrow> deliberate_abort p)"
  by (rule stack_contains_panics [OF sample_lib_cleans])

text \<open>
  The order of the stack.  Tracing is outermost, then the ids, the access log and the
  recoverer, and each of them occurs once.  The limiter is installed exactly when both its
  settings are positive; it is then innermost, directly inside the layer that resolves the
  client's address for its key.
\<close>

lemma stack_order:
  "\<exists>inner. fst (defaultMiddlewares cfg) =
      (if tr_Enabled (cfg_Tracing cfg) then [Tracing] else []) @ [Correlation, AccessLog, CleanPath, Recoverer] @ inner
      @ (if 0 < rl_Requests (http_RateLimit (cfg_Http cfg)) \<and> 0 < rl_Window (http_RateLimit (cfg_Http cfg))
         then [ClientIP (clientIPResolver (cfg_Http cfg)),
               RateLimit (rl_Requests (http_RateLimit (cfg_Http cfg))) (rl_Window (http_RateLimit (cfg_Http cfg)))]
         else [])
    \<and> list_all (\<lambda>l. l \<notin> {Tracing, Correlation, AccessLog, CleanPath, Recoverer}
        \<and> (case l of RateLimit n w \<Rightarrow> False | ClientIP src \<Rightarrow> False | _ \<Rightarrow> True)) inner
    \<and> (0 < http_RequestTimeout (cfg_Http cfg)) = (Timeout (http_RequestTimeout (cfg_Http cfg)) \<in> set inner)
    \<and> (0 < http_MaxBodyBytes (cfg_Http cfg)) = (BodyLimit (http_MaxBodyBytes (cfg_Http cfg)) \<in> set inner)"
  by (rule exI [of _ "option_layer Timeout (requestTimeout (cfg_Http cfg))
       @ [Heartbeat ''/'', NoCache, AllowContentEncoding [''deflate'', ''gzip'']]
       @ option_layer BodyLimit (bodyLimit (cfg_Http cfg))
       @ option_layer Cors (corsMiddleware (cfg_Http cfg))
       @ (if met_Enabled (http_Metrics (cfg_Http cfg)) then [MetricsLayer] else [])"])
     (auto simp: defaultMiddlewares_def Let_def option_layer_def rateLimiter_def requestTimeout_def bodyLimit_def
       split: option.split)

text \<open>
  Building the router fails closed.  It refuses a configuration that asks for authentication
  without a verifier; otherwise it has a guard, and documents the scheme, exactly when
  authentication is on, the guard uses the verifier given last, and the operations registered
  are those for that guard.
\<close>

lemma NewRouter_fails_closed:
  assumes "oc_SecuritySchemes (DefaultConfig (app_Name (cfg_App cfg)) (app_Version (cfg_App cfg))) = None"
  shows "(case NewRouter DefaultConfig WriteErr cfg svc (opts @ [WithVerifier v]) of
      Inl msg \<Rightarrow> oidc_Enabled (cfg_Oidc cfg) \<and> v = None
    | Inr rt \<Rightarrow>
        (rt_guard rt \<noteq> None) = oidc_Enabled (cfg_Oidc cfg)
        \<and> (oc_SecuritySchemes (rt_openapi rt) \<noteq> None) = oidc_Enabled (cfg_Oidc cfg)
        \<and> rt_guard rt = (if oidc_Enabled (cfg_Oidc cfg) then Some \<lparr>g_verifier = the v\<rparr> else None)
        \<and> rt_operations rt = registerOperations WriteErr svc (http_MaxBodyBytes (cfg_Http cfg)) (rt_guard rt))"
  using assms
  by (cases v) (simp_all add: NewRouter_def WithVerifier_def openApiConfig_def Let_def split: prod.split)

text \<open>
  Where a client's address comes from.  A proxy's header is believed only when the
  configuration names that model, and an incomplete or unknown model falls back to the socket;
  the fallback key of a peer is its host, in either form of a socket address, so its port
  never separates two requests.
\<close>

lemma client_address_trust:
  assumes "set h \<inter> {CHR '':'', CHR ''['', CHR '']''} = {}" and "set h6 \<inter> {CHR ''['', CHR '']''} = {}"
    and "set p \<inter> {CHR '':'', CHR ''['', CHR '']''} = {}" and "cx_client_ip (rq_ctx r) = []"
  shows "(clientIPResolver cfg = ClientIPFromXFFTrustedProxies n)
      = (cip_From (http_ClientIP cfg) = ''xff'' \<and> n = cip_TrustedProxies (http_ClientIP cfg))
    \<and> (clientIPResolver cfg = ClientIPFromHeader k)
      = (cip_From (http_ClientIP cfg) = ''header'' \<and> k = cip_TrustedHeader (http_ClientIP cfg) \<and> k \<noteq> [])
    \<and> clientIPKey canon (r\<lparr>rq_remote_addr := h @ '':'' @ p\<rparr>) = canon h
    \<and> clientIPKey canon (r\<lparr>rq_remote_addr := ''['' @ h6 @ '']:'' @ p\<rparr>) = canon h6"
  using SplitHostPort_plain [OF assms(1,3)] SplitHostPort_brackets [OF assms(2,3)] assms(4)
  by (auto simp: clientIPResolver_def clientIPKey_def Let_def)

text \<open>
  C37: the CORS policy.  The middleware is installed exactly when some origin remains after
  trimming and dropping blanks, and credentials are allowed exactly when no origin is the lone
  star; a pattern that contains a star among other characters does not count as one, so
  credentials are then allowed for every origin the pattern matches.
\<close>

theorem cors_credentials_policy:
  "(case corsMiddleware cfg of
      None \<Rightarrow> splitList (cors_Origins (http_Cors cfg)) = []
    | Some opts \<Rightarrow>
        AllowedOrigins opts \<noteq> []
        \<and> AllowedOrigins opts = filter (\<lambda>w. w \<noteq> []) (map trim_space (split_byte CHR '','' (cors_Origins (http_Cors cfg))))
        \<and> AllowCredentials opts = (''*'' \<notin> set (AllowedOrigins opts)))
   \<and> map_option AllowCredentials
       (corsMiddleware (cfg\<lparr>http_Cors := (http_Cors cfg)\<lparr>cors_Origins := ''https://*''\<rparr>\<rparr>)) = Some True"
proof
  show "(case corsMiddleware cfg of
      None \<Rightarrow> splitList (cors_Origins (http_Cors cfg)) = []
    | Some opts \<Rightarrow>
        AllowedOrigins opts \<noteq> []
        \<and> AllowedOrigins opts = filter (\<lambda>w. w \<noteq> []) (map trim_space (split_byte CHR '','' (cors_Origins (http_Cors cfg))))
        \<and> AllowCredentials opts = (''*'' \<notin> set (AllowedOrigins opts)))"
    by (simp add: corsMiddleware_def Let_def splitList_filter)
  have "ascii ''https://*''" by (simp add: byte_def)
  then have "trim_space ''https://*'' = ''https://*''"
    by (simp add: trim_space_def segments_ascii space_rune_def byte_def)
  then have "splitList ''https://*'' = [''https://*'']" by (simp add: splitList_filter)
  then show "map_option AllowCredentials
       (corsMiddleware (cfg\<lparr>http_Cors := (http_Cors cfg)\<lparr>cors_Origins := ''https://*''\<rparr>\<rparr>)) = Some True"
    by (simp add: corsMiddleware_def Let_def)
qed

end
