(* ===== verification/Collector.thy ===== *)
theory Collector
  imports Http Database
begin

text \<open>
  \<open>api/dbmetrics.go\<close> and the registry of \<open>api/metrics.go\<close>: the connection-pool
  collector, the build-info gauge, and the collectors a router registers.

  prometheus gathers a checked collector only if everything it collects was described, carries
  as many label values as its description names, and occurs once.  The locale \<open>collector\<close>
  states that contract; the pool collector and the build-info gauge are interpretations of it.
\<close>

section \<open>Descriptions and metrics\<close>

record desc =
  d_name :: gostring
  d_help :: gostring
  d_labels :: "gostring list"

datatype value_type = GaugeValue | CounterValue | HistogramValue

text \<open>
  \<open>float64(n)\<close> and \<open>Duration.Seconds\<close>, kept symbolic; a histogram by its count and its
  sum, without the buckets.
\<close>

datatype sample = Float64 int | Seconds duration | Histogram nat duration

record metric =
  m_desc :: desc
  m_type :: value_type
  m_value :: sample
  m_labels :: "gostring list"

text \<open>\<open>None\<close> is the panic on a wrong number of label values.\<close>

definition MustNewConstMetric :: "desc \<Rightarrow> value_type \<Rightarrow> sample \<Rightarrow> gostring list \<Rightarrow> metric option" where
  "MustNewConstMetric d t v labels =
     (if length labels = length (d_labels d)
      then Some \<lparr>m_desc = d, m_type = t, m_value = v, m_labels = labels\<rparr> else None)"

section \<open>Pool statistics\<close>

record poolStats =
  ps_MaxConns :: int
  ps_AcquiredConns :: int
  ps_IdleConns :: int
  ps_ConstructingConns :: int
  ps_AcquireCount :: int
  ps_EmptyAcquireCount :: int
  ps_CanceledAcquireCount :: int
  ps_AcquireDuration :: duration
  ps_MaxIdleDestroyCount :: int
  ps_MaxLifetimeDestroyCount :: int

definition zero_poolStats :: poolStats where
  "zero_poolStats =
     \<lparr>ps_MaxConns = 0, ps_AcquiredConns = 0, ps_IdleConns = 0, ps_ConstructingConns = 0,
      ps_AcquireCount = 0, ps_EmptyAcquireCount = 0, ps_CanceledAcquireCount = 0, ps_AcquireDuration = 0,
      ps_MaxIdleDestroyCount = 0, ps_MaxLifetimeDestroyCount = 0\<rparr>"

text \<open>A nil pool is \<open>None\<close>.\<close>

definition poolStatsFrom :: "pool_stat option \<Rightarrow> poolStats" where
  "poolStatsFrom pool =
     (case pool of
        None \<Rightarrow> zero_poolStats
      | Some s \<Rightarrow>
          \<lparr>ps_MaxConns = st_MaxConns s, ps_AcquiredConns = st_AcquiredConns s, ps_IdleConns = st_IdleConns s,
           ps_ConstructingConns = st_ConstructingConns s, ps_AcquireCount = st_AcquireCount s,
           ps_EmptyAcquireCount = st_EmptyAcquireCount s, ps_CanceledAcquireCount = st_CanceledAcquireCount s,
           ps_AcquireDuration = st_AcquireDuration s, ps_MaxIdleDestroyCount = st_MaxIdleDestroyCount s,
           ps_MaxLifetimeDestroyCount = st_MaxLifetimeDestroyCount s\<rparr>)"

section \<open>The pool collector\<close>

record poolCollector =
  pc_connections :: desc
  pc_maxConnections :: desc
  pc_acquires :: desc
  pc_acquireWaits :: desc
  pc_acquireCancels :: desc
  pc_acquireSeconds :: desc
  pc_closed :: desc

definition newPoolCollector :: poolCollector where
  "newPoolCollector =
     \<lparr>pc_connections = \<lparr>d_name = ''db_pool_connections'',
        d_help = ''Connections in the pool, by state.'', d_labels = [''state'']\<rparr>,
      pc_maxConnections = \<lparr>d_name = ''db_pool_connections_max'',
        d_help = ''Maximum size of the connection pool.'', d_labels = []\<rparr>,
      pc_acquires = \<lparr>d_name = ''db_pool_acquires_total'',
        d_help = ''Total number of connection acquisitions.'', d_labels = []\<rparr>,
      pc_acquireWaits = \<lparr>d_name = ''db_pool_acquire_waits_total'',
        d_help = ''Acquisitions that had to wait because the pool was empty.'', d_labels = []\<rparr>,
      pc_acquireCancels = \<lparr>d_name = ''db_pool_acquire_cancels_total'',
        d_help = ''Acquisitions cancelled before a connection became available.'', d_labels = []\<rparr>,
      pc_acquireSeconds = \<lparr>d_name = ''db_pool_acquire_duration_seconds_total'',
        d_help = ''Total duration of successful acquires, including time spent constructing new connections.'',
        d_labels = []\<rparr>,
      pc_closed = \<lparr>d_name = ''db_pool_connections_closed_total'',
        d_help = ''Connections closed by the pool, by reason.'', d_labels = [''reason'']\<rparr>\<rparr>"

definition pool_Describe :: "poolCollector \<Rightarrow> desc list" where
  "pool_Describe c =
     [pc_connections c, pc_maxConnections c, pc_acquires c, pc_acquireWaits c, pc_acquireCancels c,
      pc_acquireSeconds c, pc_closed c]"

definition pool_Collect :: "poolCollector \<Rightarrow> poolStats \<Rightarrow> metric option list" where
  "pool_Collect c s =
     (let gauge = (\<lambda>d v labels. MustNewConstMetric d GaugeValue v labels);
          counter = (\<lambda>d v labels. MustNewConstMetric d CounterValue v labels)
      in [gauge (pc_connections c) (Float64 (ps_AcquiredConns s)) [''acquired''],
          gauge (pc_connections c) (Float64 (ps_IdleConns s)) [''idle''],
          gauge (pc_connections c) (Float64 (ps_ConstructingConns s)) [''constructing''],
          gauge (pc_maxConnections c) (Float64 (ps_MaxConns s)) [],
          counter (pc_acquires c) (Float64 (ps_AcquireCount s)) [],
          counter (pc_acquireWaits c) (Float64 (ps_EmptyAcquireCount s)) [],
          counter (pc_acquireCancels c) (Float64 (ps_CanceledAcquireCount s)) [],
          counter (pc_acquireSeconds c) (Seconds (ps_AcquireDuration s)) [],
          counter (pc_closed c) (Float64 (ps_MaxIdleDestroyCount s)) [''idle''],
          counter (pc_closed c) (Float64 (ps_MaxLifetimeDestroyCount s)) [''lifetime'']])"

section \<open>Build information\<close>

definition build_info_desc :: desc where
  "build_info_desc = \<lparr>d_name = ''app_build_info'', d_help = ''Build and deployment identity of the running process.'',
     d_labels = [''name'', ''version'', ''environment'', ''go_version'']\<rparr>"

definition build_info :: "gostring \<Rightarrow> AppConfig \<Rightarrow> metric option" where
  "build_info go_version cfg =
     MustNewConstMetric build_info_desc GaugeValue (Float64 1)
        [app_Name cfg, app_Version cfg, app_Environment cfg, go_version]"

section \<open>The collectors of a router\<close>

definition http_labels :: "gostring list" where
  "http_labels = [''method'', ''route'', ''status'']"

definition requests_desc :: desc where
  "requests_desc = \<lparr>d_name = ''http_requests_total'', d_help = ''Total number of HTTP requests.'', d_labels = http_labels\<rparr>"

definition duration_desc :: desc where
  "duration_desc = \<lparr>d_name = ''http_request_duration_seconds'', d_help = ''HTTP request latency in seconds.'',
     d_labels = http_labels\<rparr>"

text \<open>A collector reads, at each scrape, what the middleware recorded and what the pool reports.\<close>

record scrape_state =
  sc_counts :: "request_labels list"
  sc_observed :: "observation list"
  sc_pool :: "pool_stat option"

record prom_collector =
  co_Describe :: "desc list"
  co_Collect :: "scrape_state \<Rightarrow> metric option list"

definition label_values :: "request_labels \<Rightarrow> gostring list" where
  "label_values l = [lb_method l, lb_route l, lb_status l]"

text \<open>The counter and the histogram vector: one series per combination of labels seen.\<close>

definition requests_vec :: prom_collector where
  "requests_vec =
     \<lparr>co_Describe = [requests_desc],
      co_Collect = (\<lambda>st. map (\<lambda>l. MustNewConstMetric requests_desc CounterValue
         (Float64 (int (count_list (sc_counts st) l))) (label_values l)) (remdups (sc_counts st)))\<rparr>"

definition duration_vec :: prom_collector where
  "duration_vec =
     \<lparr>co_Describe = [duration_desc],
      co_Collect = (\<lambda>st. map (\<lambda>l.
         (let obs = filter (\<lambda>ob. ob_labels ob = l) (sc_observed st)
          in MustNewConstMetric duration_desc HistogramValue
               (Histogram (length obs) (sum_list (map ob_elapsed obs))) (label_values l)))
         (remdups (map ob_labels (sc_observed st))))\<rparr>"

text \<open>The private registry; registering a name that is already described panics, which is \<open>None\<close>.\<close>

record metrics =
  m_registry :: "prom_collector list"

definition MustRegister :: "prom_collector \<Rightarrow> metrics \<Rightarrow> metrics option" where
  "MustRegister c m =
     (if list_ex (\<lambda>d. List.member (map d_name (concat (map co_Describe (m_registry m)))) (d_name d)) (co_Describe c)
      then None else Some (m\<lparr>m_registry := m_registry m @ [c]\<rparr>))"

definition withPoolStats :: "(scrape_state \<Rightarrow> poolStats) \<Rightarrow> metrics \<Rightarrow> metrics option" where
  "withPoolStats stats m =
     MustRegister \<lparr>co_Describe = pool_Describe newPoolCollector,
                   co_Collect = (\<lambda>st. pool_Collect newPoolCollector (stats st))\<rparr> m"

definition withBuildInfo :: "gostring \<Rightarrow> AppConfig \<Rightarrow> metrics \<Rightarrow> metrics option" where
  "withBuildInfo go_version cfg m =
     (case build_info go_version cfg of
        None \<Rightarrow> None
      | Some info \<Rightarrow> MustRegister \<lparr>co_Describe = [build_info_desc], co_Collect = (\<lambda>_. [Some info])\<rparr> m)"

text \<open>\<open>runtime\<close> are the Go and process collectors of the library.\<close>

definition register_each :: "metrics option \<Rightarrow> prom_collector list \<Rightarrow> metrics option" where
  "register_each m cs = foldl (\<lambda>m c. Option.bind m (MustRegister c)) m cs"

definition newMetrics :: "prom_collector list \<Rightarrow> (metrics \<Rightarrow> metrics option) list \<Rightarrow> metrics option" where
  "newMetrics runtime opts =
     foldl Option.bind (register_each (Some \<lparr>m_registry = []\<rparr>) ([requests_vec, duration_vec] @ runtime)) opts"

text \<open>\<open>handler\<close>, given \<open>promhttp.HandlerFor\<close> with its OpenMetrics option.\<close>

definition metrics_handler :: "(prom_collector list \<Rightarrow> bool \<Rightarrow> 'h) \<Rightarrow> metrics \<Rightarrow> 'h" where
  "metrics_handler HandlerFor m = HandlerFor (m_registry m) True"

section \<open>The contract of a collector\<close>

text \<open>One scrape of a collector: its metrics, or \<open>None\<close> when gathering fails or panics.\<close>

definition gather :: "desc list \<Rightarrow> metric option list \<Rightarrow> metric list option" where
  "gather ds ms =
     (if list_ex (\<lambda>m. m = None) ms then None
      else if \<not> list_all (\<lambda>m. List.member ds (m_desc (the m))) ms then None
      else if \<not> distinct (map (\<lambda>m. (d_name (m_desc (the m)), m_labels (the m))) ms) then None
      else Some (map the ms))"

locale collector =
  fixes Describe :: "desc list" and Collect :: "'st \<Rightarrow> metric option list"
  assumes no_panic: "list_all (\<lambda>m. m \<noteq> None) (Collect st)"
    and described: "list_all (\<lambda>m. m_desc (the m) \<in> set Describe) (Collect st)"
    and series_distinct: "distinct (map (\<lambda>m. (d_name (m_desc (the m)), m_labels (the m))) (Collect st))"
begin

lemma gather_succeeds: "gather Describe (Collect st) = Some (map the (Collect st))"
  using no_panic [of st] described [of st] series_distinct [of st]
  by (auto simp: gather_def list_all_iff list_ex_iff)

lemma every_sample_kept: "length (the (gather Describe (Collect st))) = length (Collect st)"
  by (simp add: gather_succeeds)

end

lemmas pool_collector_defs = pool_Collect_def pool_Describe_def newPoolCollector_def MustNewConstMetric_def Let_def

interpretation pool: collector "pool_Describe newPoolCollector" "pool_Collect newPoolCollector"
  by unfold_locales (simp_all add: pool_collector_defs)

interpretation build: collector "[build_info_desc]" "\<lambda>cfg. [build_info go_version cfg]" for go_version
  by unfold_locales (simp_all add: build_info_def build_info_desc_def MustNewConstMetric_def)

lemma label_values_inj: "label_values l = label_values l' \<longleftrightarrow> l = l'"
  by (cases l; cases l') (simp add: label_values_def)

lemma label_values_count: "length (label_values l) = length http_labels"
  by (simp add: label_values_def http_labels_def)

lemma distinct_map_labels: "distinct (map (\<lambda>x. (n, label_values x)) (remdups xs))"
  by (simp add: distinct_map inj_on_def label_values_inj)

interpretation requests: collector "co_Describe requests_vec" "co_Collect requests_vec"
  by unfold_locales
     (simp_all add: requests_vec_def MustNewConstMetric_def requests_desc_def label_values_count list_all_iff comp_def
       distinct_map_labels)

interpretation latencies: collector "co_Describe duration_vec" "co_Collect duration_vec"
  by unfold_locales
     (simp_all add: duration_vec_def MustNewConstMetric_def duration_desc_def label_values_count list_all_iff comp_def
       distinct_map_labels Let_def)

section \<open>Properties\<close>

text \<open>
  A scrape of the pool cannot fail and invents nothing.  Whatever the pool reports, and with
  no pool at all, gathering yields ten series under seven described names, the values being the
  pool's own counts and zero throughout when there is no pool.
\<close>

lemma pool_scrape_total:
  "(case gather (pool_Describe newPoolCollector) (pool_Collect newPoolCollector (poolStatsFrom pool)) of
      None \<Rightarrow> False
    | Some ms \<Rightarrow>
        length ms = 10
        \<and> map m_value ms =
            (case pool of
               None \<Rightarrow> replicate 7 (Float64 0) @ [Seconds 0] @ replicate 2 (Float64 0)
             | Some s \<Rightarrow>
                 map Float64 [st_AcquiredConns s, st_IdleConns s, st_ConstructingConns s, st_MaxConns s,
                   st_AcquireCount s, st_EmptyAcquireCount s, st_CanceledAcquireCount s]
                 @ [Seconds (st_AcquireDuration s)]
                 @ map Float64 [st_MaxIdleDestroyCount s, st_MaxLifetimeDestroyCount s]))"
  unfolding pool.gather_succeeds
  by (cases pool) (simp_all add: pool_collector_defs poolStatsFrom_def zero_poolStats_def numeral_eq_Suc)

section \<open>Lemmas on the registry\<close>

definition registered_names :: "metrics \<Rightarrow> gostring list" where
  "registered_names m = map d_name (concat (map co_Describe (m_registry m)))"

lemma MustRegister_Some:
  "MustRegister c m = Some m' \<longleftrightarrow>
     m' = m\<lparr>m_registry := m_registry m @ [c]\<rparr>
     \<and> list_all (\<lambda>d. d_name d \<notin> set (registered_names m)) (co_Describe c)"
  by (auto simp: MustRegister_def registered_names_def list_all_iff list_ex_iff)

lemma register_each_None [simp]: "register_each None cs = None"
  by (induction cs) (simp_all add: register_each_def)

lemma register_each_Cons: "register_each m (c # cs) = register_each (Option.bind m (MustRegister c)) cs"
  by (simp add: register_each_def)

lemma register_each_Some:
  "register_each (Some m) cs = Some m' \<Longrightarrow>
     m_registry m' = m_registry m @ cs
     \<and> list_all (\<lambda>c. list_all (\<lambda>d. d_name d \<notin> set (registered_names m)) (co_Describe c)) cs"
proof (induction cs arbitrary: m)
  case Nil
  then show ?case by (simp add: register_each_def)
next
  case (Cons c cs)
  show ?case
  proof (cases "MustRegister c m")
    case None
    with Cons.prems show ?thesis by (simp add: register_each_Cons)
  next
    case (Some m1)
    with Cons.prems have "register_each (Some m1) cs = Some m'" by (simp add: register_each_Cons)
    from Cons.IH [OF this] Some show ?thesis
      unfolding MustRegister_Some by (auto simp: registered_names_def list_all_iff)
  qed
qed

text \<open>One scrape of a registry: every collector is gathered, and one failure fails it.\<close>

fun gather_all :: "prom_collector list \<Rightarrow> scrape_state \<Rightarrow> metric list option" where
  "gather_all [] st = Some []"
| "gather_all (c # cs) st =
     (case gather (co_Describe c) (co_Collect c st) of
        None \<Rightarrow> None
      | Some ms \<Rightarrow> map_option (\<lambda>rest. ms @ rest) (gather_all cs st))"

lemma gather_all_Some:
  "list_all (\<lambda>c. gather (co_Describe c) (co_Collect c st) \<noteq> None) cs \<Longrightarrow>
     \<exists>ms. gather_all cs st = Some ms
       \<and> set ms = (\<Union>c \<in> set cs. set (the (gather (co_Describe c) (co_Collect c st))))"
  by (induction cs) auto

lemma gather_described: "gather ds ms = Some xs \<Longrightarrow> x \<in> set xs \<Longrightarrow> m_desc x \<in> set ds"
  by (auto simp: gather_def list_all_iff split: if_splits)

definition app_collectors :: "gostring \<Rightarrow> AppConfig \<Rightarrow> prom_collector list" where
  "app_collectors go_version app =
     [\<lparr>co_Describe = [build_info_desc], co_Collect = (\<lambda>_. [build_info go_version app])\<rparr>,
      \<lparr>co_Describe = pool_Describe newPoolCollector,
       co_Collect = (\<lambda>st. pool_Collect newPoolCollector (poolStatsFrom (sc_pool st)))\<rparr>]"

lemma app_names:
  "map d_name (concat (map co_Describe (app_collectors go_version app))) =
     [''app_build_info'', ''db_pool_connections'', ''db_pool_connections_max'', ''db_pool_acquires_total'',
      ''db_pool_acquire_waits_total'', ''db_pool_acquire_cancels_total'', ''db_pool_acquire_duration_seconds_total'',
      ''db_pool_connections_closed_total'']"
  by (simp add: app_collectors_def build_info_desc_def pool_Describe_def newPoolCollector_def)

definition no_app_name :: "prom_collector \<Rightarrow> bool" where
  "no_app_name c \<longleftrightarrow> list_all (\<lambda>d. \<not> has_prefix (d_name d) ''app_'' \<and> \<not> has_prefix (d_name d) ''db_pool_'') (co_Describe c)"

lemma router_registry:
  assumes "newMetrics runtime [] = Some m0" and "list_all no_app_name runtime"
  shows "\<exists>m. newMetrics runtime [withBuildInfo go_version app, withPoolStats (\<lambda>st. poolStatsFrom (sc_pool st))] = Some m
    \<and> m_registry m = [requests_vec, duration_vec] @ runtime @ app_collectors go_version app"
proof -
  have m0: "register_each (Some \<lparr>m_registry = []\<rparr>) ([requests_vec, duration_vec] @ runtime) = Some m0"
    using assms(1) by (simp add: newMetrics_def)
  then have reg0: "m_registry m0 = [requests_vec, duration_vec] @ runtime"
    using register_each_Some [OF m0] by simp
  have fresh: "n \<notin> set (registered_names m0)" if "has_prefix n ''app_'' \<or> has_prefix n ''db_pool_''" for n
    using that assms(2) unfolding registered_names_def reg0
    by (auto simp: no_app_name_def list_all_iff requests_vec_def duration_vec_def requests_desc_def duration_desc_def
        has_prefix_def)
  obtain info where info: "build_info go_version app = Some info"
    by (simp add: build_info_def build_info_desc_def MustNewConstMetric_def)
  let ?m1 = "m0\<lparr>m_registry := m_registry m0 @ [\<lparr>co_Describe = [build_info_desc], co_Collect = (\<lambda>_. [Some info])\<rparr>]\<rparr>"
  have 1: "withBuildInfo go_version app m0 = Some ?m1"
    using fresh by (simp add: withBuildInfo_def info MustRegister_Some build_info_desc_def has_prefix_def)
  have "list_all (\<lambda>d. d_name d \<notin> set (registered_names ?m1)) (pool_Describe newPoolCollector)"
    using fresh by (simp add: pool_Describe_def newPoolCollector_def registered_names_def build_info_desc_def has_prefix_def)
  then have 2: "withPoolStats (\<lambda>st. poolStatsFrom (sc_pool st)) ?m1 = Some
      (?m1\<lparr>m_registry := m_registry ?m1 @ [\<lparr>co_Describe = pool_Describe newPoolCollector,
         co_Collect = (\<lambda>st. pool_Collect newPoolCollector (poolStatsFrom (sc_pool st)))\<rparr>]\<rparr>)"
    by (simp add: withPoolStats_def MustRegister_Some)
  from m0 1 2 show ?thesis by (simp add: newMetrics_def reg0 app_collectors_def info)
qed

lemma requests_desc_alone:
  assumes "newMetrics runtime [] = Some m0"
    and "c \<in> set ([requests_vec, duration_vec] @ runtime @ app_collectors go_version app)" and "c \<noteq> requests_vec"
  shows "requests_desc \<notin> set (co_Describe c)"
proof -
  have "MustRegister requests_vec \<lparr>m_registry = []\<rparr> = Some \<lparr>m_registry = [requests_vec]\<rparr>"
    by (simp add: MustRegister_Some registered_names_def list_all_iff)
  then have "register_each (Some \<lparr>m_registry = [requests_vec]\<rparr>) (duration_vec # runtime) = Some m0"
    using assms(1) by (simp add: newMetrics_def register_each_Cons [of _ requests_vec])
  from register_each_Some [OF this] have "c \<in> set (duration_vec # runtime) \<Longrightarrow> requests_desc \<notin> set (co_Describe c)"
    by (auto simp: registered_names_def requests_vec_def list_all_iff)
  then show ?thesis
    using assms(2,3) by (auto simp: app_collectors_def requests_desc_def build_info_desc_def pool_Describe_def newPoolCollector_def)
qed

text \<open>A metric under the request counter's descriptor was collected by the collector that announced it.\<close>

lemma own_series:
  assumes "list_all (\<lambda>c. gather (co_Describe c) (co_Collect c st) \<noteq> None) cs"
    and alone: "\<And>c. c \<in> set cs \<Longrightarrow> c \<noteq> requests_vec \<Longrightarrow> requests_desc \<notin> set (co_Describe c)"
    and "c \<in> set cs" and x: "x \<in> set (the (gather (co_Describe c) (co_Collect c st)))"
  shows "m_desc x = requests_desc \<longleftrightarrow> c = requests_vec"
proof -
  obtain xs where xs: "gather (co_Describe c) (co_Collect c st) = Some xs"
    using assms(1,3) by (auto simp: list_all_iff)
  then have "m_desc x \<in> set (co_Describe c)" using gather_described x by simp
  moreover have "co_Describe requests_vec = [requests_desc]" by (simp add: requests_vec_def)
  ultimately show ?thesis using alone [OF assms(3)] by (cases "c = requests_vec") auto
qed

lemma requests_series:
  "(\<exists>x \<in> set (the (gather (co_Describe requests_vec) (co_Collect requests_vec st))).
      m_labels x = label_values l \<and> m_value x = Float64 n)
   = (n = int (count_list (sc_counts st) l) \<and> 0 < n)"
proof -
  have "l \<in> set xs \<longleftrightarrow> 0 < count_list xs l" for xs by (metis count_list_0_iff neq0_conv)
  then show ?thesis
    unfolding requests.gather_succeeds
    by (auto simp: requests_vec_def MustNewConstMetric_def requests_desc_def label_values_count label_values_inj)
qed

section \<open>Properties\<close>


definition go_info_desc :: desc where
  "go_info_desc = \<lparr>d_name = ''go_info'', d_help = ''Information about the Go environment.'', d_labels = [''version'']\<rparr>"

definition sample_runtime :: "prom_collector list" where
  "sample_runtime = [\<lparr>co_Describe = [go_info_desc],
     co_Collect = (\<lambda>_. [MustNewConstMetric go_info_desc GaugeValue (Float64 1) [''go1.26'']])\<rparr>]"

definition sample_scrape :: scrape_state where
  "sample_scrape =
     \<lparr>sc_counts = replicate 2 \<lparr>lb_method = ''GET'', lb_route = ''/health'', lb_status = ''200''\<rparr>,
      sc_observed = [], sc_pool = None\<rparr>"

lemma sample_runtime_registers: "\<exists>m0. newMetrics sample_runtime [] = Some m0"
  by (simp add: newMetrics_def register_each_def MustRegister_def sample_runtime_def requests_vec_def duration_vec_def
      requests_desc_def duration_desc_def go_info_desc_def)


end
