(* ===== verification/Serve.thy ===== *)
theory Serve
  imports Router
begin

text \<open>
  \<open>cmd/serve/serve.go\<close> and the commands of \<open>cmd/\<close>: the startup sequence, the shutdown
  of the server and the pool, and the interleaving of the main goroutine with the one that
  serves, as a step relation.  Each step is one access to state the two share: the server's
  \<open>http\<close> field, which \<open>Run\<close> sets and \<open>Shutdown\<close> dereferences, and the variable
  \<open>err\<close>, which both goroutines assign and test.
\<close>

section \<open>Shutdown\<close>

datatype shutdown_event = ServerShutdown | DatabaseClosed

text \<open>Given what the server and the pool report; the events record that both are always called.\<close>

definition shutdown :: "gerror option \<Rightarrow> gerror option \<Rightarrow> gerror option \<times> shutdown_event list" where
  "shutdown srv_err db_err =
     (let errs = [];
          errs = (case srv_err of None \<Rightarrow> errs
                  | Some err \<Rightarrow> errs @ [Wrapped ''failed to shut down http server'' err]);
          errs = (case db_err of None \<Rightarrow> errs
                  | Some err \<Rightarrow> errs @ [Wrapped ''failed to close database pool'' err])
      in (errors_join errs, [ServerShutdown, DatabaseClosed]))"

section \<open>Startup\<close>

text \<open>
  Startup either exits with status 1 and one message, or panics, or reaches the point where the
  server is started.  The outcomes of configuration, tracing, the database and discovery are
  arguments, the later ones as functions of the configuration.
\<close>

datatype 's startup =
    ExitWith int gostring gerror
  | StartupPanic gostring
  | Ready Config shutdown_func "'s router" server

definition startup ::
  "(gostring \<Rightarrow> gostring \<Rightarrow> openapi_config) \<Rightarrow> write_err
   \<Rightarrow> gerror + Config
   \<Rightarrow> (Config \<Rightarrow> gerror + shutdown_func)
   \<Rightarrow> (Config \<Rightarrow> gerror + 's services)
   \<Rightarrow> (gostring \<Rightarrow> duration \<Rightarrow> gerror + 'p)
   \<Rightarrow> ('p verifier \<Rightarrow> gostring \<Rightarrow> gerror + identity)
   \<Rightarrow> 's startup" where
  "startup DefaultConfig WriteErr config_result otel_result db_result discovery verify =
     (case config_result of
        Inl err \<Rightarrow> ExitWith 1 ''failed to read config'' err
      | Inr cfg \<Rightarrow>
          (case otel_result cfg of
             Inl err \<Rightarrow> ExitWith 1 ''failed to initialise tracing'' err
           | Inr flushTraces \<Rightarrow>
               (case db_result cfg of
                  Inl err \<Rightarrow> ExitWith 1 ''failed to connect to database'' err
                | Inr svc \<Rightarrow>
                    (case Init (cfg_Oidc cfg) discovery of
                       Inl err \<Rightarrow> ExitWith 1 ''failed to initialise oidc verification'' err
                     | Inr verifier \<Rightarrow>
                         (case NewRouter DefaultConfig WriteErr cfg svc [WithVerifier (map_option verify verifier)] of
                            Inl msg \<Rightarrow> StartupPanic msg
                          | Inr router \<Rightarrow> Ready cfg flushTraces router (NewServer (cfg_Http cfg)))))))"

section \<open>Serving and stopping\<close>

text \<open>Where each goroutine stands; the error a call returned is held until it is assigned.\<close>

datatype server_pc = SStart | SServing | SReturned gerror | SAssigned | SDone

datatype main_pc =
    MWaiting
  | MShuttingDown
  | MDraining
  | MShutdownReturned "gerror option"
  | MShutdownAssigned
  | MFlushReturned "gerror option"
  | MFlushAssigned
  | MDone

datatype process_end = Exited int | Crashed

record run_state =
  rs_err :: "gerror option"
  rs_srv :: server
  rs_closing :: bool
  rs_db_closed :: bool
  rs_flushed :: bool
  rs_server :: server_pc
  rs_main :: main_pc
  rs_end :: "process_end option"
  rs_log :: "gostring list"

definition run_init :: "HTTPConfig \<Rightarrow> run_state" where
  "run_init cfg = \<lparr>rs_err = None, rs_srv = NewServer cfg, rs_closing = False, rs_db_closed = False, rs_flushed = False,
     rs_server = SStart, rs_main = MWaiting, rs_end = None, rs_log = []\<rparr>"

definition server_closed :: gerror where
  "server_closed = Sentinel ErrServerClosed ''http: Server closed''"

definition says :: "gostring \<Rightarrow> run_state \<Rightarrow> run_state" where
  "says msg s = s\<lparr>rs_log := rs_log s @ [msg]\<rparr>"

text \<open>The signals that \<open>notifyShutdown\<close> cancels its context on.\<close>

datatype os_signal = Interrupt | SIGTERM | SIGKILL | OtherSignal nat

definition shutdownSignals :: "os_signal list" where
  "shutdownSignals = [Interrupt, SIGTERM]"

definition notifyShutdown :: "os_signal list" where
  "notifyShutdown = shutdownSignals"

text \<open>
  The steps, with the outcome each call reported.  \<open>ListenFails\<close> is \<open>ListenAndServe\<close>
  returning an error of its own while nobody asked the server to close; \<open>ServeStops\<close> is its
  return once \<open>Shutdown\<close> was called.
\<close>

datatype run_event =
    ServeBegins | ListenFails gerror | ServeStops | ServerAssigns | ServerTests
  | SignalArrives os_signal | ShutdownBegins | ShutdownReturns "gerror option" "gerror option" | ShutdownAssigned
  | ShutdownTested "gerror option" | FlushAssigned | FlushTested

definition err_is_closed :: "run_state \<Rightarrow> bool" where
  "err_is_closed s = (case rs_err s of None \<Rightarrow> False | Some e \<Rightarrow> errors_is e ErrServerClosed)"

definition server_tests :: "run_state \<Rightarrow> run_state" where
  "server_tests s =
     (if \<not> err_is_closed s
      then says ''server failed to run'' (s\<lparr>rs_server := SDone, rs_end := Some (Exited 1)\<rparr>)
      else says ''stopped serving new connections.'' (s\<lparr>rs_server := SDone\<rparr>))"

definition shutdown_begins :: "run_state \<Rightarrow> run_state" where
  "shutdown_begins s =
     (case Server_Shutdown (\<lambda>srv. s\<lparr>rs_closing := True, rs_main := MDraining\<rparr>) (rs_srv s) of
        None \<Rightarrow> s\<lparr>rs_end := Some Crashed\<rparr>
      | Some s' \<Rightarrow> s')"

definition shutdown_tested :: "gerror option \<Rightarrow> run_state \<Rightarrow> run_state" where
  "shutdown_tested flush_err s =
     (if rs_err s \<noteq> None then says ''graceful shutdown error'' s else s)
       \<lparr>rs_flushed := True, rs_main := MFlushReturned flush_err\<rparr>"

definition flush_tested :: "run_state \<Rightarrow> run_state" where
  "flush_tested s =
     says ''Graceful shutdown completed.''
       ((if rs_err s \<noteq> None then says ''failed to flush traces'' s else s)
          \<lparr>rs_main := MDone, rs_end := Some (Exited 0)\<rparr>)"

inductive run_step :: "run_state \<Rightarrow> run_event \<Rightarrow> run_state \<Rightarrow> bool" where
  "rs_end s = None \<Longrightarrow> rs_server s = SStart \<Longrightarrow>
     run_step s ServeBegins (says ''starting the server...'' (s\<lparr>rs_srv := Server_Run (rs_srv s), rs_server := SServing\<rparr>))"
| "rs_end s = None \<Longrightarrow> rs_server s = SServing \<Longrightarrow> \<not> rs_closing s \<Longrightarrow> \<not> errors_is e ErrServerClosed \<Longrightarrow>
     run_step s (ListenFails e) (s\<lparr>rs_server := SReturned e\<rparr>)"
| "rs_end s = None \<Longrightarrow> rs_server s = SServing \<Longrightarrow> rs_closing s \<Longrightarrow>
     run_step s ServeStops (s\<lparr>rs_server := SReturned server_closed\<rparr>)"
| "rs_end s = None \<Longrightarrow> rs_server s = SReturned e \<Longrightarrow>
     run_step s ServerAssigns (s\<lparr>rs_err := Some e, rs_server := SAssigned\<rparr>)"
| "rs_end s = None \<Longrightarrow> rs_server s = SAssigned \<Longrightarrow> run_step s ServerTests (server_tests s)"
| "rs_end s = None \<Longrightarrow> rs_main s = MWaiting \<Longrightarrow> sig \<in> set notifyShutdown \<Longrightarrow>
     run_step s (SignalArrives sig) (s\<lparr>rs_main := MShuttingDown\<rparr>)"
| "rs_end s = None \<Longrightarrow> rs_main s = MShuttingDown \<Longrightarrow> run_step s ShutdownBegins (shutdown_begins s)"
| "rs_end s = None \<Longrightarrow> rs_main s = MDraining \<Longrightarrow>
     run_step s (ShutdownReturns srv_err db_err)
       (s\<lparr>rs_db_closed := (DatabaseClosed \<in> set (snd (shutdown srv_err db_err))),
          rs_main := MShutdownReturned (fst (shutdown srv_err db_err))\<rparr>)"
| "rs_end s = None \<Longrightarrow> rs_main s = MShutdownReturned r \<Longrightarrow>
     run_step s ShutdownAssigned (s\<lparr>rs_err := r, rs_main := MShutdownAssigned\<rparr>)"
| "rs_end s = None \<Longrightarrow> rs_main s = MShutdownAssigned \<Longrightarrow>
     run_step s (ShutdownTested flush_err) (shutdown_tested flush_err s)"
| "rs_end s = None \<Longrightarrow> rs_main s = MFlushReturned r \<Longrightarrow>
     run_step s FlushAssigned (s\<lparr>rs_err := r, rs_main := MFlushAssigned\<rparr>)"
| "rs_end s = None \<Longrightarrow> rs_main s = MFlushAssigned \<Longrightarrow> run_step s FlushTested (flush_tested s)"

inductive_simps run_step_simps:
  "run_step s ServeBegins s'" "run_step s (ListenFails e) s'" "run_step s ServeStops s'"
  "run_step s ServerAssigns s'" "run_step s ServerTests s'" "run_step s (SignalArrives sig) s'"
  "run_step s ShutdownBegins s'" "run_step s (ShutdownReturns a b) s'" "run_step s ShutdownAssigned s'"
  "run_step s (ShutdownTested f) s'" "run_step s FlushAssigned s'" "run_step s FlushTested s'"

text \<open>A run is the sequence of its events.\<close>

inductive run_trace :: "HTTPConfig \<Rightarrow> run_event list \<Rightarrow> run_state \<Rightarrow> bool" for cfg where
  trace_starts: "run_trace cfg [] (run_init cfg)"
| trace_steps: "run_trace cfg es s \<Longrightarrow> run_step s e s' \<Longrightarrow> run_trace cfg (es @ [e]) s'"

section \<open>The process\<close>

text \<open>\<open>Execute\<close> of the root command, given cobra's result: the exit status.\<close>

definition cmd_Execute :: "gerror option \<Rightarrow> int" where
  "cmd_Execute err = (case err of None \<Rightarrow> 0 | Some e \<Rightarrow> 1)"

section \<open>Invariants\<close>

lemma says_simps [simp]:
  "rs_err (says m s) = rs_err s" "rs_srv (says m s) = rs_srv s" "rs_closing (says m s) = rs_closing s"
  "rs_db_closed (says m s) = rs_db_closed s" "rs_flushed (says m s) = rs_flushed s"
  "rs_server (says m s) = rs_server s" "rs_main (says m s) = rs_main s" "rs_end (says m s) = rs_end s"
  by (simp_all add: says_def)

lemma shutdown_closes: "snd (shutdown srv_err db_err) = [ServerShutdown, DatabaseClosed]"
  by (simp add: shutdown_def Let_def)

text \<open>What the main goroutine has done by the time it stands where it stands.\<close>

fun main_rank :: "main_pc \<Rightarrow> nat" where
  "main_rank MWaiting = 0"
| "main_rank MShuttingDown = 1"
| "main_rank MDraining = 2"
| "main_rank (MShutdownReturned r) = 3"
| "main_rank MShutdownAssigned = 4"
| "main_rank (MFlushReturned r) = 5"
| "main_rank MFlushAssigned = 6"
| "main_rank MDone = 7"

definition run_inv :: "run_state \<Rightarrow> bool" where
  "run_inv s \<longleftrightarrow>
     rs_closing s = (2 \<le> main_rank (rs_main s))
     \<and> rs_db_closed s = (3 \<le> main_rank (rs_main s))
     \<and> rs_flushed s = (5 \<le> main_rank (rs_main s))
     \<and> (rs_end s = Some (Exited 0)) = (main_rank (rs_main s) = 7)
     \<and> (srv_http (rs_srv s) \<noteq> None) = (rs_server s \<noteq> SStart)
     \<and> (2 \<le> main_rank (rs_main s) \<longrightarrow> srv_http (rs_srv s) \<noteq> None)
     \<and> (rs_end s = Some Crashed \<longrightarrow> srv_http (rs_srv s) = None)
     \<and> (rs_end s \<in> {None, Some (Exited 0), Some (Exited 1), Some Crashed})"

lemmas run_defs = server_tests_def shutdown_begins_def Server_Shutdown_def Server_Run_def shutdown_tested_def flush_tested_def

lemma run_step_inv: "run_step s e s' \<Longrightarrow> run_inv s \<Longrightarrow> run_inv s'"
  by (induction rule: run_step.induct) (auto simp: run_inv_def shutdown_closes run_defs split: option.splits)

lemma run_trace_inv: "run_trace cfg es s \<Longrightarrow> run_inv s"
proof (induction rule: run_trace.induct)
  case trace_starts
  show ?case by (simp add: run_inv_def run_init_def NewServer_def)
qed (rule run_step_inv)

text \<open>A trace can be followed from any state, one event at a time.\<close>

fun run_from :: "run_state \<Rightarrow> run_event list \<Rightarrow> run_state \<Rightarrow> bool" where
  "run_from s [] t = (t = s)"
| "run_from s (e # es) t = (\<exists>s'. run_step s e s' \<and> run_from s' es t)"

lemma run_from_trace: "run_from s es t \<Longrightarrow> run_trace cfg ds s \<Longrightarrow> run_trace cfg (ds @ es) t"
proof (induction es arbitrary: ds s)
  case (Cons e es)
  then obtain s' where "run_step s e s'" "run_from s' es t" by auto
  then show ?case using Cons.IH [of s' "ds @ [e]"] Cons.prems(2) trace_steps by fastforce
qed simp

lemma run_from_init: "run_from (run_init cfg) es t \<Longrightarrow> run_trace cfg es t"
  using run_from_trace [OF _ trace_starts] by simp

lemma startup_Ready_router:
  "startup DefaultConfig WriteErr config_result otel_result db_result discovery verify = Ready cfg flush router server
   \<Longrightarrow> \<exists>svc verifier. config_result = Inr cfg \<and> Init (cfg_Oidc cfg) discovery = Inr verifier
     \<and> NewRouter DefaultConfig WriteErr cfg svc [WithVerifier (map_option verify verifier)] = Inr router"
  by (auto simp: startup_def split: sum.splits)

lemma Init_enabled: "Init cfg discovery = Inr v \<Longrightarrow> (v \<noteq> None) = oidc_Enabled cfg"
  by (auto simp: Init_def split: if_splits sum.splits)

section \<open>Properties\<close>


text \<open>
  Shutting down always asks both the server and the pool to close, in that order, and loses
  neither failure: it reports an error exactly when one of them failed, and that error matches
  whatever either of them matches.
\<close>

lemma shutdown_reports_both:
  "snd (shutdown srv_err db_err) = [ServerShutdown, DatabaseClosed]
   \<and> (fst (shutdown srv_err db_err) = None) = (srv_err = None \<and> db_err = None)
   \<and> (case fst (shutdown srv_err db_err) of
        None \<Rightarrow> False | Some e \<Rightarrow> errors_is e target)
     = ((case srv_err of None \<Rightarrow> False | Some e \<Rightarrow> errors_is e target)
        \<or> (case db_err of None \<Rightarrow> False | Some e \<Rightarrow> errors_is e target))"
  by (cases srv_err; cases db_err) (simp_all add: shutdown_def errors_join_def Let_def)


definition orderly_events :: "run_event list" where
  "orderly_events =
     [ServeBegins, SignalArrives SIGTERM, ShutdownBegins, ServeStops, ServerAssigns, ServerTests,
      ShutdownReturns None None, ShutdownAssigned, ShutdownTested None, FlushAssigned, FlushTested]"

lemma shutdown_clean: "shutdown None None = (None, [ServerShutdown, DatabaseClosed])"
  by (simp add: shutdown_def errors_join_def)


text \<open>
  C24: the two goroutines race on \<open>err\<close> and on the server.  There is a run in which nothing
  fails, the server stops because it was told to, the pool is closed without error, and the
  process still reports that the server failed to run and exits 1; one in which the same
  success is reported as a shutdown error; and one in which a signal before the server starts
  crashes the process.
\<close>

theorem clean_shutdown_can_fail:
  "(\<exists>s. run_trace cfg [ServeBegins, SignalArrives SIGTERM, ShutdownBegins, ServeStops, ServerAssigns,
        ShutdownReturns None None, ShutdownAssigned, ServerTests] s
      \<and> rs_end s = Some (Exited 1) \<and> rs_log s = [''starting the server...'', ''server failed to run''])
   \<and> (\<exists>s. run_trace cfg [ServeBegins, SignalArrives SIGTERM, ShutdownBegins, ServeStops,
        ShutdownReturns None None, ShutdownAssigned, ServerAssigns, ShutdownTested None] s
      \<and> rs_log s = [''starting the server...'', ''graceful shutdown error''])
   \<and> (\<exists>s. run_trace cfg [SignalArrives SIGTERM, ShutdownBegins] s \<and> rs_end s = Some Crashed)"
proof (intro conjI)
  note steps = run_step_simps run_init_def NewServer_def notifyShutdown_def shutdownSignals_def run_defs err_is_closed_def server_closed_def shutdown_clean says_def
  show "\<exists>s. run_trace cfg [ServeBegins, SignalArrives SIGTERM, ShutdownBegins, ServeStops, ServerAssigns,
        ShutdownReturns None None, ShutdownAssigned, ServerTests] s
      \<and> rs_end s = Some (Exited 1) \<and> rs_log s = [''starting the server...'', ''server failed to run'']"
    by (rule exI, rule conjI, rule run_from_init, simp add: steps, simp)
  show "\<exists>s. run_trace cfg [ServeBegins, SignalArrives SIGTERM, ShutdownBegins, ServeStops,
        ShutdownReturns None None, ShutdownAssigned, ServerAssigns, ShutdownTested None] s
      \<and> rs_log s = [''starting the server...'', ''graceful shutdown error'']"
    by (rule exI, rule conjI, rule run_from_init, simp add: steps, simp)
  show "\<exists>s. run_trace cfg [SignalArrives SIGTERM, ShutdownBegins] s \<and> rs_end s = Some Crashed"
    by (rule exI, rule conjI, rule run_from_init, simp add: steps, simp)
qed

subsection \<open>Every run ends\<close>

fun server_rank :: "server_pc \<Rightarrow> nat" where
  "server_rank SStart = 0"
| "server_rank SServing = 1"
| "server_rank (SReturned e) = 2"
| "server_rank SAssigned = 3"
| "server_rank SDone = 4"

text \<open>
  How far a run has come: each goroutine's rank, where the step that crashes the process counts
  as the one it failed to take.
\<close>

definition progress :: "run_state \<Rightarrow> nat" where
  "progress s = server_rank (rs_server s) + main_rank (rs_main s) + (if rs_end s = Some Crashed then 1 else 0)"

lemma run_step_progress: "run_step s e s' \<Longrightarrow> progress s' = Suc (progress s)"
  by (induction rule: run_step.induct) (auto simp: progress_def run_defs split: option.splits)

lemma run_trace_progress: "run_trace cfg es s \<Longrightarrow> length es = progress s"
proof (induction rule: run_trace.induct)
  case trace_starts
  show ?case by (simp add: progress_def run_init_def)
next
  case (trace_steps es s e s')
  then show ?case using run_step_progress [of s e s'] by simp
qed

lemma progress_bound:
  assumes "run_inv s"
  shows "progress s \<le> 11"
proof -
  have "server_rank (rs_server s) \<le> 4" by (cases "rs_server s") auto
  moreover have "main_rank (rs_main s) \<le> 7" by (cases "rs_main s") auto
  moreover have "rs_end s = Some Crashed \<Longrightarrow> server_rank (rs_server s) = 0"
    using assms by (auto simp: run_inv_def)
  ultimately show ?thesis by (auto simp: progress_def)
qed

text \<open>What the main goroutine does next, once the signal has arrived.\<close>

fun main_next :: "main_pc \<Rightarrow> run_event" where
  "main_next MWaiting = SignalArrives SIGTERM"
| "main_next MShuttingDown = ShutdownBegins"
| "main_next MDraining = ShutdownReturns None None"
| "main_next (MShutdownReturned r) = ShutdownAssigned"
| "main_next MShutdownAssigned = ShutdownTested None"
| "main_next (MFlushReturned r) = FlushAssigned"
| "main_next MFlushAssigned = FlushTested"
| "main_next MDone = FlushTested"

lemma main_can_move:
  assumes "run_inv s" and "rs_end s = None"
  shows "\<exists>s'. run_step s (main_next (rs_main s)) s'"
proof -
  have "rs_main s \<noteq> MDone" using assms by (auto simp: run_inv_def)
  with assms(2) show ?thesis
    by (cases "rs_main s") (auto simp: run_step_simps notifyShutdown_def shutdownSignals_def)
qed

lemma step_running: "run_step s e s' \<Longrightarrow> rs_end s = None"
  by (auto elim: run_step.cases)



end
