(* ===== verification/Schema.thy ===== *)
theory Schema
  imports Repository
begin

text \<open>
  The migrations of \<open>database/migrations\<close>: each file as its version and the statements of
  its \<open>Up\<close> and \<open>Down\<close> halves, and what such statements do to a schema and to the rows
  stored under it.  Postgres enters through the functions the server knows, since
  \<open>uuidv7()\<close> is missing before version 18.

  The lemmas show that the table these files create takes exactly the rows
  \<open>Repository\<close> takes, so the constraints its statements check are the ones of the schema.
\<close>

section \<open>Tables and statements\<close>

datatype sql_type = UUID | VARCHAR nat | TIMESTAMP

datatype sql_default = gen_random_uuid | uuidv7 | CURRENT_TIMESTAMP

record column =
  cl_name :: gostring
  cl_type :: sql_type
  cl_primary_key :: bool
  cl_not_null :: bool
  cl_default :: "sql_default option"
  cl_check_not_empty :: bool

record stored_table =
  tb_columns :: "column list"
  tb_rows :: "uuid \<rightharpoonup> row"

type_synonym schema = "gostring \<rightharpoonup> stored_table"

text \<open>The three forms of statement the migrations use, with their \<open>IF [NOT] EXISTS\<close>.\<close>

datatype ddl =
    CreateTableIfNotExists gostring "column list"
  | AlterColumnSetDefault gostring gostring sql_default
  | DropTableIfExists gostring

definition set_default :: "gostring \<Rightarrow> sql_default \<Rightarrow> column \<Rightarrow> column" where
  "set_default c d col = (if cl_name col = c then col\<lparr>cl_default := Some d\<rparr> else col)"

text \<open>A default that names a function the server does not have is refused.\<close>

definition knows :: "(sql_default \<Rightarrow> bool) \<Rightarrow> sql_default \<Rightarrow> bool" where
  "knows server d \<longleftrightarrow> d = CURRENT_TIMESTAMP \<or> server d"

definition known_default :: "(sql_default \<Rightarrow> bool) \<Rightarrow> column \<Rightarrow> bool" where
  "known_default server col = (case cl_default col of None \<Rightarrow> True | Some d \<Rightarrow> knows server d)"

fun exec_ddl :: "(sql_default \<Rightarrow> bool) \<Rightarrow> ddl \<Rightarrow> schema \<Rightarrow> gerror + schema" where
  "exec_ddl server (CreateTableIfNotExists t cols) sch =
     (if sch t \<noteq> None then Inr sch
      else if list_all (known_default server) cols then Inr (sch(t \<mapsto> \<lparr>tb_columns = cols, tb_rows = Map.empty\<rparr>))
      else Inl (pg_error ''function does not exist''))"
| "exec_ddl server (AlterColumnSetDefault t c d) sch =
     (case sch t of
        None \<Rightarrow> Inl (pg_error ''relation does not exist'')
      | Some tb \<Rightarrow>
          if \<not> list_ex (\<lambda>col. cl_name col = c) (tb_columns tb) then Inl (pg_error ''column does not exist'')
          else if \<not> knows server d then Inl (pg_error ''function does not exist'')
          else Inr (sch(t \<mapsto> tb\<lparr>tb_columns := map (set_default c d) (tb_columns tb)\<rparr>)))"
| "exec_ddl server (DropTableIfExists t) sch = Inr (sch(t := None))"

text \<open>A half of a migration runs in one transaction: all of its statements or none.\<close>

fun exec_all :: "(sql_default \<Rightarrow> bool) \<Rightarrow> ddl list \<Rightarrow> schema \<Rightarrow> gerror + schema" where
  "exec_all server [] sch = Inr sch"
| "exec_all server (d # ds) sch =
     (case exec_ddl server d sch of Inl err \<Rightarrow> Inl err | Inr sch' \<Rightarrow> exec_all server ds sch')"

section \<open>The migration files\<close>

record migration =
  mg_file :: gostring
  mg_version :: nat
  mg_up :: "ddl list"
  mg_down :: "ddl list"

definition profiles_columns :: "column list" where
  "profiles_columns =
     [\<lparr>cl_name = ''id'', cl_type = UUID, cl_primary_key = True, cl_not_null = False,
       cl_default = Some gen_random_uuid, cl_check_not_empty = False\<rparr>,
      \<lparr>cl_name = ''first_name'', cl_type = VARCHAR 255, cl_primary_key = False, cl_not_null = True,
       cl_default = None, cl_check_not_empty = True\<rparr>,
      \<lparr>cl_name = ''last_name'', cl_type = VARCHAR 255, cl_primary_key = False, cl_not_null = True,
       cl_default = None, cl_check_not_empty = True\<rparr>,
      \<lparr>cl_name = ''created_at'', cl_type = TIMESTAMP, cl_primary_key = False, cl_not_null = False,
       cl_default = Some CURRENT_TIMESTAMP, cl_check_not_empty = False\<rparr>,
      \<lparr>cl_name = ''updated_at'', cl_type = TIMESTAMP, cl_primary_key = False, cl_not_null = False,
       cl_default = Some CURRENT_TIMESTAMP, cl_check_not_empty = False\<rparr>]"

definition init_schema :: migration where
  "init_schema =
     \<lparr>mg_file = ''migrations/20240805193305_init_schema.sql'', mg_version = 20240805193305,
      mg_up = [CreateTableIfNotExists ''profiles'' profiles_columns],
      mg_down = [DropTableIfExists ''profiles'']\<rparr>"

definition profile_id_uuidv7 :: migration where
  "profile_id_uuidv7 =
     \<lparr>mg_file = ''migrations/20260825120000_profile_id_uuidv7.sql'', mg_version = 20260825120000,
      mg_up = [AlterColumnSetDefault ''profiles'' ''id'' uuidv7],
      mg_down = [AlterColumnSetDefault ''profiles'' ''id'' gen_random_uuid]\<rparr>"

text \<open>The embedded file system: what \<open>go:embed migrations/*.sql\<close> matched.\<close>

definition GetMigrationFS :: "migration list" where
  "GetMigrationFS = [init_schema, profile_id_uuidv7]"

section \<open>The rows a table takes\<close>

datatype sql_value = VNull | VText gostring | VTimestamp time | VUuid uuid

definition nullable_time :: "time option \<Rightarrow> sql_value" where
  "nullable_time t = (case t of None \<Rightarrow> VNull | Some u \<Rightarrow> VTimestamp u)"

text \<open>What a row of the model holds in each column; any other column is NULL.\<close>

definition row_value :: "uuid \<Rightarrow> row \<Rightarrow> gostring \<Rightarrow> sql_value" where
  "row_value u w c =
     (if c = ''id'' then VUuid u
      else if c = ''first_name'' then VText (row_first_name w)
      else if c = ''last_name'' then VText (row_last_name w)
      else if c = ''created_at'' then nullable_time (row_created_at w)
      else if c = ''updated_at'' then nullable_time (row_updated_at w)
      else VNull)"

fun has_type :: "sql_type \<Rightarrow> sql_value \<Rightarrow> bool" where
  "has_type _ VNull = True"
| "has_type (VARCHAR n) (VText s) = (length (runes s) \<le> n)"
| "has_type TIMESTAMP (VTimestamp _) = True"
| "has_type UUID (VUuid _) = True"
| "has_type _ _ = False"

definition column_admits :: "column \<Rightarrow> sql_value \<Rightarrow> bool" where
  "column_admits col v \<longleftrightarrow>
     has_type (cl_type col) v \<and> (cl_not_null col \<or> cl_primary_key col \<longrightarrow> v \<noteq> VNull)
     \<and> (cl_check_not_empty col \<longrightarrow> v \<noteq> VText [])"

definition table_admits :: "column list \<Rightarrow> uuid \<Rightarrow> row \<Rightarrow> bool" where
  "table_admits cols u w \<longleftrightarrow> list_all (\<lambda>col. column_admits col (row_value u w (cl_name col))) cols"

section \<open>Lemmas\<close>

lemma exec_all_append:
  "exec_all server (ds @ es) sch =
     (case exec_all server ds sch of Inl err \<Rightarrow> Inl err | Inr sch' \<Rightarrow> exec_all server es sch')"
  by (induction ds arbitrary: sch) (simp_all split: sum.split)

lemma column_admits_default [simp]: "column_admits (set_default c d col) v = column_admits col v"
  by (simp add: column_admits_def set_default_def)

lemma set_default_name [simp]: "cl_name (set_default c d col) = cl_name col"
  by (simp add: set_default_def)

text \<open>Changing a default changes no constraint.\<close>

lemma table_admits_defaults [simp]:
  "table_admits (map (set_default c d) cols) u w = table_admits cols u w"
  by (simp add: table_admits_def list_all_iff)

lemma has_type_time [simp]: "has_type TIMESTAMP (nullable_time t)"
  by (cases t) (simp_all add: nullable_time_def)

lemma nullable_time_text [simp]: "nullable_time t \<noteq> VText s"
  by (cases t) (simp_all add: nullable_time_def)

lemma table_admits_profiles: "table_admits profiles_columns u w \<longleftrightarrow> row_constraint w"
  by (auto simp: table_admits_def profiles_columns_def column_admits_def row_value_def row_constraint_def name_constraint_def)

lemma set_default_again [simp]: "set_default c d (set_default c d' col) = set_default c d col"
  by (simp add: set_default_def)

lemma set_default_profiles: "map (set_default ''id'' gen_random_uuid) profiles_columns = profiles_columns"
  by (simp add: profiles_columns_def set_default_def)

lemma profiles_known: "list_all (known_default server) profiles_columns \<longleftrightarrow> server gen_random_uuid"
  by (simp add: profiles_columns_def known_default_def knows_def)

end
