(* ===== verification/Migrate.thy ===== *)
theory Migrate
  imports Database Schema
begin

text \<open>
  \<open>cmd/migrate\<close>: applying and rolling back the migrations, and the two commands around
  them.  goose is a parameter: what setting the dialect reports, and what its \<open>Up\<close> and
  \<open>Down\<close> report and leave of the database, given the files and the directory.  The last
  section says what goose documents of the two and draws the consequences for this repository's
  files.
\<close>

section \<open>Applying and rolling back\<close>

text \<open>The base file system both are given, and for \<open>Up\<close> the option \<open>WithAllowMissing\<close>.\<close>

record 's goose =
  gs_SetDialect :: "gostring \<Rightarrow> gerror option"
  gs_Up :: "migration list \<Rightarrow> gostring \<Rightarrow> bool \<Rightarrow> 's \<Rightarrow> gerror option \<times> 's"
  gs_Down :: "migration list \<Rightarrow> gostring \<Rightarrow> 's \<Rightarrow> gerror option \<times> 's"

definition migrate :: "'s goose \<Rightarrow> 's \<Rightarrow> gerror option \<times> 's" where
  "migrate g s =
     (case gs_SetDialect g GetDialect of
        Some err \<Rightarrow> (Some (Wrapped ''failed to set goose dialect'' err), s)
      | None \<Rightarrow>
          (case gs_Up g GetMigrationFS ''migrations'' True s of
             (Some err, s') \<Rightarrow> (Some (Wrapped ''failed to run database migrations'' err), s')
           | (None, s') \<Rightarrow> (None, s')))"

definition rollback :: "'s goose \<Rightarrow> 's \<Rightarrow> gerror option \<times> 's" where
  "rollback g s =
     (case gs_SetDialect g GetDialect of
        Some err \<Rightarrow> (Some (Wrapped ''failed to set goose dialect'' err), s)
      | None \<Rightarrow>
          (case gs_Down g GetMigrationFS ''migrations'' s of
             (Some err, s') \<Rightarrow> (Some (Wrapped ''failed to run database migrations'' err), s')
           | (None, s') \<Rightarrow> (None, s')))"

section \<open>The commands\<close>

text \<open>
  What one run of a command did: the pools opened and closed, the schema it left, the messages
  it logged with their level.  The command returns normally on every path.
\<close>

record 's command_run =
  cr_events :: "pool_event list"
  cr_schema :: 's
  cr_log :: "(log_level \<times> gostring) list"

text \<open>The deferred close of the database, whose failure is only a warning.\<close>

definition deferred_close :: "gerror option \<Rightarrow> (log_level \<times> gostring) list" where
  "deferred_close close_err =
     (case close_err of None \<Rightarrow> [] | Some err \<Rightarrow> [(LevelWarn, ''failed to close database'')])"

definition up ::
  "gerror + Config \<Rightarrow> (DatabaseConfig \<Rightarrow> (gerror + 'pool) \<times> pool_event list) \<Rightarrow> gerror option
   \<Rightarrow> 's goose \<Rightarrow> 's \<Rightarrow> 's command_run" where
  "up config_result open_db close_err g s =
     (case config_result of
        Inl err \<Rightarrow>
          \<lparr>cr_events = [], cr_schema = s, cr_log = [(LevelError, ''failed to read config'')]\<rparr>
      | Inr cfg \<Rightarrow>
          (case open_db (cfg_Database cfg) of
             (Inl err, evs) \<Rightarrow>
               \<lparr>cr_events = evs, cr_schema = s, cr_log = [(LevelError, ''failed to connect to database'')]\<rparr>
           | (Inr pool, evs) \<Rightarrow>
               (case migrate g s of
                  (Some err, s') \<Rightarrow>
                    \<lparr>cr_events = evs @ snd database_Close, cr_schema = s',
                     cr_log = [(LevelInfo, ''running database migrations''),
                               (LevelError, ''failed to run database migrations'')] @ deferred_close close_err\<rparr>
                | (None, s') \<Rightarrow>
                    \<lparr>cr_events = evs @ snd database_Close, cr_schema = s',
                     cr_log = [(LevelInfo, ''running database migrations''),
                               (LevelInfo, ''database migrations completed successfully'')] @ deferred_close close_err\<rparr>)))"

definition down ::
  "gerror + Config \<Rightarrow> (DatabaseConfig \<Rightarrow> (gerror + 'pool) \<times> pool_event list) \<Rightarrow> gerror option
   \<Rightarrow> 's goose \<Rightarrow> 's \<Rightarrow> 's command_run" where
  "down config_result open_db close_err g s =
     (case config_result of
        Inl err \<Rightarrow>
          \<lparr>cr_events = [], cr_schema = s, cr_log = [(LevelError, ''failed to read config'')]\<rparr>
      | Inr cfg \<Rightarrow>
          (case open_db (cfg_Database cfg) of
             (Inl err, evs) \<Rightarrow>
               \<lparr>cr_events = evs, cr_schema = s, cr_log = [(LevelError, ''failed to connect to database'')]\<rparr>
           | (Inr pool, evs) \<Rightarrow>
               (case rollback g s of
                  (Some err, s') \<Rightarrow>
                    \<lparr>cr_events = evs @ snd database_Close, cr_schema = s',
                     cr_log = [(LevelInfo, ''rollback database migrations''),
                               (LevelError, ''failed to rollback database migrations'')] @ deferred_close close_err\<rparr>
                | (None, s') \<Rightarrow>
                    \<lparr>cr_events = evs @ snd database_Close, cr_schema = s',
                     cr_log = [(LevelInfo, ''rollback database migrations''),
                               (LevelInfo, ''database migrations rollback completed successfully'')]
                              @ deferred_close close_err\<rparr>)))"

section \<open>Lemmas\<close>

text \<open>The database as the command opens it, with no options.\<close>

abbreviation opened where
  "opened ParseConfig NewWithConfig Ping \<equiv> (\<lambda>cfg. database_New cfg [] ParseConfig NewWithConfig Ping)"

lemma database_New_balance:
  "(case database_New cfg opts ParseConfig NewWithConfig Ping of
      (Inl err, evs) \<Rightarrow> count_list evs PoolOpened = count_list evs PoolClosed
    | (Inr pool, evs) \<Rightarrow> evs = [creating_pool, PoolOpened, PoolPinged])"
  by (auto simp: database_New_def creating_pool_def Let_def split: sum.split option.split)

lemma migrate_outcome:
  "fst (migrate g s) = None \<longleftrightarrow> gs_SetDialect g ''postgres'' = None \<and> fst (gs_Up g GetMigrationFS ''migrations'' True s) = None"
  by (auto simp: migrate_def GetDialect_def split: option.split prod.split)

section \<open>Properties\<close>

text \<open>
  \<open>migrate up\<close> leaves no pool open on any path, and announces success exactly when
  the configuration was read, the database answered and every step of the migration succeeded.
\<close>

lemma migrate_up_outcome:
  "count_list (cr_events (up config_result (opened ParseConfig NewWithConfig Ping) close_err g s)) PoolOpened
     = count_list (cr_events (up config_result (opened ParseConfig NewWithConfig Ping) close_err g s)) PoolClosed
   \<and> ((LevelInfo, ''database migrations completed successfully'')
        \<in> set (cr_log (up config_result (opened ParseConfig NewWithConfig Ping) close_err g s)))
     = (case config_result of Inl err \<Rightarrow> False
        | Inr cfg \<Rightarrow> is_ok (fst (database_New (cfg_Database cfg) [] ParseConfig NewWithConfig Ping))
            \<and> gs_SetDialect g ''postgres'' = None \<and> fst (gs_Up g GetMigrationFS ''migrations'' True s) = None)"
proof (cases config_result)
  case (Inl err)
  then show ?thesis by (simp add: up_def)
next
  case (Inr cfg)
  obtain res evs where db: "database_New (cfg_Database cfg) [] ParseConfig NewWithConfig Ping = (res, evs)"
    by fastforce
  obtain r s' where m: "migrate g s = (r, s')" by fastforce
  have "(r = None) = (gs_SetDialect g ''postgres'' = None \<and> fst (gs_Up g GetMigrationFS ''migrations'' True s) = None)"
    using migrate_outcome [of g s] by (simp add: m)
  then show ?thesis
    using database_New_balance [of "cfg_Database cfg" "[]" ParseConfig NewWithConfig Ping]
    by (cases res; cases r) (auto simp: up_def Inr db m deferred_close_def database_Close_def creating_pool_def split: option.split)
qed

section \<open>What goose documents of its two operations\<close>

text \<open>
  The database as goose sees it: the versions applied, oldest application first, and the schema.
  \<open>Up\<close> applies every file of the directory that is not applied yet, in the order of their
  versions and each in a transaction, and stops at the first that fails.  \<open>Down\<close> undoes the
  file applied last.
\<close>

record migrated =
  ms_applied :: "nat list"
  ms_schema :: schema

fun run_pending :: "(sql_default \<Rightarrow> bool) \<Rightarrow> migration list \<Rightarrow> migrated \<Rightarrow> gerror option \<times> migrated" where
  "run_pending server [] s = (None, s)"
| "run_pending server (m # ms) s =
     (if List.member (ms_applied s) (mg_version m) then run_pending server ms s
      else
        (case exec_all server (mg_up m) (ms_schema s) of
           Inl err \<Rightarrow> (Some err, s)
         | Inr sch \<Rightarrow> run_pending server ms \<lparr>ms_applied = ms_applied s @ [mg_version m], ms_schema = sch\<rparr>))"

definition undo :: "(sql_default \<Rightarrow> bool) \<Rightarrow> migration \<Rightarrow> migrated \<Rightarrow> gerror option \<times> migrated" where
  "undo server m s =
     (case exec_all server (mg_down m) (ms_schema s) of
        Inl err \<Rightarrow> (Some err, s)
      | Inr sch \<Rightarrow> (None, \<lparr>ms_applied = butlast (ms_applied s), ms_schema = sch\<rparr>))"

definition files_of :: "migration list \<Rightarrow> gostring \<Rightarrow> migration list" where
  "files_of fs dir = sort_key mg_version (filter (\<lambda>m. has_prefix (mg_file m) (dir @ ''/'')) fs)"

definition documented_goose :: "(sql_default \<Rightarrow> bool) \<Rightarrow> migrated goose \<Rightarrow> bool" where
  "documented_goose server g \<longleftrightarrow>
     gs_SetDialect g ''postgres'' = None
     \<and> (\<forall>fs dir s. gs_Up g fs dir True s = run_pending server (files_of fs dir) s)
     \<and> (\<forall>fs dir s m. distinct (map mg_version (files_of fs dir)) \<longrightarrow> ms_applied s \<noteq> []
          \<longrightarrow> m \<in> set (files_of fs dir) \<longrightarrow> mg_version m = last (ms_applied s) \<longrightarrow> gs_Down g fs dir s = undo server m s)"

lemma files_of_repository: "files_of GetMigrationFS ''migrations'' = [init_schema, profile_id_uuidv7]"
  by (simp add: files_of_def GetMigrationFS_def init_schema_def profile_id_uuidv7_def has_prefix_def)

lemma versions_differ [simp]:
  "mg_version profile_id_uuidv7 \<noteq> mg_version init_schema" "mg_version init_schema \<noteq> mg_version profile_id_uuidv7"
  by (simp_all add: init_schema_def profile_id_uuidv7_def)

lemma migrate_eq:
  "documented_goose server g \<Longrightarrow> migrate g s =
     (map_option (Wrapped ''failed to run database migrations'') (fst (run_pending server [init_schema, profile_id_uuidv7] s)),
      snd (run_pending server [init_schema, profile_id_uuidv7] s))"
  by (simp add: migrate_def documented_goose_def GetDialect_def files_of_repository del: run_pending.simps
      split: option.split prod.split)

lemma rollback_undoes:
  assumes "documented_goose server g" and "m \<in> {init_schema, profile_id_uuidv7}"
    and last_applied: "ms_applied s \<noteq> [] \<and> mg_version m = last (ms_applied s)" and "undo server m s = (None, s')"
  shows "rollback g s = (None, s')"
proof -
  have "gs_Down g GetMigrationFS ''migrations'' s = undo server m s"
    using assms(1-3) files_of_repository unfolding documented_goose_def by auto
  then show ?thesis
    using assms(1,4) by (simp add: rollback_def documented_goose_def GetDialect_def split: option.split prod.split)
qed

text \<open>The database with the first file applied, and with both, over the rows it holds.\<close>

definition profiles_at :: "sql_default \<Rightarrow> (uuid \<rightharpoonup> row) \<Rightarrow> stored_table" where
  "profiles_at d rows = \<lparr>tb_columns = map (set_default ''id'' d) profiles_columns, tb_rows = rows\<rparr>"

definition first_applied :: "schema \<Rightarrow> (uuid \<rightharpoonup> row) \<Rightarrow> migrated" where
  "first_applied sch rows =
     \<lparr>ms_applied = [mg_version init_schema], ms_schema = sch(''profiles'' \<mapsto> profiles_at gen_random_uuid rows)\<rparr>"

definition both_applied :: "schema \<Rightarrow> (uuid \<rightharpoonup> row) \<Rightarrow> migrated" where
  "both_applied sch rows =
     \<lparr>ms_applied = [mg_version init_schema, mg_version profile_id_uuidv7],
      ms_schema = sch(''profiles'' \<mapsto> profiles_at uuidv7 rows)\<rparr>"

lemma both_applied_last:
  "ms_applied (both_applied sch rows) \<noteq> [] \<and> mg_version profile_id_uuidv7 = last (ms_applied (both_applied sch rows))"
  by (simp add: both_applied_def)

lemma first_applied_last:
  "ms_applied (first_applied sch rows) \<noteq> [] \<and> mg_version init_schema = last (ms_applied (first_applied sch rows))"
  by (simp add: first_applied_def)

lemma profiles_at_admits: "table_admits (tb_columns (profiles_at d rows)) u w \<longleftrightarrow> row_constraint w"
  by (simp add: profiles_at_def table_admits_profiles)

lemma first_up:
  "server gen_random_uuid \<Longrightarrow> sch ''profiles'' = None \<Longrightarrow>
     exec_all server (mg_up init_schema) sch = Inr (sch(''profiles'' \<mapsto> profiles_at gen_random_uuid Map.empty))"
  by (simp add: init_schema_def profiles_known profiles_at_def set_default_profiles)

lemma first_down:
  "sch ''profiles'' = None \<Longrightarrow> exec_all server (mg_down init_schema) (sch(''profiles'' \<mapsto> tb)) = Inr sch"
  by (simp add: init_schema_def fun_upd_idem)

lemma has_id_column: "list_ex (\<lambda>col. cl_name col = ''id'') (tb_columns (profiles_at d rows))"
  by (simp add: profiles_at_def list_ex_iff profiles_columns_def)

lemma profiles_at_default:
  "profiles_at d rows\<lparr>tb_columns := map (set_default ''id'' d') (tb_columns (profiles_at d rows))\<rparr> = profiles_at d' rows"
  by (simp add: profiles_at_def comp_def)

lemma second_up:
  "exec_all server (mg_up profile_id_uuidv7) (sch(''profiles'' \<mapsto> profiles_at d rows)) =
     (if server uuidv7 then Inr (sch(''profiles'' \<mapsto> profiles_at uuidv7 rows)) else Inl (pg_error ''function does not exist''))"
  by (simp add: profile_id_uuidv7_def has_id_column knows_def profiles_at_default)

lemma second_down:
  "server gen_random_uuid \<Longrightarrow>
     exec_all server (mg_down profile_id_uuidv7) (sch(''profiles'' \<mapsto> profiles_at d rows))
       = Inr (sch(''profiles'' \<mapsto> profiles_at gen_random_uuid rows))"
  by (simp add: profile_id_uuidv7_def has_id_column knows_def profiles_at_default)

lemma pending_on_first:
  "run_pending server [init_schema, profile_id_uuidv7] (first_applied sch rows) =
     (if server uuidv7 then (None, both_applied sch rows)
      else (Some (pg_error ''function does not exist''), first_applied sch rows))"
  by (simp add: first_applied_def both_applied_def second_up)

lemma pending_on_fresh:
  "server gen_random_uuid \<Longrightarrow> sch ''profiles'' = None \<Longrightarrow>
     run_pending server [init_schema, profile_id_uuidv7] \<lparr>ms_applied = [], ms_schema = sch\<rparr> =
     run_pending server [init_schema, profile_id_uuidv7] (first_applied sch Map.empty)"
  by (simp add: first_up first_applied_def second_up)

lemma pending_on_both: "run_pending server [init_schema, profile_id_uuidv7] (both_applied sch rows) = (None, both_applied sch rows)"
  by (simp add: both_applied_def)

section \<open>Properties of the migrations\<close>

text \<open>
  C13: the migrations build the table the repository relies on, and come apart again.  On a server
  that has both identifier functions, \<open>migrate\<close> takes an empty database to one whose
  profiles table accepts exactly the rows the repository's statements let through; running it
  again changes nothing, whatever rows have been stored since.  One rollback undoes only the
  latest file: every row stays, and migrating again is back where it was.  The second rollback
  drops the table and its rows and leaves the empty database.
\<close>

theorem migrations_round_trip:
  assumes goose: "documented_goose server g" and pg: "server gen_random_uuid" "server uuidv7"
    and fresh: "sch ''profiles'' = None"
  shows "migrate g \<lparr>ms_applied = [], ms_schema = sch\<rparr> = (None, both_applied sch Map.empty)
    \<and> migrate g (both_applied sch rows) = (None, both_applied sch rows)
    \<and> (\<forall>u w. table_admits (tb_columns (the (ms_schema (both_applied sch rows) ''profiles''))) u w \<longleftrightarrow> row_constraint w)
    \<and> (case rollback g (both_applied sch rows) of (err, s) \<Rightarrow>
         err = None \<and> map_option tb_rows (ms_schema s ''profiles'') = Some rows
         \<and> migrate g s = (None, both_applied sch rows)
         \<and> rollback g s = (None, \<lparr>ms_applied = [], ms_schema = sch\<rparr>))"
proof -
  have up: "migrate g \<lparr>ms_applied = [], ms_schema = sch\<rparr> = (None, both_applied sch Map.empty)"
    unfolding migrate_eq [OF goose] pending_on_fresh [of server sch, OF pg(1) fresh] pending_on_first using pg(2) by simp
  have again: "migrate g (both_applied sch rows) = (None, both_applied sch rows)"
    "migrate g (first_applied sch rows) = (None, both_applied sch rows)"
    unfolding migrate_eq [OF goose] pending_on_both pending_on_first using pg(2) by simp_all
  have "undo server profile_id_uuidv7 (both_applied sch rows) = (None, first_applied sch rows)"
    by (simp add: undo_def both_applied_def first_applied_def second_down pg)
  then have once: "rollback g (both_applied sch rows) = (None, first_applied sch rows)"
    by (rule rollback_undoes [OF goose _ both_applied_last, rotated]) simp
  have "undo server init_schema (first_applied sch rows) = (None, \<lparr>ms_applied = [], ms_schema = sch\<rparr>)"
    by (simp add: undo_def first_applied_def first_down fresh)
  then have twice: "rollback g (first_applied sch rows) = (None, \<lparr>ms_applied = [], ms_schema = sch\<rparr>)"
    by (rule rollback_undoes [OF goose _ first_applied_last, rotated]) simp
  have "map_option tb_rows (ms_schema (first_applied sch rows) ''profiles'') = Some rows"
    by (simp add: first_applied_def profiles_at_def)
  moreover have "\<forall>u w. table_admits (tb_columns (the (ms_schema (both_applied sch rows) ''profiles''))) u w \<longleftrightarrow> row_constraint w"
    by (simp add: both_applied_def profiles_at_admits)
  ultimately show ?thesis by (simp only: up again once twice prod.case simp_thms)
qed

definition sample_goose :: "migrated goose" where
  "sample_goose =
     \<lparr>gs_SetDialect = (\<lambda>_. None), gs_Up = (\<lambda>fs dir missing. run_pending (\<lambda>_. True) (files_of fs dir)),
      gs_Down = (\<lambda>fs dir s. case List.find (\<lambda>m. mg_version m = last (ms_applied s)) (files_of fs dir) of
         None \<Rightarrow> (Some (ErrNew ''no current version found''), s) | Some m \<Rightarrow> undo (\<lambda>_. True) m s)\<rparr>"

lemma find_version:
  "distinct (map mg_version ms) \<Longrightarrow> m \<in> set ms \<Longrightarrow> List.find (\<lambda>n. mg_version n = mg_version m) ms = Some m"
  by (induction ms) auto

theorem migrations_round_trip_witness:
  "migrate sample_goose \<lparr>ms_applied = [], ms_schema = Map.empty\<rparr> = (None, both_applied Map.empty Map.empty)"
proof -
  have "documented_goose (\<lambda>_. True) sample_goose"
    unfolding documented_goose_def
  proof (intro conjI allI impI)
    fix fs dir and s :: migrated and m :: migration
    assume "distinct (map mg_version (files_of fs dir))" "m \<in> set (files_of fs dir)" "mg_version m = last (ms_applied s)"
    then have "List.find (\<lambda>n. mg_version n = last (ms_applied s)) (files_of fs dir) = Some m"
      using find_version [of "files_of fs dir" m] by simp
    then show "gs_Down sample_goose fs dir s = undo (\<lambda>_. True) m s" by (simp add: sample_goose_def)
  qed (simp_all add: sample_goose_def)
  from migrations_round_trip [OF this, of Map.empty] show ?thesis by simp
qed

text \<open>
  On a server without \<open>uuidv7()\<close> the second file fails and the first stays applied, however
  often \<open>migrate\<close> is run; the table is there and takes the same rows.
\<close>

lemma old_server_stays_half_migrated:
  assumes goose: "documented_goose server g" and pg: "server gen_random_uuid" "\<not> server uuidv7"
    and fresh: "sch ''profiles'' = None"
  shows "fst (migrate g \<lparr>ms_applied = [], ms_schema = sch\<rparr>) \<noteq> None
    \<and> snd (migrate g \<lparr>ms_applied = [], ms_schema = sch\<rparr>) = first_applied sch Map.empty
    \<and> fst (migrate g (first_applied sch rows)) \<noteq> None
    \<and> snd (migrate g (first_applied sch rows)) = first_applied sch rows"
proof -
  have "run_pending server [init_schema, profile_id_uuidv7] \<lparr>ms_applied = [], ms_schema = sch\<rparr> =
      (Some (pg_error ''function does not exist''), first_applied sch Map.empty)"
    "run_pending server [init_schema, profile_id_uuidv7] (first_applied sch rows) =
      (Some (pg_error ''function does not exist''), first_applied sch rows)"
    unfolding pending_on_fresh [of server sch, OF pg(1) fresh] pending_on_first using pg(2) by simp_all
  then show ?thesis unfolding migrate_eq [OF goose] by simp
qed

end
