(* ===== verification/System.thy ===== *)
theory System
  imports Serve
begin

text \<open>
  The assembled service: a router's middleware stack around the dispatch of a request to one of
  its operations, over the profiles table.

  Dispatch is chi's and the adaptation of a handler huma's; both are arguments, constrained by
  what the code relies on: an operation that runs is a registered one, and its handler is called
  at most once, with an input that passed validation.  The locale \<open>forwarding\<close> is the
  contract of a layer that only answers itself or hands the request on with its credential; the
  layers written in this repository are interpretations of it, and the whole stack is one when
  the library's layers are.
\<close>

section \<open>Dispatch\<close>

record 's dispatch_lib =
  dl_find :: "('s operation \<times> 's operation_fn) list \<Rightarrow> request \<Rightarrow> ('s operation \<times> 's operation_fn) option"
  dl_other :: "'s handler"
  dl_adapt :: "'s operation \<Rightarrow> 's operation_fn \<Rightarrow> 's handler"

definition dispatch :: "'s dispatch_lib \<Rightarrow> ('s operation \<times> 's operation_fn) list \<Rightarrow> 's handler" where
  "dispatch dl ops r s =
     (case dl_find dl ops r of
        Some (op, fn) \<Rightarrow> run_operation op (dl_adapt dl op fn) r s
      | None \<Rightarrow> dl_other dl r s)"

definition serve_request ::
  "http_env \<Rightarrow> 's stack_lib \<Rightarrow> 's dispatch_lib \<Rightarrow> Config \<Rightarrow> 's router \<Rightarrow> 's handler" where
  "serve_request env lib dl cfg rt = chain env lib (cfg_Http cfg) (rt_layers rt) (dispatch dl (rt_operations rt))"

text \<open>The state one call of a handler function may leave, over the inputs that pass validation.\<close>

fun handler_leaves :: "'s operation_fn \<Rightarrow> ctx_ids \<Rightarrow> 's \<Rightarrow> 's \<Rightarrow> bool" where
  "handler_leaves (OnNothing f) ids s t \<longleftrightarrow> t = fst (snd (f ids () s))"
| "handler_leaves (OnCreate f) ids s t \<longleftrightarrow> (\<exists>q. CreateRequest_valid q \<and> t = fst (snd (f ids q s)))"
| "handler_leaves (OnUpdate f) ids s t \<longleftrightarrow> (\<exists>q. UpdateRequest_valid q \<and> t = fst (snd (f ids q s)))"
| "handler_leaves (OnGet f) ids s t \<longleftrightarrow> (\<exists>i. profileIdInput_valid i \<and> t = fst (snd (f ids i s)))"
| "handler_leaves (OnDelete f) ids s t \<longleftrightarrow> (\<exists>i. profileIdInput_valid i \<and> t = fst (snd (f ids i s)))"

definition lawful_dispatch :: "'s dispatch_lib \<Rightarrow> bool" where
  "lawful_dispatch dl \<longleftrightarrow>
     (\<forall>ops r x. dl_find dl ops r = Some x \<longrightarrow> x \<in> set ops)
     \<and> (\<forall>r s. st_app (snd (dl_other dl r s)) = st_app s)
     \<and> (\<forall>op fn r s. st_app (snd (dl_adapt dl op fn r s)) = st_app s
          \<or> handler_leaves fn (ids_of (rq_ctx r)) (st_app s) (st_app (snd (dl_adapt dl op fn r s))))"

section \<open>Layers that forward\<close>

definition same_credential :: "request \<Rightarrow> request \<Rightarrow> bool" where
  "same_credential r r' \<longleftrightarrow> rq_header r' ''Authorization'' = rq_header r ''Authorization''"

text \<open>What a run did to the application: nothing, or what the next handler did.\<close>

definition app_effect :: "'s middleware \<Rightarrow> 's handler \<Rightarrow> request \<Rightarrow> 's http \<Rightarrow> bool" where
  "app_effect mw next r s \<longleftrightarrow>
     st_app (snd (mw next r s)) = st_app s
     \<or> (\<exists>r' (s' :: 's http). same_credential r r' \<and> st_app s' = st_app s
          \<and> st_app (snd (mw next r s)) = st_app (snd (next r' s')))"

lemma app_effect_nothing: "st_app (snd (mw next r s)) = st_app s \<Longrightarrow> app_effect mw next r s"
  by (simp add: app_effect_def)

lemma app_effect_next:
  "same_credential r r' \<Longrightarrow> st_app s' = st_app s \<Longrightarrow> st_app (snd (mw next r s)) = st_app (snd (next r' s'))
   \<Longrightarrow> app_effect mw next r s"
  unfolding app_effect_def by blast

locale forwarding =
  fixes mw :: "'s middleware"
  assumes forwards: "app_effect mw next r s"
begin

text \<open>A property of every outcome of the next handler is one of the layer's outcomes.\<close>

lemma lift_outcome:
  assumes "P (st_app s)"
    and "\<And>r' (s' :: 's http). same_credential r r' \<Longrightarrow> st_app s' = st_app s \<Longrightarrow> P (st_app (snd (next r' s')))"
  shows "P (st_app (snd (mw next r s)))"
  using forwards [of "next" r s] assms unfolding app_effect_def by metis

end

lemma same_credential_refl [simp]: "same_credential r r"
  by (simp add: same_credential_def)

lemma same_credential_trans: "same_credential r r' \<Longrightarrow> same_credential r' r'' \<Longrightarrow> same_credential r r''"
  by (simp add: same_credential_def)

lemma same_credential_header:
  "same_credential r r' \<Longrightarrow> header_get r' ''Authorization'' = header_get r ''Authorization''"
  by (simp add: same_credential_def header_get_def)

text \<open>An observer forwards when it adopts a request with the same credential.\<close>

context observer
begin

lemma same_app: "st_app (snd (mw next r s)) = st_app (snd (next (adopt r) s))"
  using watched [of "next" r s] by (simp add: response_of_def)

lemma observer_forwards: "(\<And>r. same_credential r (adopt r)) \<Longrightarrow> forwarding mw"
  by unfold_locales (rule app_effect_next [OF _ refl same_app])

end

interpretation fwd_access: forwarding "accessLogger env cfg" for env cfg
  by (rule access.observer_forwards) simp

interpretation fwd_trace: forwarding "tracing env" for env
  by (rule trace.observer_forwards) (simp add: same_credential_def traced_request_def Let_def)

interpretation fwd_meter: forwarding "metrics_middleware env" for env
  by (rule meter.observer_forwards) simp

interpretation fwd_correlation: forwarding "correlation env" for env
proof
  fix "next" :: "'a handler" and r :: request and s :: "'a http"
  obtain r' s' where "correlation env next r s = next r' s'" "same_credential r r'" "st_app s' = st_app s"
    by (simp add: correlation_def Let_def same_credential_def)
  then show "app_effect (correlation env) next r s" by (auto intro: app_effect_next)
qed

interpretation fwd_recoverer: forwarding "recoverer env" for env
proof
  fix "next" :: "'a handler" and r :: request and s :: "'a http"
  show "app_effect (recoverer env) next r s"
    by (rule app_effect_next [of r r s s])
       (simp_all add: recoverer_def reportPanic_def split: prod.split completion.split)
qed

interpretation fwd_body: forwarding "bodyLimit_handler n" for n
proof
  fix "next" :: "'a handler" and r :: request and s :: "'a http"
  let ?r = "r\<lparr>rq_body_limit := Some (case rq_body_limit r of None \<Rightarrow> n | Some m \<Rightarrow> min m n)\<rparr>"
  show "app_effect (bodyLimit_handler n) next r s"
    by (rule app_effect_next [of r ?r s s]) (simp_all add: bodyLimit_handler_def same_credential_def)
qed

text \<open>The law for the layers of chi, cors and httprate.\<close>

definition library_forwards :: "'s stack_lib \<Rightarrow> bool" where
  "library_forwards lib \<longleftrightarrow>
     forwarding (sl_CleanPath lib) \<and> (\<forall>d. forwarding (sl_Timeout lib d)) \<and> (\<forall>p. forwarding (sl_Heartbeat lib p))
     \<and> forwarding (sl_NoCache lib) \<and> (\<forall>es. forwarding (sl_AllowContentEncoding lib es))
     \<and> (\<forall>opts. forwarding (sl_Cors lib opts)) \<and> (\<forall>src. forwarding (sl_ClientIP lib src))
     \<and> (\<forall>n w key. forwarding (sl_LimitBy lib n w key))"

lemma layer_forwards: "library_forwards lib \<Longrightarrow> forwarding (apply_layer env lib cfg l)"
  by (cases l)
     (simp_all add: library_forwards_def fwd_access.forwarding_axioms fwd_trace.forwarding_axioms
       fwd_meter.forwarding_axioms fwd_correlation.forwarding_axioms fwd_recoverer.forwarding_axioms
       fwd_body.forwarding_axioms)

text \<open>What holds of every outcome of the innermost handler holds of the whole stack.\<close>

lemma chain_outcome:
  fixes h :: "'s handler"
  assumes "library_forwards lib" and "P (st_app s)"
    and "\<And>r' (s' :: 's http). same_credential r r' \<Longrightarrow> st_app s' = st_app s \<Longrightarrow> P (st_app (snd (h r' s')))"
  shows "P (st_app (snd (chain env lib cfg ls h r s)))"
  using assms(2,3)
proof (induction ls arbitrary: r s)
  case Nil
  then show ?case by simp
next
  case (Cons l ls)
  have "P (st_app (snd (apply_layer env lib cfg l (chain env lib cfg ls h) r s)))"
  proof (rule forwarding.lift_outcome [OF layer_forwards [OF assms(1)]])
    fix r' and s' :: "'s http"
    assume "same_credential r r'" "st_app s' = st_app s"
    then show "P (st_app (snd (chain env lib cfg ls h r' s')))"
      using Cons.prems same_credential_trans by (intro Cons.IH) auto
  qed (rule Cons.prems(1))
  then show ?case by simp
qed

section \<open>What an operation does to the table\<close>

abbreviation profile_services :: "(duration \<Rightarrow> gostring) \<Rightarrow> (db \<Rightarrow> gerror option \<times> pool_stat) \<Rightarrow> pg_env \<Rightarrow> db services" where
  "profile_services ds ping pg \<equiv> initServices (initRepositories ds ping pg)"

lemma profile_services_repo [simp]: "sv_profile (profile_services ds ping pg) = NewProfileRepository pg"
  by (simp add: initServices_def initRepositories_def)

lemma create_profile_state:
  "\<exists>p res. Create pg p s = (res, fst (snd (create_profile (profile_services ds ping pg) ids q s)))"
  by (auto simp: create_profile_def svc_Create_def Let_def split: prod.split sum.split)

lemma update_profile_state:
  "\<exists>p res. Update pg p s = (res, fst (snd (update_profile (profile_services ds ping pg) ids q s)))"
  by (auto simp: update_profile_def svc_Update_def Let_def split: prod.split sum.split)

lemma get_profile_state:
  "\<exists>res. GetById pg i s = (res, fst (snd (get_profile (profile_services ds ping pg) ids i s)))"
  by (auto simp: get_profile_def svc_GetById_def split: prod.split sum.split)

lemma delete_profile_state:
  "\<exists>err. DeleteById pg i s = (err, fst (snd (delete_profile (profile_services ds ping pg) ids i s)))"
  by (auto simp: delete_profile_def svc_DeleteById_def split: prod.split sum.split option.split)

lemma secured_id [simp]: "op_OperationID (secured WriteErr op req g) = op_OperationID op"
  by (simp add: secured_def Let_def split: option.split)

lemma plain_operation_id [simp]: "op_OperationID (plain_operation opid m p st mb) = opid"
  by (simp add: plain_operation_def)

lemma run_secured:
  "run_operation (secured WriteErr (plain_operation opid m p st mb) req (Some g)) = guard_middleware WriteErr g req opid"
  by (simp add: secured_def Let_def run_operation_def plain_operation_def fun_eq_iff)

text \<open>One call of a profile handler is one call of the repository, and which one its name says.\<close>

lemma profile_handler_runs:
  assumes "(op, fn) \<in> set (registerProfile WriteErr (profile_services ds ping pg) mb g)"
    and leaves: "handler_leaves fn ids s t"
  shows "(\<exists>i res. GetById pg i s = (res, t) \<and> op_OperationID op = ''get-profile'')
    \<or> (\<exists>p res. Create pg p s = (res, t) \<and> op_OperationID op = ''create-profile'')
    \<or> (\<exists>p res. Update pg p s = (res, t) \<and> op_OperationID op = ''update-profile'')
    \<or> (\<exists>i err. DeleteById pg i s = (err, t) \<and> op_OperationID op = ''delete-profile'')"
proof -
  let ?svc = "profile_services ds ping pg"
  consider "fn = OnCreate (create_profile ?svc)" "op_OperationID op = ''create-profile''"
    | "fn = OnUpdate (update_profile ?svc)" "op_OperationID op = ''update-profile''"
    | "fn = OnGet (get_profile ?svc)" "op_OperationID op = ''get-profile''"
    | "fn = OnDelete (delete_profile ?svc)" "op_OperationID op = ''delete-profile''"
    using assms(1) unfolding registerProfile_def by auto
  then show ?thesis
    using leaves create_profile_state update_profile_state get_profile_state delete_profile_state
    by cases (simp, metis)+
qed

lemma profile_handler_step:
  "(op, fn) \<in> set (registerProfile WriteErr (profile_services ds ping pg) mb g) \<Longrightarrow> handler_leaves fn ids s t
   \<Longrightarrow> repo_step pg s t"
  using profile_handler_runs [of op fn] by (metis repo_step.intros)

lemma Create_keeps_rows: "Create pg p s = (res, t) \<Longrightarrow> db_table s u \<noteq> None \<Longrightarrow> db_table t u \<noteq> None"
  by (cases res) (auto dest!: Create_Inl Create_Inr)

lemma Update_keeps_rows: "Update pg p s = (res, t) \<Longrightarrow> db_table s u \<noteq> None \<Longrightarrow> db_table t u \<noteq> None"
  by (auto simp: Update_def run_statement_def sql_update_def Let_def scan_times_def
      split: option.splits sum.splits prod.splits if_splits)

lemma profile_handler_table:
  assumes "(op, fn) \<in> set (registerProfile WriteErr (profile_services ds ping pg) mb g)" "handler_leaves fn ids s t"
  shows "(op_OperationID op = ''get-profile'' \<longrightarrow> db_table t = db_table s)
    \<and> (op_OperationID op \<noteq> ''delete-profile'' \<longrightarrow> db_table s u \<noteq> None \<longrightarrow> db_table t u \<noteq> None)"
  using profile_handler_runs [OF assms] by (auto dest: GetById_state Create_keeps_rows Update_keeps_rows)

lemma health_handler_leaves:
  "(op, fn) \<in> set (registerHealth svc) \<Longrightarrow> handler_leaves fn ids s t \<Longrightarrow> t = s"
  by (auto simp: registerHealth_def health_live_def readiness_def split: prod.splits sum.splits)

lemma health_unguarded: "(op, fn) \<in> set (registerHealth svc) \<Longrightarrow> run_operation op h = h"
  by (auto simp: registerHealth_def run_operation_def plain_operation_def)

text \<open>What a dispatched request did to the application, with authentication on.\<close>

definition credited :: "(gostring \<Rightarrow> gerror + identity) \<Rightarrow> request \<Rightarrow> identity \<Rightarrow> bool" where
  "credited verify r i \<longleftrightarrow>
     (\<exists>token. bearerToken (header_get r ''Authorization'') = Some token \<and> verify token = Inr i)"

lemma credited_same: "same_credential r r' \<Longrightarrow> credited verify r' i = credited verify r i"
  by (simp add: credited_def same_credential_header)

lemma adapt_leaves:
  "lawful_dispatch dl \<Longrightarrow> st_app (snd (dl_adapt dl op fn r s)) = st_app s
     \<or> (\<exists>ids. handler_leaves fn ids (st_app s) (st_app (snd (dl_adapt dl op fn r s))))"
  unfolding lawful_dispatch_def by blast

lemma profile_dispatch_outcome:
  fixes s :: "db http"
  assumes law: "lawful_dispatch dl"
    and reg: "(op, fn) \<in> set (registerProfile WriteErr svc mb (Some g))"
  shows "st_app (snd (run_operation op (dl_adapt dl op fn) r s)) = st_app s
    \<or> (\<exists>i ids. credited (g_verifier g) r i \<and> may (op_OperationID op) i
         \<and> handler_leaves fn ids (st_app s) (st_app (snd (run_operation op (dl_adapt dl op fn) r s))))"
proof -
  have "case (op, fn) of (op, fn) \<Rightarrow>
      (\<exists>token i. bearerToken (header_get r ''Authorization'') = Some token \<and> g_verifier g token = Inr i
         \<and> may (op_OperationID op) i
         \<and> run_operation op (dl_adapt dl op fn) r s = dl_adapt dl op fn (r\<lparr>rq_ctx := NewContext (rq_ctx r) i\<rparr>) s)
      \<or> (fst (run_operation op (dl_adapt dl op fn) r s) = Returned
         \<and> st_app (snd (run_operation op (dl_adapt dl op fn) r s)) = st_app s)"
    using guarded_outcome [of r g "dl_adapt dl" s WriteErr svc mb] reg
    unfolding list_all_iff by blast
  then show ?thesis
    using adapt_leaves [OF law, of op fn] unfolding credited_def by fastforce
qed

lemma dispatch_outcome:
  assumes law: "lawful_dispatch dl"
    and ops: "ops = registerOperations WriteErr (profile_services ds ping pg) mb (Some g)"
  shows "st_app (snd (dispatch dl ops r s)) = st_app s
    \<or> (\<exists>op fn i ids. (op, fn) \<in> set (registerProfile WriteErr (profile_services ds ping pg) mb (Some g))
         \<and> credited (g_verifier g) r i \<and> may (op_OperationID op) i
         \<and> handler_leaves fn ids (st_app s) (st_app (snd (dispatch dl ops r s))))"
proof (cases "dl_find dl ops r")
  case None
  then show ?thesis using law by (simp add: dispatch_def lawful_dispatch_def)
next
  case (Some x)
  obtain op fn where x: "x = (op, fn)" by (cases x)
  have here: "dispatch dl ops r s = run_operation op (dl_adapt dl op fn) r s"
    using Some x by (simp add: dispatch_def)
  have "(op, fn) \<in> set ops" using Some x law by (auto simp: lawful_dispatch_def)
  then consider "(op, fn) \<in> set (registerHealth (profile_services ds ping pg))"
    | "(op, fn) \<in> set (registerProfile WriteErr (profile_services ds ping pg) mb (Some g))"
    unfolding ops registerOperations_def by auto
  then show ?thesis
  proof cases
    case 1
    then have "st_app (snd (dispatch dl ops r s)) = st_app s"
      using adapt_leaves [OF law, of op fn r s] health_handler_leaves [OF 1, of _ "st_app s"]
      unfolding here health_unguarded [OF 1] by auto
    then show ?thesis ..
  next
    case 2
    then show ?thesis using profile_dispatch_outcome [OF law 2, of r s] unfolding here by blast
  qed
qed

text \<open>The same without a guard: whatever runs is one step of the repository.\<close>

lemma dispatch_step:
  assumes law: "lawful_dispatch dl"
    and ops: "ops = registerOperations WriteErr (profile_services ds ping pg) mb g"
  shows "st_app (snd (dispatch dl ops r s)) = st_app s \<or> repo_step pg (st_app s) (st_app (snd (dispatch dl ops r s)))"
proof (cases g)
  case (Some v)
  have steps: "\<And>op fn ids t. (op, fn) \<in> set (registerProfile WriteErr (profile_services ds ping pg) mb (Some v))
      \<Longrightarrow> handler_leaves fn ids (st_app s) t \<Longrightarrow> repo_step pg (st_app s) t"
    by (rule profile_handler_step)
  show ?thesis using steps dispatch_outcome [OF law, of ops WriteErr ds ping pg mb v r s] ops Some by auto
next
  case None
  show ?thesis
  proof (cases "dl_find dl ops r")
    case None
    then show ?thesis using law by (simp add: dispatch_def lawful_dispatch_def)
  next
    case (Some x)
    obtain op fn where x: "x = (op, fn)" by (cases x)
    have reg: "(op, fn) \<in> set ops" using Some x law by (auto simp: lawful_dispatch_def)
    then have "run_operation op h = h" for h
      unfolding ops registerOperations_def \<open>g = None\<close>
      by (auto simp: health_unguarded) (auto simp: registerProfile_def secured_def run_operation_def plain_operation_def)
    then have here: "dispatch dl ops r s = dl_adapt dl op fn r s" using Some x by (simp add: dispatch_def)
    consider "(op, fn) \<in> set (registerHealth (profile_services ds ping pg))"
      | "(op, fn) \<in> set (registerProfile WriteErr (profile_services ds ping pg) mb g)"
      using reg unfolding ops registerOperations_def by auto
    then show ?thesis
    proof cases
      case 1
      then show ?thesis
        using adapt_leaves [OF law, of op fn r s] health_handler_leaves [OF 1, of _ "st_app s"] unfolding here by auto
    next
      case 2
      then show ?thesis
        using adapt_leaves [OF law, of op fn r s] profile_handler_step [OF 2, of _ "st_app s"] unfolding here by auto
    qed
  qed
qed

section \<open>The assembled service\<close>

text \<open>What startup leaves behind when it got as far as serving, on the profiles table.\<close>

lemma Ready_service:
  assumes "startup DefaultConfig WriteErr config_result otel_result db_result discovery verify = Ready cfg flush rt server"
    and "db_result cfg = Inr svc"
  shows "\<exists>g. rt_operations rt = registerOperations WriteErr svc (http_MaxBodyBytes (cfg_Http cfg)) g
    \<and> (oidc_Enabled (cfg_Oidc cfg) \<longrightarrow>
        (\<exists>v. Init (cfg_Oidc cfg) discovery = Inr (Some v) \<and> v_cfg v = cfg_Oidc cfg \<and> g = Some \<lparr>g_verifier = verify v\<rparr>))"
  using assms
  by (fastforce simp: startup_def NewRouter_def WithVerifier_def Init_def Let_def
      split: sum.splits prod.splits if_splits option.splits)

lemma serve_request_outcome:
  assumes "library_forwards lib" and "P (st_app s)"
    and "\<And>r' (s' :: 's http). same_credential r r' \<Longrightarrow> st_app s' = st_app s
      \<Longrightarrow> P (st_app (snd (dispatch dl (rt_operations rt) r' s')))"
  shows "P (st_app (snd (serve_request env lib dl cfg rt r s)))"
  unfolding serve_request_def by (rule chain_outcome [OF assms])

text \<open>A change that a request makes is that of one credited profile operation.\<close>

lemma served_outcome:
  assumes "library_forwards lib" and law: "lawful_dispatch dl"
    and ops: "rt_operations rt = registerOperations WriteErr (profile_services ds ping pg) mb (Some g)"
  shows "st_app (snd (serve_request env lib dl cfg rt r s)) = st_app s
    \<or> (\<exists>op fn i ids. (op, fn) \<in> set (registerProfile WriteErr (profile_services ds ping pg) mb (Some g))
         \<and> credited (g_verifier g) r i \<and> may (op_OperationID op) i
         \<and> handler_leaves fn ids (st_app s) (st_app (snd (serve_request env lib dl cfg rt r s))))"
  (is "?P (st_app (snd (serve_request env lib dl cfg rt r s)))")
proof (rule serve_request_outcome [OF assms(1), of ?P])
  fix r' and s' :: "db http"
  assume "same_credential r r'" "st_app s' = st_app s"
  then show "?P (st_app (snd (dispatch dl (rt_operations rt) r' s')))"
    using dispatch_outcome [OF law ops, of r' s'] by (simp add: credited_same)
qed simp

text \<open>What the claims of a credited token list, and so whoever made a change.\<close>

lemma credited_claims:
  assumes "credited (Verify vcfg tokens header_typ) r i" and "may opid i"
  shows "\<exists>token tok cs. bearerToken (header_get r ''Authorization'') = Some token
    \<and> tokens token = Inr tok \<and> tok_Subject tok \<noteq> [] \<and> tok_claims tok = Inr cs
    \<and> (if opid = ''get-profile'' then ''profile:read'' else ''profile:write'')
        \<in> set (claimList cs (oidc_ScopeClaim vcfg))
    \<and> (opid = ''delete-profile'' \<longrightarrow> ''admin'' \<in> set (claimList cs (oidc_RolesClaim vcfg)))"
proof -
  from assms(1) obtain token where token: "bearerToken (header_get r ''Authorization'') = Some token"
    "Verify vcfg tokens header_typ token = Inr i" by (auto simp: credited_def)
  from token(2) obtain tok cs where "tokens token = Inr tok" "tok_claims tok = Inr cs" "tok_Subject tok \<noteq> []"
    "Scopes i = claimList cs (oidc_ScopeClaim vcfg)" "Roles i = claimList cs (oidc_RolesClaim vcfg)"
    by (rule Verify_Inr) simp
  then show ?thesis using token(1) assms(2) by (auto simp: may_def split: if_splits)
qed

lemma credited_change:
  assumes reg: "(op, fn) \<in> set (registerProfile WriteErr (profile_services ds ping pg) mb g)"
    and leaves: "handler_leaves fn ids s t" and changed: "db_table t u \<noteq> db_table s u"
    and i: "credited (Verify vcfg tokens header_typ) r i" "may (op_OperationID op) i"
  shows "\<exists>token tok cs. bearerToken (header_get r ''Authorization'') = Some token
    \<and> tokens token = Inr tok \<and> tok_Subject tok \<noteq> [] \<and> tok_claims tok = Inr cs
    \<and> ''profile:write'' \<in> set (claimList cs (oidc_ScopeClaim vcfg))
    \<and> (db_table t u = None \<longrightarrow> ''admin'' \<in> set (claimList cs (oidc_RolesClaim vcfg)))"
proof -
  have "op_OperationID op \<noteq> ''get-profile''" "db_table t u = None \<Longrightarrow> op_OperationID op = ''delete-profile''"
    using profile_handler_table [OF reg leaves, of u] changed by auto
  with credited_claims [OF i] show ?thesis by auto
qed

text \<open>
  End to end, nobody changes a profile without authority.  Take any service that started
  with authentication enabled, and any request.  If the stored profiles differ after it was
  served, it carried a bearer token that the discovered provider's key set verified, whose
  claims list the write scope; and if a profile disappeared, they list the admin role as well.
\<close>

lemma data_changes_only_when_authorised:
  assumes started: "startup DefaultConfig WriteErr config_result otel_result db_result discovery
      (\<lambda>v. Verify (v_cfg v) (tokens v) header_typ) = Ready cfg flush rt server"
    and "db_result cfg = Inr (initServices (initRepositories ds ping pg))" and "oidc_Enabled (cfg_Oidc cfg)"
    and "library_forwards lib" and "lawful_dispatch dl"
    and changed: "db_table (st_app (snd (serve_request env lib dl cfg rt r s))) u \<noteq> db_table (st_app s) u"
  shows "\<exists>v token tok cs. Init (cfg_Oidc cfg) discovery = Inr (Some v)
    \<and> bearerToken (header_get r ''Authorization'') = Some token
    \<and> tokens v token = Inr tok \<and> tok_Subject tok \<noteq> [] \<and> tok_claims tok = Inr cs
    \<and> ''profile:write'' \<in> set (claimList cs (oidc_ScopeClaim (cfg_Oidc cfg)))
    \<and> (db_table (st_app (snd (serve_request env lib dl cfg rt r s))) u = None
        \<longrightarrow> ''admin'' \<in> set (claimList cs (oidc_RolesClaim (cfg_Oidc cfg))))"
proof -
  let ?t = "st_app (snd (serve_request env lib dl cfg rt r s))"
  obtain v where v: "Init (cfg_Oidc cfg) discovery = Inr (Some v)" "v_cfg v = cfg_Oidc cfg"
    and ops: "rt_operations rt = registerOperations WriteErr (profile_services ds ping pg)
      (http_MaxBodyBytes (cfg_Http cfg)) (Some \<lparr>g_verifier = Verify (v_cfg v) (tokens v) header_typ\<rparr>)"
    using Ready_service [OF started assms(2)] assms(3) by auto
  obtain op fn i ids where reg: "(op, fn) \<in> set (registerProfile WriteErr (profile_services ds ping pg)
        (http_MaxBodyBytes (cfg_Http cfg)) (Some \<lparr>g_verifier = Verify (v_cfg v) (tokens v) header_typ\<rparr>))"
      and i: "credited (Verify (v_cfg v) (tokens v) header_typ) r i" "may (op_OperationID op) i"
      and leaves: "handler_leaves fn ids (st_app s) ?t"
    using served_outcome [OF assms(4,5) ops, of env cfg r s] changed by auto
  from credited_change [OF reg leaves changed i] show ?thesis using v by auto
qed

section \<open>A concrete service\<close>

definition sample_adapt :: "'s operation \<Rightarrow> 's operation_fn \<Rightarrow> 's handler" where
  "sample_adapt op fn r s =
     (case fn of
        OnCreate f \<Rightarrow>
          (Returned, s\<lparr>st_app := fst (snd (f (ids_of (rq_ctx r)) \<lparr>create_FirstName = ''Ada'', create_LastName = ''Byron''\<rparr> (st_app s)))\<rparr>)
      | _ \<Rightarrow> (Returned, s))"

definition sample_dispatch :: "'s dispatch_lib" where
  "sample_dispatch =
     \<lparr>dl_find = (\<lambda>ops r. List.find (\<lambda>(op, fn). op_Method op = rq_method r \<and> op_Path op = rq_path r) ops),
      dl_other = (\<lambda>r s. (Returned, update_writer (WriteHeader 404) s)), dl_adapt = sample_adapt\<rparr>"

lemma update_writer_app [simp]: "st_app (update_writer f s) = st_app s"
  by (simp add: update_writer_def)

lemma fixed_names_valid: "CreateRequest_valid \<lparr>create_FirstName = ''Ada'', create_LastName = ''Byron''\<rparr>"
  by (simp add: CreateRequest_valid_def name_valid_def runes_ascii ascii_def byte_def)

lemma sample_dispatch_lawful: "lawful_dispatch sample_dispatch"
proof -
  have "st_app (snd (sample_adapt op fn r s)) = st_app s
      \<or> handler_leaves fn (ids_of (rq_ctx r)) (st_app s) (st_app (snd (sample_adapt op fn r s)))" for op fn r s
    using fixed_names_valid by (cases fn) (auto simp: sample_adapt_def)
  then show ?thesis
    unfolding lawful_dispatch_def
    by (simp add: sample_dispatch_def) (auto simp: find_Some_iff in_set_conv_nth)
qed

text \<open>A layer that hands a request on unchanged but for its context.\<close>

definition hands_on :: "'s middleware \<Rightarrow> bool" where
  "hands_on mw \<longleftrightarrow> (\<forall>next r (s :: 's http). \<exists>r' (s' :: 's http). same_credential r r' \<and> rq_method r' = rq_method r \<and> rq_path r' = rq_path r
     \<and> st_app s' = st_app s \<and> st_app (snd (mw next r s)) = st_app (snd (next r' s')))"

lemma hands_onI:
  "(\<And>next r (s :: 's http). same_credential r (f r s) \<and> rq_method (f r s) = rq_method r \<and> rq_path (f r s) = rq_path r
      \<and> st_app (g r s) = st_app s \<and> st_app (snd (mw next r s)) = st_app (snd (next (f r s) (g r s))))
   \<Longrightarrow> hands_on (mw :: 's middleware)"
  unfolding hands_on_def by blast

lemma hands_on_forwards: "hands_on mw \<Longrightarrow> forwarding mw"
  unfolding hands_on_def by unfold_locales (meson app_effect_next)

lemma hands_on_id: "hands_on (\<lambda>next. next)"
  by (rule hands_onI [of "\<lambda>r s. r" "\<lambda>r s. s"]) simp

lemma sample_lib_hands_on:
  "hands_on (sl_CleanPath sample_lib)" "hands_on (sl_Timeout sample_lib d)" "hands_on (sl_Heartbeat sample_lib p)"
  "hands_on (sl_NoCache sample_lib)" "hands_on (sl_AllowContentEncoding sample_lib es)"
  "hands_on (sl_Cors sample_lib opts)" "hands_on (sl_ClientIP sample_lib src)"
  "hands_on (sl_LimitBy sample_lib n w key)"
proof -
  show "hands_on (sl_Timeout sample_lib d)"
    by (rule hands_onI [of "\<lambda>r s. r\<lparr>rq_ctx := (rq_ctx r)\<lparr>cx_deadline := Some (st_now s + d)\<rparr>\<rparr>" "\<lambda>r s. s"])
       (simp add: sample_lib_def same_credential_def)
qed (simp_all add: sample_lib_def hands_on_id)

lemma sample_lib_forwards: "library_forwards sample_lib"
  by (simp add: library_forwards_def hands_on_forwards sample_lib_hands_on)

lemma recoverer_hands_on: "hands_on (recoverer env)"
  by (rule hands_onI [of "\<lambda>r s. r" "\<lambda>r s. s"])
     (simp add: recoverer_def reportPanic_def split: prod.split completion.split)

lemma correlation_hands_on: "hands_on (correlation env)"
  by (rule hands_onI [of
        "\<lambda>r s. r\<lparr>rq_ctx := (rq_ctx r)\<lparr>cx_request_id := Some (he_NewV7 env (st_uuids s)),
           cx_correlation_id := Some (if safeId (header_get r correlationIdHeader) = [] then he_NewV7 env (st_uuids s)
             else safeId (header_get r correlationIdHeader))\<rparr>\<rparr>"
        "\<lambda>r s. update_writer (Header_Set correlationIdHeader
             (if safeId (header_get r correlationIdHeader) = [] then he_NewV7 env (st_uuids s)
              else safeId (header_get r correlationIdHeader)))
           (update_writer (Header_Set requestIdHeader (he_NewV7 env (st_uuids s))) (s\<lparr>st_uuids := Suc (st_uuids s)\<rparr>))"])
     (simp add: correlation_def Let_def same_credential_def)

lemma observing_hands_on:
  "hands_on (tracing env)" "hands_on (accessLogger env cfg)" "hands_on (metrics_middleware env)"
  by (rule hands_onI [of "\<lambda>r s. traced_request env r" "\<lambda>r s. s"],
      simp add: trace.same_app traced_request_def same_credential_def Let_def)
     (rule hands_onI [of "\<lambda>r s. r" "\<lambda>r s. s"], simp add: access.same_app meter.same_app)+

lemma bodyLimit_hands_on: "hands_on (bodyLimit_handler n)"
  by (rule hands_onI [of "\<lambda>r s. r\<lparr>rq_body_limit := Some (case rq_body_limit r of None \<Rightarrow> n | Some m \<Rightarrow> min m n)\<rparr>" "\<lambda>r s. s"])
     (simp add: bodyLimit_handler_def same_credential_def)

lemma hands_onE:
  assumes "hands_on (mw :: 's middleware)"
  obtains r' and s' :: "'s http" where "same_credential r r'" "rq_method r' = rq_method r" "rq_path r' = rq_path r"
    "st_app s' = st_app s" "st_app (snd (mw next r s)) = st_app (snd (next r' s'))"
  using assms unfolding hands_on_def by blast

lemma hands_on_comp:
  assumes outer: "hands_on (mw :: 's middleware)" and inner: "hands_on (mw' :: 's middleware)"
  shows "hands_on (\<lambda>next. mw (mw' next))"
  unfolding hands_on_def
proof (intro allI)
  fix "next" :: "'s handler" and r :: request and s :: "'s http"
  obtain r1 and t1 :: "'s http" where 1: "same_credential r r1" "rq_method r1 = rq_method r" "rq_path r1 = rq_path r"
    "st_app t1 = st_app s" "st_app (snd (mw (mw' next) r s)) = st_app (snd (mw' next r1 t1))"
    by (rule hands_onE [OF outer])
  obtain r2 and t2 :: "'s http" where 2: "same_credential r1 r2" "rq_method r2 = rq_method r1" "rq_path r2 = rq_path r1"
    "st_app t2 = st_app t1" "st_app (snd (mw' next r1 t1)) = st_app (snd (next r2 t2))"
    by (rule hands_onE [OF inner])
  show "\<exists>r' (s' :: 's http). same_credential r r' \<and> rq_method r' = rq_method r \<and> rq_path r' = rq_path r
      \<and> st_app s' = st_app s \<and> st_app (snd (mw (mw' next) r s)) = st_app (snd (next r' s'))"
    using 1 2 same_credential_trans [OF 1(1) 2(1)] by (intro exI [of _ r2] exI [of _ t2]) simp
qed

lemma chain_hands_on: "(\<And>l. hands_on (apply_layer env lib cfg l)) \<Longrightarrow> hands_on (chain env lib cfg ls)"
proof (induction ls)
  case Nil
  show ?case by (simp add: hands_on_id)
next
  case (Cons l ls)
  from hands_on_comp [OF Cons.prems Cons.IH [OF Cons.prems]] show ?case by simp
qed

lemmas own_layers_hands_on = recoverer_hands_on correlation_hands_on observing_hands_on bodyLimit_hands_on

lemma sample_chain_hands_on: "hands_on (chain env sample_lib cfg ls)"
proof (rule chain_hands_on)
  show "hands_on (apply_layer env sample_lib cfg l)" for l
    by (cases l) (simp_all add: sample_lib_hands_on own_layers_hands_on)
qed

definition sample_system_cfg :: Config where
  "sample_system_cfg = default_config\<lparr>cfg_Oidc := sample_cfg\<lparr>oidc_RequireTypedAccessToken := False\<rparr>\<rparr>"

definition writer_claims :: claims where
  "writer_claims = [(''scope'', VList [VString ''profile:write''])]"

definition writer_tokens :: "gostring \<Rightarrow> gerror + id_token" where
  "writer_tokens raw =
     (if raw = ''t'' then Inr \<lparr>tok_Subject = ''u1'', tok_claims = Inr writer_claims\<rparr>
      else Inl (Foreign ''failed to verify signature'' False))"

definition sample_post :: request where
  "sample_post = (sample_request ''POST'' ''/api/v1/profile'')
     \<lparr>rq_header := (\<lambda>k. if k = ''Authorization'' then [''Bearer t''] else [])\<rparr>"

definition sample_startup :: "pg_env \<Rightarrow> db startup" where
  "sample_startup pg = startup
     (\<lambda>n v. \<lparr>oc_Title = n, oc_Version = v, oc_OpenAPIPath = [], oc_DocsPath = [],
        oc_DocsRenderer = DocsRendererStoplight,
        oc_Schemas = (\<lambda>namer. \<lparr>sr_prefix = [], sr_namer = namer\<rparr>), oc_SecuritySchemes = None, oc_CreateHooks = 1\<rparr>)
     (\<lambda>c msg. WriteHeader c) (Inr sample_system_cfg) (\<lambda>_. Inr NoopShutdown)
     (\<lambda>_. Inr (profile_services (\<lambda>_. []) (\<lambda>_. (None, undefined)) pg))
     (\<lambda>issuer t. Inr ()) (\<lambda>v. Verify (v_cfg v) writer_tokens Inr)"

lemma sample_bearer: "bearerToken ''Bearer t'' = Some ''t''"
proof -
  have "segments ''t'' = [(116, ''t'')]" by (subst segments_ascii) (simp_all add: byte_def)
  then show ?thesis
    by (simp add: bearerToken_def bearerPrefix_length bearerPrefix_fold ascii_lower_def byte_def trim_space_def
        space_rune_def Let_def)
qed

lemma sample_Init: "Init (cfg_Oidc sample_system_cfg) (\<lambda>issuer t. Inr ()) = Inr (Some v) \<Longrightarrow>
    Verify (v_cfg v) writer_tokens Inr ''t'' =
      Inr \<lparr>Subject = ''u1'', Scopes = [''profile:write''], Roles = [], Claims = writer_claims\<rparr>"
  by (auto simp: Init_def sample_system_cfg_def sample_cfg_def default_config_def Verify_def writer_tokens_def
      writer_claims_def idTokenOnlyClaims_def claimList_def lookupClaim_def)

lemma sample_started:
  "\<exists>rt. sample_startup pg = Ready sample_system_cfg NoopShutdown rt (NewServer (cfg_Http sample_system_cfg))"
  by (simp add: sample_startup_def startup_def Init_def sample_system_cfg_def sample_cfg_def default_config_def
      NewRouter_def WithVerifier_def Let_def split: prod.split)

definition create_operation :: "write_err \<Rightarrow> int \<Rightarrow> guard \<Rightarrow> 's operation" where
  "create_operation WriteErr mb g =
     secured WriteErr (plain_operation ''create-profile'' ''POST'' ''/api/v1/profile'' 201 mb) (Scope [scopeProfileWrite]) (Some g)"

lemma sample_create_dispatched:
  assumes "g_verifier g ''t'' = Inr i" and "HasScope i ''profile:write''" and "dl_find dl = dl_find sample_dispatch"
    and r: "same_credential sample_post r" "rq_method r = rq_method sample_post" "rq_path r = rq_path sample_post"
  shows "dispatch dl (registerOperations WriteErr svc mb (Some g)) r s =
    dl_adapt dl (create_operation WriteErr mb g) (OnCreate (create_profile svc)) (r\<lparr>rq_ctx := NewContext (rq_ctx r) i\<rparr>) s"
proof -
  have "rq_method r = ''POST''" "rq_path r = ''/api/v1/profile''"
    using r by (simp_all add: sample_post_def sample_request_def)
  then have found: "dl_find dl (registerOperations WriteErr svc mb (Some g)) r
      = Some (create_operation WriteErr mb g, OnCreate (create_profile svc))"
    by (simp add: assms(3) sample_dispatch_def registerOperations_def registerHealth_def registerProfile_def
        plain_operation_def secured_def create_operation_def Let_def)
  have "header_get r ''Authorization'' = ''Bearer t''"
    using same_credential_header [OF r(1)] by (simp add: sample_post_def header_get_def)
  with assms(1,2) have "admitted g (Scope [scopeProfileWrite]) r = Some i"
    by (simp add: admitted_def authorizationHeader_def sample_bearer Scope_satisfied scopeProfileWrite_def del: HasScope_iff)
  from guard_admits [OF this]
  have "run_operation (create_operation WriteErr mb g) h r s = h (r\<lparr>rq_ctx := NewContext (rq_ctx r) i\<rparr>) s" for h
    by (simp add: run_operation_def secured_def plain_operation_def create_operation_def Let_def)
  then show ?thesis by (simp add: dispatch_def found)
qed

lemma fresh_http_app: "st_app (fresh_http app) = app"
  by (simp add: fresh_http_def)

text \<open>The creation, carried by any stack that hands it on and any way of finding operations as here.\<close>

lemma sample_create_served:
  assumes "sample_startup pg = Ready sample_system_cfg NoopShutdown rt server"
    and "hands_on (chain sample_env lib (cfg_Http sample_system_cfg) (rt_layers rt))"
    and "dl_find dl = dl_find sample_dispatch"
  obtains op r' and s' :: "db http" where "st_app s' = empty_db" "op_DefaultStatus op = 201"
    "st_app (snd (serve_request sample_env lib dl sample_system_cfg rt sample_post (fresh_http empty_db)))
      = st_app (snd (dl_adapt dl op (OnCreate (create_profile (profile_services (\<lambda>_. []) (\<lambda>_. (None, undefined)) pg))) r' s'))"
proof -
  note started = assms(1) [unfolded sample_startup_def]
  let ?svc = "profile_services (\<lambda>_. []) (\<lambda>_. (None, undefined)) pg"
  have "oidc_Enabled (cfg_Oidc sample_system_cfg)"
    by (simp add: sample_system_cfg_def sample_cfg_def default_config_def)
  then obtain v where v: "Init (cfg_Oidc sample_system_cfg) (\<lambda>issuer t. Inr ()) = Inr (Some v)"
    and ops: "rt_operations rt = registerOperations (\<lambda>c msg. WriteHeader c) ?svc
      (http_MaxBodyBytes (cfg_Http sample_system_cfg)) (Some \<lparr>g_verifier = Verify (v_cfg v) writer_tokens Inr\<rparr>)"
    using Ready_service [OF started refl] by auto
  let ?g = "\<lparr>g_verifier = Verify (v_cfg v) writer_tokens Inr\<rparr>"
  obtain r' and s' :: "db http" where r': "same_credential sample_post r'" "rq_method r' = rq_method sample_post"
    "rq_path r' = rq_path sample_post" and s': "st_app s' = st_app (fresh_http empty_db)"
    and served: "st_app (snd (serve_request sample_env lib dl sample_system_cfg rt sample_post (fresh_http empty_db)))
      = st_app (snd (dispatch dl (rt_operations rt) r' s'))"
    unfolding serve_request_def by (rule hands_onE [OF assms(2)])
  have token: "g_verifier ?g ''t'' = Inr \<lparr>Subject = ''u1'', Scopes = [''profile:write''], Roles = [], Claims = writer_claims\<rparr>"
    using sample_Init [OF v] by simp
  have "op_DefaultStatus (create_operation (\<lambda>c msg. WriteHeader c) mb ?g) = 201" for mb
    by (simp add: create_operation_def secured_def plain_operation_def Let_def)
  with s' show thesis
    using served unfolding ops sample_create_dispatched [OF token _ assms(3) r', simplified]
    by (intro that) (auto simp: fresh_http_app)
qed

lemma sample_served:
  assumes "sample_startup sample_pg = Ready sample_system_cfg NoopShutdown rt server"
  shows "st_app (snd (serve_request sample_env sample_lib sample_dispatch sample_system_cfg rt sample_post (fresh_http empty_db)))
    = sample_db"
proof -
  obtain op r' and s' :: "db http" where "st_app s' = empty_db"
    "st_app (snd (serve_request sample_env sample_lib sample_dispatch sample_system_cfg rt sample_post (fresh_http empty_db)))
      = st_app (snd (dl_adapt sample_dispatch op
          (OnCreate (create_profile (profile_services (\<lambda>_. []) (\<lambda>_. (None, undefined)) sample_pg))) r' s'))"
    by (rule sample_create_served [OF assms sample_chain_hands_on refl])
  then show ?thesis
    using sample_create
    by (simp add: sample_dispatch_def sample_adapt_def create_profile_def svc_Create_def sample_profile_def)
qed

text \<open>
  The profiles a service can hold: those after any sequence of requests, each served by the
  whole stack from whatever state it left the rest of the process in.
\<close>

inductive service_reachable ::
  "http_env \<Rightarrow> db stack_lib \<Rightarrow> db dispatch_lib \<Rightarrow> Config \<Rightarrow> db router \<Rightarrow> db \<Rightarrow> bool"
  for env lib dl cfg rt where
  service_starts: "service_reachable env lib dl cfg rt empty_db"
| service_serves: "service_reachable env lib dl cfg rt app \<Longrightarrow> st_app s = app
    \<Longrightarrow> service_reachable env lib dl cfg rt (st_app (snd (serve_request env lib dl cfg rt r s)))"

lemma served_step:
  assumes "library_forwards lib" and law: "lawful_dispatch dl"
    and ops: "rt_operations rt = registerOperations WriteErr (profile_services ds ping pg) mb g"
    and "db_reachable pg (st_app s)"
  shows "db_reachable pg (st_app (snd (serve_request env lib dl cfg rt r s)))"
proof (rule serve_request_outcome [OF assms(1), of "db_reachable pg"])
  fix r' and s' :: "db http"
  assume "st_app s' = st_app s"
  then show "db_reachable pg (st_app (snd (dispatch dl (rt_operations rt) r' s')))"
    using dispatch_step [OF law ops, of r' s'] assms(4) reach_step by auto
qed (rule assms(4))

text \<open>
  C9: the stored profiles stay sound for the whole life of the service, whoever calls it, with
  authentication on or off, and however statements and handlers fail: every row any request
  can ever meet satisfies the table's constraints and has both its timestamps, so reading it
  cannot fail on its content.
\<close>

theorem service_keeps_profiles_sound:
  assumes started: "startup DefaultConfig WriteErr config_result otel_result db_result discovery verify = Ready cfg flush rt server"
    and "db_result cfg = Inr (initServices (initRepositories ds ping pg))"
    and "library_forwards lib" and "lawful_dispatch dl"
    and "service_reachable env lib dl cfg rt app" and "db_table app u = Some w"
  shows "row_constraint w \<and> (\<exists>tms. scan_times w = Inr tms)"
proof -
  obtain g where ops: "rt_operations rt = registerOperations WriteErr (profile_services ds ping pg) (http_MaxBodyBytes (cfg_Http cfg)) g"
    using Ready_service [OF started assms(2)] by blast
  from assms(5) have "db_reachable pg app"
    by (induction rule: service_reachable.induct)
       (auto intro: reach_empty served_step [OF assms(3,4) ops])
  from well_formedD [OF db_reachable_well_formed [OF this] assms(6)] show ?thesis using scan_times_complete by blast
qed

theorem service_keeps_profiles_sound_witness:
  "row_constraint sample_row \<and> (\<exists>tms. scan_times sample_row = Inr tms)"
proof -
  obtain rt where rt: "sample_startup sample_pg = Ready sample_system_cfg NoopShutdown rt (NewServer (cfg_Http sample_system_cfg))"
    using sample_started by blast
  note started = rt [unfolded sample_startup_def]
  from sample_served [OF rt] have "service_reachable sample_env sample_lib sample_dispatch sample_system_cfg rt sample_db"
    using service_serves [OF service_starts, of "fresh_http empty_db"] by (metis fresh_http_app)
  from service_keeps_profiles_sound [OF started refl sample_lib_forwards sample_dispatch_lawful this, of 0]
  show ?thesis by (simp add: sample_db_def)
qed

end
