(* ===== verification/Response.thy ===== *)
theory Response
  imports System
begin

text \<open>
  What a response writer may look like, and that everything between a request and its answer
  keeps it so: a response without a status has sent nothing, a status once sent is final
  together with the headers sent with it, and the body only grows.  The locale
  \<open>response_keeping\<close> is that contract for a middleware; each layer of the repository is an
  interpretation of it.
\<close>

section \<open>Well-formed responses\<close>

definition wf_writer :: "writer \<Rightarrow> bool" where
  "wf_writer w \<longleftrightarrow>
     (wr_code w = 0 \<longrightarrow> wr_body w = [] \<and> wr_sent w = Map.empty)
     \<and> (wr_code w = 0 \<or> wr_code w = 101 \<or> 200 \<le> wr_code w)"

text \<open>A writer later in the same exchange.\<close>

definition evolves :: "writer \<Rightarrow> writer \<Rightarrow> bool" where
  "evolves w w' \<longleftrightarrow>
     (wf_writer w \<longrightarrow> wf_writer w')
     \<and> (wr_code w \<noteq> 0 \<longrightarrow> wr_code w' = wr_code w \<and> wr_sent w' = wr_sent w \<and> (\<exists>bs. wr_body w' = wr_body w @ bs))"

definition keeps_response :: "'s handler \<Rightarrow> bool" where
  "keeps_response h \<longleftrightarrow> (\<forall>r s. evolves (st_writer s) (st_writer (snd (h r s))))"

locale response_keeping =
  fixes mw :: "'s middleware"
  assumes keeps: "keeps_response next \<Longrightarrow> keeps_response (mw next)"
begin

lemma keeps_each: "keeps_response next \<Longrightarrow> evolves (st_writer s) (st_writer (snd (mw next r s)))"
  using keeps unfolding keeps_response_def by blast

end

section \<open>Lemmas on writers\<close>

lemma evolves_refl [simp, intro]: "evolves w w"
  by (simp add: evolves_def)

lemma evolves_trans:
  assumes "evolves w w'" and "evolves w' w''"
  shows "evolves w w''"
  using assms unfolding evolves_def by (metis append.assoc)

lemma evolves_Header_Set [simp]: "evolves w (Header_Set k v w)"
  by (auto simp: evolves_def wf_writer_def Header_Set_def)

lemma evolves_Header_Del [simp]: "evolves w (Header_Del k w)"
  by (auto simp: evolves_def wf_writer_def Header_Del_def)

lemma evolves_WriteHeader [simp]: "c = 101 \<or> 100 \<le> c \<Longrightarrow> evolves w (WriteHeader c w)"
  by (auto simp: evolves_def wf_writer_def WriteHeader_def)

lemma evolves_Write [simp]: "evolves w (snd (Write bs w))"
  by (auto simp: evolves_def wf_writer_def Write_def WriteHeader_def Let_def split: option.split)

lemma evolves_http_Error [simp]: "100 \<le> c \<Longrightarrow> evolves w (http_Error msg c w)"
  unfolding http_Error_def
  by (rule evolves_trans [OF _ evolves_Write], rule evolves_trans [OF _ evolves_WriteHeader];
      simp?) (blast intro: evolves_trans evolves_Header_Set evolves_Header_Del)

lemma evolves_writeInternalError: "evolves (st_writer s) (st_writer (writeInternalError env ctx s))"
proof (cases "he_marshal_500 env")
  case (Inl err)
  then show ?thesis by (simp add: writeInternalError_def)
next
  case (Inr body)
  let ?w = "WriteHeader 500 (Header_Set ''Content-Type'' problemContentType (st_writer s))"
  have "evolves (st_writer s) ?w"
    by (rule evolves_trans [OF evolves_Header_Set evolves_WriteHeader]) simp
  moreover have "st_writer (writeInternalError env ctx s) = snd (Write body ?w)"
    using Inr by (simp add: writeInternalError_def Let_def split: prod.split option.split)
  ultimately show ?thesis using evolves_trans [OF _ evolves_Write] by simp
qed

section \<open>The layers keep the contract\<close>

lemma keeps_responseD: "keeps_response h \<Longrightarrow> evolves (st_writer s) (st_writer (snd (h r s)))"
  by (simp add: keeps_response_def)

text \<open>An observer leaves the writer as what it watches left it.\<close>

context observer
begin

lemma observer_keeps_response: "response_keeping mw"
proof
  fix "next" :: "'s handler"
  assume inner: "keeps_response next"
  have "st_writer (snd (mw next r s)) = st_writer (snd (next (adopt r) s))" for r s
    using watched [of "next" r s] by (simp add: response_of_def)
  with inner show "keeps_response (mw next)" by (simp add: keeps_response_def)
qed

end

interpretation keep_access: response_keeping "accessLogger env cfg" for env cfg
  by (rule access.observer_keeps_response)

interpretation keep_trace: response_keeping "tracing env" for env
  by (rule trace.observer_keeps_response)

interpretation keep_meter: response_keeping "metrics_middleware env" for env
  by (rule meter.observer_keeps_response)

interpretation keep_correlation: response_keeping "correlation env" for env
proof
  fix "next" :: "'s handler"
  assume inner: "keeps_response next"
  show "keeps_response (correlation env next)"
    unfolding keeps_response_def correlation_def Let_def
    by (intro allI evolves_trans [OF _ keeps_responseD [OF inner]])
       (simp, blast intro: evolves_trans evolves_Header_Set)
qed

interpretation keep_recoverer: response_keeping "recoverer env" for env
proof
  fix "next" :: "'s handler"
  assume inner: "keeps_response next"
  show "keeps_response (recoverer env next)"
    unfolding keeps_response_def
  proof (intro allI)
    fix r :: request and s :: "'s http"
    obtain c s1 where run: "next r s = (c, s1)" by fastforce
    then have "evolves (st_writer s) (st_writer s1)" using keeps_responseD [OF inner, of s r] by simp
    moreover have "evolves (st_writer s1) (st_writer (snd (recoverer env next r s)))"
      using evolves_writeInternalError [of "add_log l s1" for l]
      by (auto simp: recoverer_def run reportPanic_def split: completion.split)
    ultimately show "evolves (st_writer s) (st_writer (snd (recoverer env next r s)))" by (rule evolves_trans)
  qed
qed

interpretation keep_body: response_keeping "bodyLimit_handler n" for n
  by unfold_locales (simp add: keeps_response_def bodyLimit_handler_def)

text \<open>The same of the layers of the libraries, and of huma's error writer on the statuses in use.\<close>

definition library_keeps :: "'s stack_lib \<Rightarrow> bool" where
  "library_keeps lib \<longleftrightarrow>
     response_keeping (sl_CleanPath lib) \<and> (\<forall>d. response_keeping (sl_Timeout lib d))
     \<and> (\<forall>p. response_keeping (sl_Heartbeat lib p)) \<and> response_keeping (sl_NoCache lib)
     \<and> (\<forall>es. response_keeping (sl_AllowContentEncoding lib es))
     \<and> (\<forall>opts. response_keeping (sl_Cors lib opts)) \<and> (\<forall>src. response_keeping (sl_ClientIP lib src))
     \<and> (\<forall>n w key. response_keeping (sl_LimitBy lib n w key))"

definition writes_errors :: "write_err \<Rightarrow> bool" where
  "writes_errors WriteErr \<longleftrightarrow> (\<forall>c msg w. 400 \<le> c \<longrightarrow> c < 600 \<longrightarrow> evolves w (WriteErr c msg w))"

lemma chain_keeps:
  assumes "library_keeps lib" and "keeps_response h"
  shows "keeps_response (chain env lib cfg ls h)"
proof (induction ls)
  case (Cons l ls)
  have "response_keeping (apply_layer env lib cfg l)"
    using assms(1)
    by (cases l) (simp_all add: library_keeps_def keep_access.response_keeping_axioms keep_trace.response_keeping_axioms
        keep_meter.response_keeping_axioms keep_correlation.response_keeping_axioms
        keep_recoverer.response_keeping_axioms keep_body.response_keeping_axioms)
  from response_keeping.keeps [OF this Cons.IH] show ?case by (simp add: keeps_response_def)
qed (use assms(2) in \<open>simp add: keeps_response_def\<close>)

lemma statusError_range: "400 \<le> se_status (statusError t) \<and> se_status (statusError t) < 600"
  by (simp add: statusError_def Let_def)

lemma deny_keeps:
  assumes "writes_errors WriteErr"
  shows "evolves (st_writer s) (st_writer (snd (deny WriteErr operation t reason extra r s)))"
proof -
  have writes: "evolves w (WriteErr (se_status (statusError t)) msg w)" for msg w
    using assms statusError_range [of t] unfolding writes_errors_def by blast
  from evolves_trans [OF evolves_Header_Set writes] writes show ?thesis unfolding deny_writer by presburger
qed

lemma guard_keeps:
  assumes "writes_errors WriteErr"
  shows "response_keeping (guard_middleware WriteErr g req operation)"
proof
  fix "next" :: "'s handler"
  assume inner: "keeps_response next"
  show "keeps_response (guard_middleware WriteErr g req operation next)"
    unfolding keeps_response_def
  proof (intro allI)
    fix r :: request and s :: "'s http"
    show "evolves (st_writer s) (st_writer (snd (guard_middleware WriteErr g req operation next r s)))"
    proof (cases "admitted g req r")
      case None
      from guard_refuses [OF None, of WriteErr operation "next" s] show ?thesis using deny_keeps [OF assms] by auto
    next
      case (Some i)
      from guard_admits [OF Some, of WriteErr operation "next" s] show ?thesis using keeps_responseD [OF inner] by simp
    qed
  qed
qed

lemma registered_keeps:
  assumes "writes_errors WriteErr" and "(op, fn) \<in> set (registerOperations WriteErr svc mb g)" and "keeps_response h"
  shows "keeps_response (run_operation op h)"
proof -
  have plain: "keeps_response (run_operation (plain_operation opid m p st b) h)" for opid m p st b
    using assms(3) by (simp add: run_operation_def plain_operation_def)
  have sec: "keeps_response (run_operation (secured WriteErr (plain_operation opid m p st b) req g) h)" for opid m p st b req
    using plain response_keeping.keeps [OF guard_keeps [OF assms(1)] assms(3)]
    by (cases g) (simp_all add: secured_def Let_def run_operation_def plain_operation_def)
  show ?thesis
    using assms(2) plain sec unfolding registerOperations_def registerHealth_def registerProfile_def by auto
qed

section \<open>Properties\<close>


lemma hands_writer: "(\<And>next r s. \<exists>r'. mw next r s = next r' s) \<Longrightarrow> response_keeping mw"
  by unfold_locales (metis keeps_response_def)

lemma sample_lib_keeps: "library_keeps sample_lib"
  by (auto simp: library_keeps_def sample_lib_def intro!: hands_writer)


end
