(* ===== verification/Concurrent.thy ===== *)
theory Concurrent
  imports System
begin

text \<open>
  Many requests at once.  Each request runs in a goroutine of its own and touches the shared
  table in one place, the single statement its handler sends, for which it holds one
  connection of the pool.  Arrivals, the wait for a connection, the statement and the return of
  the connection interleave freely; PostgreSQL runs a single statement atomically.

  The locale \<open>served_atomically\<close> proves what every interleaving has in common with a
  sequential run.  The handlers of the service, over the profiles table, are an interpretation
  of it here, and the requests of a session, through the whole stack, in \<open>Sessions\<close>.
\<close>

section \<open>Requests in flight\<close>

datatype ('c, 'a) phase = Arrived 'c | Connected 'c | Executed 'c 'a | Answered 'c 'a

record ('c, 'a, 's) conc =
  cc_db :: 's
  cc_free :: nat
  cc_req :: "nat \<Rightarrow> ('c, 'a) phase option"

text \<open>
  \<open>Skip\<close> is a request that is answered without a statement: its deadline passes while it
  waits for a connection, or it needs none.
\<close>

datatype 'c conc_event = Arrive nat 'c | Connect nat | Skip nat | Execute_statement nat | Release nat

inductive conc_step ::
  "('c \<Rightarrow> 's \<Rightarrow> 'a \<times> 's) \<Rightarrow> ('c \<Rightarrow> 'a) \<Rightarrow> ('c, 'a, 's) conc \<Rightarrow> 'c conc_event \<Rightarrow> ('c, 'a, 's) conc \<Rightarrow> bool"
  for run skipped where
  "cc_req s i = None \<Longrightarrow>
     conc_step run skipped s (Arrive i c) (s\<lparr>cc_req := (cc_req s)(i \<mapsto> Arrived c)\<rparr>)"
| "cc_req s i = Some (Arrived c) \<Longrightarrow> cc_free s = Suc n \<Longrightarrow>
     conc_step run skipped s (Connect i) (s\<lparr>cc_free := n, cc_req := (cc_req s)(i \<mapsto> Connected c)\<rparr>)"
| "cc_req s i = Some (Arrived c) \<Longrightarrow>
     conc_step run skipped s (Skip i) (s\<lparr>cc_req := (cc_req s)(i \<mapsto> Answered c (skipped c))\<rparr>)"
| "cc_req s i = Some (Connected c) \<Longrightarrow> run c (cc_db s) = (a, d) \<Longrightarrow>
     conc_step run skipped s (Execute_statement i) (s\<lparr>cc_db := d, cc_req := (cc_req s)(i \<mapsto> Executed c a)\<rparr>)"
| "cc_req s i = Some (Executed c a) \<Longrightarrow>
     conc_step run skipped s (Release i) (s\<lparr>cc_free := Suc (cc_free s), cc_req := (cc_req s)(i \<mapsto> Answered c a)\<rparr>)"

inductive_cases conc_stepE:
  "conc_step run skipped s (Arrive i c) s'" "conc_step run skipped s (Connect i) s'"
  "conc_step run skipped s (Skip i) s'" "conc_step run skipped s (Execute_statement i) s'"
  "conc_step run skipped s (Release i) s'"

definition conc_init :: "nat \<Rightarrow> 's \<Rightarrow> ('c, 'a, 's) conc" where
  "conc_init max_conns d = \<lparr>cc_db = d, cc_free = max_conns, cc_req = (\<lambda>_. None)\<rparr>"

inductive conc_trace ::
  "('c \<Rightarrow> 's \<Rightarrow> 'a \<times> 's) \<Rightarrow> ('c \<Rightarrow> 'a) \<Rightarrow> nat \<Rightarrow> 's \<Rightarrow> 'c conc_event list \<Rightarrow> ('c, 'a, 's) conc \<Rightarrow> bool"
  for run skipped max_conns d where
  conc_starts: "conc_trace run skipped max_conns d [] (conc_init max_conns d)"
| conc_goes_on: "conc_trace run skipped max_conns d es s \<Longrightarrow> conc_step run skipped s e s'
    \<Longrightarrow> conc_trace run skipped max_conns d (es @ [e]) s'"

section \<open>The sequential reference\<close>

text \<open>The requests in the order of their statements, run one after the other.\<close>

fun executed :: "'c conc_event list \<Rightarrow> nat list" where
  "executed [] = []"
| "executed (Execute_statement i # es) = i # executed es"
| "executed (e # es) = executed es"

fun sequential :: "('c \<Rightarrow> 's \<Rightarrow> 'a \<times> 's) \<Rightarrow> 'c list \<Rightarrow> 's \<Rightarrow> 'a list \<times> 's" where
  "sequential run [] d = ([], d)"
| "sequential run (c # cs) d =
     (case run c d of (a, d1) \<Rightarrow> (case sequential run cs d1 of (as, d2) \<Rightarrow> (a # as, d2)))"

lemma executed_append: "executed (es @ fs) = executed es @ executed fs"
  by (induction es rule: executed.induct) auto

lemma sequential_append:
  "sequential run (cs @ ds) d =
     (case sequential run cs d of (as, d1) \<Rightarrow> (case sequential run ds d1 of (bs, d2) \<Rightarrow> (as @ bs, d2)))"
  by (induction cs arbitrary: d) (auto split: prod.split)

text \<open>What differs at the end was last changed by one of the calls.\<close>

lemma sequential_last_change:
  "f (snd (sequential run cs d)) \<noteq> f d \<Longrightarrow>
     \<exists>c \<in> set cs. \<exists>d'. f (snd (run c d')) \<noteq> f d' \<and> f (snd (run c d')) = f (snd (sequential run cs d))"
proof (induction cs rule: rev_induct)
  case (snoc c cs)
  let ?d = "snd (sequential run cs d)"
  have last: "snd (sequential run (cs @ [c]) d) = snd (run c ?d)"
    by (simp add: sequential_append split: prod.split)
  show ?case
  proof (cases "f (snd (run c ?d)) = f ?d")
    case True
    then show ?thesis using snoc unfolding last by auto
  next
    case False
    then show ?thesis unfolding last by auto
  qed
qed simp

text \<open>What a request asked, and the answer its statement gave.\<close>

definition phase_call :: "('c, 'a) phase \<Rightarrow> 'c" where
  "phase_call p = (case p of Arrived c \<Rightarrow> c | Connected c \<Rightarrow> c | Executed c a \<Rightarrow> c | Answered c a \<Rightarrow> c)"

definition phase_answer :: "('c, 'a) phase \<Rightarrow> 'a option" where
  "phase_answer p = (case p of Executed c a \<Rightarrow> Some a | Answered c a \<Rightarrow> Some a | _ \<Rightarrow> None)"

definition holds_connection :: "('c, 'a) phase \<Rightarrow> bool" where
  "holds_connection p = (case p of Connected c \<Rightarrow> True | Executed c a \<Rightarrow> True | _ \<Rightarrow> False)"

lemmas phase_defs = phase_call_def phase_answer_def holds_connection_def

section \<open>The contract\<close>

definition call_of :: "('c, 'a, 's) conc \<Rightarrow> nat \<Rightarrow> 'c" where
  "call_of s i = phase_call (the (cc_req s i))"

definition answer_of :: "('c, 'a, 's) conc \<Rightarrow> nat \<Rightarrow> 'a" where
  "answer_of s i = the (phase_answer (the (cc_req s i)))"

text \<open>The state a trace leads to, as the sequential run of its statements explains it.\<close>

definition explained :: "('c \<Rightarrow> 's \<Rightarrow> 'a \<times> 's) \<Rightarrow> ('c \<Rightarrow> 'a) \<Rightarrow> 's \<Rightarrow> nat list \<Rightarrow> ('c, 'a, 's) conc \<Rightarrow> bool" where
  "explained run skipped d order s \<longleftrightarrow>
     distinct order
     \<and> sequential run (map (call_of s) order) d = (map (answer_of s) order, cc_db s)
     \<and> (\<forall>i \<in> set order. \<exists>c a. cc_req s i = Some (Executed c a) \<or> cc_req s i = Some (Answered c a))
     \<and> (\<forall>i p. cc_req s i = Some p \<longrightarrow> i \<notin> set order
          \<longrightarrow> (\<exists>c. p = Arrived c \<or> p = Connected c \<or> p = Answered c (skipped c)))"

lemma map_elsewhere:
  assumes "i \<notin> set order" and "cc_req s' = (cc_req s)(i \<mapsto> p)"
  shows "map (call_of s') order = map (call_of s) order" and "map (answer_of s') order = map (answer_of s) order"
  using assms by (auto simp: call_of_def answer_of_def)

lemma explained_elsewhere:
  assumes "explained run skipped d order s" and "i \<notin> set order"
    and upd: "cc_req s' = (cc_req s)(i \<mapsto> p)" "cc_db s' = cc_db s"
    and "\<exists>c. p = Arrived c \<or> p = Connected c \<or> p = Answered c (skipped c)"
  shows "explained run skipped d order s'"
  using assms(1,2,5) unfolding explained_def map_elsewhere [OF assms(2) upd(1)] upd(2)
  unfolding upd(1) by auto

lemma explained_in:
  "explained run skipped d order s \<Longrightarrow> i \<in> set order
   \<Longrightarrow> \<exists>c a. cc_req s i = Some (Executed c a) \<or> cc_req s i = Some (Answered c a)"
  unfolding explained_def by blast

lemma explained_out:
  "explained run skipped d order s \<Longrightarrow> cc_req s i = Some p \<Longrightarrow> i \<notin> set order
   \<Longrightarrow> \<exists>c. p = Arrived c \<or> p = Connected c \<or> p = Answered c (skipped c)"
  unfolding explained_def by blast

lemma unexplained_phase:
  assumes "explained run skipped d order s" and "cc_req s i = Some p" and "phase_answer p = None"
  shows "i \<notin> set order"
proof
  assume "i \<in> set order"
  from explained_in [OF assms(1) this] assms(2,3) show False by (auto simp: phase_defs)
qed

lemma step_explained:
  assumes "conc_step run skipped s e s'" and ex: "explained run skipped d order s"
  shows "explained run skipped d (order @ executed [e]) s'"
  using assms(1)
proof cases
  case (1 i c)
  have "i \<notin> set order" using explained_in [OF ex, of i] 1(3) by auto
  then show ?thesis using explained_elsewhere [OF ex, of i s' "Arrived c"] 1 by simp
next
  case (2 i c n)
  have "i \<notin> set order" using unexplained_phase [OF ex 2(3)] by (simp add: phase_defs)
  then show ?thesis using explained_elsewhere [OF ex, of i s' "Connected c"] 2 by simp
next
  case (3 i c)
  have "i \<notin> set order" using unexplained_phase [OF ex 3(3)] by (simp add: phase_defs)
  then show ?thesis using explained_elsewhere [OF ex, of i s' "Answered c (skipped c)"] 3 by simp
next
  case (4 i c a d')
  have new: "i \<notin> set order" using unexplained_phase [OF ex 4(3)] by (simp add: phase_defs)
  have upd: "cc_req s' = (cc_req s)(i \<mapsto> Executed c a)" "cc_db s' = d'" using 4(2) by simp_all
  have here: "call_of s' i = c" "answer_of s' i = a" using upd by (simp_all add: call_of_def answer_of_def phase_defs)
  have base: "sequential run (map (call_of s) order) d = (map (answer_of s) order, cc_db s)"
    using ex by (simp add: explained_def)
  have "sequential run (map (call_of s') (order @ [i])) d = (map (answer_of s') (order @ [i]), cc_db s')"
    by (simp add: sequential_append map_elsewhere [OF new upd(1)] base here upd(2) 4(4) del: map_eq_conv)
  then show ?thesis using ex new upd(1) 4(1) unfolding explained_def by auto
next
  case (5 i c a)
  have upd: "cc_req s' = (cc_req s)(i \<mapsto> Answered c a)" "cc_db s' = cc_db s" using 5(2) by simp_all
  have same: "map (call_of s') order = map (call_of s) order" "map (answer_of s') order = map (answer_of s) order"
    using upd(1) 5(3) by (auto simp: call_of_def answer_of_def phase_defs)
  have "i \<in> set order" using explained_out [OF ex 5(3)] by blast
  moreover have "sequential run (map (call_of s') order) d = (map (answer_of s') order, cc_db s')"
    using ex unfolding explained_def same upd(2) by blast
  moreover have "executed [e] = []" by (simp add: 5(1))
  ultimately show ?thesis using ex upd(1) unfolding explained_def by auto
qed

lemma trace_explained: "conc_trace run skipped max_conns d es s \<Longrightarrow> explained run skipped d (executed es) s"
proof (induction rule: conc_trace.induct)
  case conc_starts
  show ?case by (simp add: explained_def conc_init_def)
next
  case (conc_goes_on es s e s')
  then show ?case using step_explained [OF conc_goes_on(2,3)] by (simp add: executed_append)
qed

lemma trace_prefix: "conc_trace run skipped max_conns d es s \<Longrightarrow> es = fs @ gs \<Longrightarrow> \<exists>t. conc_trace run skipped max_conns d fs t"
proof (induction arbitrary: gs rule: conc_trace.induct)
  case conc_starts
  then show ?case by (auto intro: conc_trace.conc_starts)
next
  case (conc_goes_on es s e s')
  show ?case
  proof (cases gs rule: rev_cases)
    case Nil
    then show ?thesis using conc_goes_on conc_trace.conc_goes_on by fastforce
  next
    case (snoc gs' e')
    then show ?thesis using conc_goes_on.IH [of gs'] conc_goes_on.prems by auto
  qed
qed

text \<open>A request has arrived exactly when it is known, and is released only after its statement.\<close>

lemma trace_phases:
  "conc_trace run skipped max_conns d es s \<Longrightarrow>
     (\<exists>c. Arrive i c \<in> set es) = (cc_req s i \<noteq> None)
     \<and> (Release i \<in> set es \<longrightarrow> i \<in> set (executed es))
     \<and> (i \<in> set (executed es) \<longrightarrow> cc_req s i \<noteq> None)
     \<and> (\<forall>c a. cc_req s i = Some (Executed c a) \<longrightarrow> i \<in> set (executed es))"
proof (induction rule: conc_trace.induct)
  case conc_starts
  show ?case by (simp add: conc_init_def)
next
  case (conc_goes_on es s e s')
  from conc_goes_on(2) conc_goes_on(3) show ?case
    by cases (auto simp: executed_append)
qed

lemma trace_arrivals: "conc_trace run skipped max_conns d es s \<Longrightarrow> cc_req s i = Some p \<Longrightarrow> Arrive i (phase_call p) \<in> set es"
proof (induction arbitrary: p rule: conc_trace.induct)
  case conc_starts
  then show ?case by (simp add: conc_init_def)
next
  case (conc_goes_on es s e s')
  from conc_goes_on(2) conc_goes_on.prems conc_goes_on.IH show ?case
    by cases (fastforce simp: phase_defs split: if_splits)+
qed

lemma executed_iff: "i \<in> set (executed es) \<longleftrightarrow> Execute_statement i \<in> set es"
  by (induction es rule: executed.induct) auto

lemma trace_last:
  assumes "conc_trace run skipped max_conns d (es @ [e]) s'"
  shows "\<exists>s. conc_trace run skipped max_conns d es s \<and> conc_step run skipped s e s'"
  using assms by (cases rule: conc_trace.cases) auto

text \<open>A request that arrives after some prefix of a trace has executed nothing in it.\<close>

lemma arrival_fresh:
  assumes "conc_trace run skipped max_conns d (es1 @ es2) s" and "Arrive j c \<in> set es2"
  shows "j \<notin> set (executed es1)"
proof -
  obtain xs ys where "es2 = (xs @ [Arrive j c]) @ ys" using assms(2) split_list by fastforce
  then obtain t' where "conc_trace run skipped max_conns d ((es1 @ xs) @ [Arrive j c]) t'"
    using trace_prefix [OF assms(1), of "es1 @ xs @ [Arrive j c]" ys] by auto
  from trace_last [OF this] obtain t where t: "conc_trace run skipped max_conns d (es1 @ xs) t"
    "conc_step run skipped t (Arrive j c) t'" by blast
  from t(2) have "cc_req t j = None" by (rule conc_stepE)
  with trace_phases [OF t(1), of j] show ?thesis by (auto simp: executed_append)
qed

lemma release_executed:
  assumes "conc_trace run skipped max_conns d (es1 @ es2) s" and "Release i \<in> set es1"
  shows "i \<in> set (executed es1)"
proof -
  obtain t where "conc_trace run skipped max_conns d es1 t" using trace_prefix [OF assms(1) refl] by blast
  from trace_phases [OF this, of i] assms(2) show ?thesis by simp
qed

section \<open>The pool\<close>

definition holders :: "('c, 'a, 's) conc \<Rightarrow> nat set" where
  "holders s = {i. \<exists>p. cc_req s i = Some p \<and> holds_connection p}"

definition pool_inv :: "nat \<Rightarrow> ('c, 'a, 's) conc \<Rightarrow> bool" where
  "pool_inv max_conns s \<longleftrightarrow> finite (holders s) \<and> cc_free s + card (holders s) = max_conns"

lemma holders_upd:
  "cc_req s' = (cc_req s)(i \<mapsto> p) \<Longrightarrow> holders s' = (if holds_connection p then insert i (holders s) else holders s - {i})"
  by (auto simp: holders_def)

lemma step_pool: "conc_step run skipped s e s' \<Longrightarrow> pool_inv max_conns s \<Longrightarrow> pool_inv max_conns s'"
proof (induction rule: conc_step.cases)
  case (1 s i c)
  then have "i \<notin> holders s" by (simp add: holders_def)
  with 1 show ?case using holders_upd [of s' s i "Arrived c"] by (simp add: pool_inv_def phase_defs)
next
  case (2 s i c n)
  then have "i \<notin> holders s" by (simp add: holders_def phase_defs)
  with 2 show ?case using holders_upd [of s' s i "Connected c"] by (simp add: pool_inv_def phase_defs)
next
  case (3 s i c)
  then have "i \<notin> holders s" by (simp add: holders_def phase_defs)
  with 3 show ?case using holders_upd [of s' s i "Answered c (skipped c)"] by (simp add: pool_inv_def phase_defs)
next
  case (4 s i c a d)
  then have "i \<in> holders s" by (simp add: holders_def phase_defs)
  with 4 show ?case using holders_upd [of s' s i "Executed c a"] by (simp add: pool_inv_def phase_defs insert_absorb)
next
  case (5 s i c a)
  then have i: "i \<in> holders s" by (simp add: holders_def phase_defs)
  have "finite (holders s)" using 5 by (simp add: pool_inv_def)
  from card_Suc_Diff1 [OF this i] have "card (holders s) = Suc (card (holders s - {i}))" ..
  with 5 show ?case using holders_upd [of s' s i "Answered c a"]
    by (simp add: pool_inv_def phase_defs del: card_Diff_insert)
qed

lemma trace_pool: "conc_trace run skipped max_conns d es s \<Longrightarrow> pool_inv max_conns s"
proof (induction rule: conc_trace.induct)
  case conc_starts
  show ?case by (simp add: pool_inv_def conc_init_def holders_def)
qed (rule step_pool)

text \<open>The steps that bring a request nearer its answer without giving it up.\<close>

definition serving_event :: "'c conc_event \<Rightarrow> bool" where
  "serving_event e = (case e of Connect i \<Rightarrow> True | Execute_statement i \<Rightarrow> True | Release i \<Rightarrow> True | _ \<Rightarrow> False)"

lemma holder_moves:
  assumes "i \<in> holders s"
  shows "\<exists>e s'. conc_step run skipped s e s' \<and> serving_event e"
proof -
  from assms consider c where "cc_req s i = Some (Connected c)" | c a where "cc_req s i = Some (Executed c a)"
    unfolding holders_def by (auto, rename_tac p, case_tac p) (auto simp: phase_defs)
  then show ?thesis
  proof cases
    case (1 c)
    obtain a d where ran: "run c (cc_db s) = (a, d)" by fastforce
    have "conc_step run skipped s (Execute_statement i) (s\<lparr>cc_db := d, cc_req := (cc_req s)(i \<mapsto> Executed c a)\<rparr>)"
      using 1 ran by (rule conc_step.intros)
    then show ?thesis by (intro exI conjI, assumption) (simp add: serving_event_def)
  next
    case (2 c a)
    have "conc_step run skipped s (Release i) (s\<lparr>cc_free := Suc (cc_free s), cc_req := (cc_req s)(i \<mapsto> Answered c a)\<rparr>)"
      using 2 by (rule conc_step.intros)
    then show ?thesis by (intro exI conjI, assumption) (simp add: serving_event_def)
  qed
qed

lemma pool_moves:
  assumes "pool_inv max_conns s" and "0 < max_conns" and "cc_req s i = Some (Arrived c)"
  shows "\<exists>e s'. conc_step run skipped s e s' \<and> serving_event e"
proof (cases "holders s = {}")
  case True
  then obtain n where "cc_free s = Suc n" using assms(1,2) by (cases "cc_free s") (auto simp: pool_inv_def)
  then have "conc_step run skipped s (Connect i) (s\<lparr>cc_free := n, cc_req := (cc_req s)(i \<mapsto> Connected c)\<rparr>)"
    by (rule conc_step.intros(2) [OF assms(3)])
  then show ?thesis by (intro exI conjI, assumption) (simp add: serving_event_def)
next
  case False
  then show ?thesis using holder_moves by blast
qed

section \<open>The handlers of the service\<close>

text \<open>
  A validated request to one of the profile operations, and what its handler returns.  The
  handler reads nothing shared before its statement and nothing after it.
\<close>

datatype profile_call =
    GetCall ctx_ids gostring
  | CreateCall ctx_ids CreateRequest
  | UpdateCall ctx_ids UpdateRequest
  | DeleteCall ctx_ids gostring

datatype profile_answer = Found Response | Removed | Refused status_error

definition answer_with :: "('o \<Rightarrow> profile_answer) \<Rightarrow> (status_error + 'o) \<times> db \<times> log_record list \<Rightarrow> profile_answer \<times> db" where
  "answer_with f out =
     (case out of (Inl se, s, logs) \<Rightarrow> (Refused se, s) | (Inr res, s, logs) \<Rightarrow> (f res, s))"

fun run_call :: "db services \<Rightarrow> profile_call \<Rightarrow> db \<Rightarrow> profile_answer \<times> db" where
  "run_call svc (GetCall ids i) s = answer_with Found (get_profile svc ids i s)"
| "run_call svc (CreateCall ids q) s = answer_with Found (create_profile svc ids q s)"
| "run_call svc (UpdateCall ids q) s = answer_with Found (update_profile svc ids q s)"
| "run_call svc (DeleteCall ids i) s = answer_with (\<lambda>_. Removed) (delete_profile svc ids i s)"

text \<open>The database when no connection is to be had before the deadline.\<close>

definition out_of_time :: "pg_env \<Rightarrow> pg_env" where
  "out_of_time pg = pg\<lparr>pg_fault := (\<lambda>_ _. Some (FailDeadline ''failed to acquire a connection''))\<rparr>"

lemma answer_with_state: "snd (answer_with f out) = fst (snd out)"
  by (simp add: answer_with_def split: prod.split sum.split)

lemma run_call_step: "repo_step pg s (snd (run_call (profile_services ds ping pg) c s))"
  by (cases c; simp add: answer_with_state)
     (metis create_profile_state update_profile_state get_profile_state delete_profile_state repo_step.intros)+

text \<open>
  What a concurrent service keeps of its store, given that each request run alone does; and the
  sequential run that explains its answers.
\<close>

locale served_atomically =
  fixes run :: "'c \<Rightarrow> 's \<Rightarrow> 'a \<times> 's" and asked :: "'c \<Rightarrow> bool" and good :: "'s \<Rightarrow> bool"
  assumes alone: "asked c \<Longrightarrow> good d \<Longrightarrow> good (snd (run c d))"
begin

lemma together:
  "conc_trace run skipped max_conns d es s \<Longrightarrow> \<forall>i c. Arrive i c \<in> set es \<longrightarrow> asked c \<Longrightarrow> good d \<Longrightarrow> good (cc_db s)"
proof (induction rule: conc_trace.induct)
  case conc_starts
  then show ?case by (simp add: conc_init_def)
next
  case (conc_goes_on es s e s')
  then have before: "good (cc_db s)" by auto
  from conc_goes_on(2) show ?case
  proof cases
    case (4 i c a d')
    have "asked c" using trace_arrivals [OF conc_goes_on(1) 4(3)] conc_goes_on(4) by (auto simp: phase_defs)
    with alone [OF _ before, of c] 4 show ?thesis by simp
  qed (use before in simp_all)
qed

lemma linearizes:
  assumes "conc_trace run skipped max_conns d (es1 @ es2) s"
    and "\<forall>i c. Arrive i c \<in> set (es1 @ es2) \<longrightarrow> asked c" and "good d"
  obtains before after where "distinct (before @ after)"
    and "sequential run (map (call_of s) (before @ after)) d = (map (answer_of s) (before @ after), cc_db s)"
    and "\<And>i. i \<in> set (before @ after) \<Longrightarrow> asked (call_of s i)"
    and "\<And>i c a. cc_req s i = Some (Answered c a) \<Longrightarrow> i \<notin> set (before @ after) \<Longrightarrow> asked c \<and> a = skipped c"
    and "\<And>i. Release i \<in> set es1 \<Longrightarrow> i \<in> set before"
    and "\<And>j c. Arrive j c \<in> set es2 \<Longrightarrow> j \<notin> set before"
    and "good (cc_db s)"
proof (rule that [of "executed es1" "executed es2"])
  have ex: "explained run skipped d (executed es1 @ executed es2) s"
    using trace_explained [OF assms(1)] by (simp add: executed_append)
  show "distinct (executed es1 @ executed es2)"
    and "sequential run (map (call_of s) (executed es1 @ executed es2)) d
      = (map (answer_of s) (executed es1 @ executed es2), cc_db s)"
    using ex unfolding explained_def by blast+
  have asked: "cc_req s i = Some p \<Longrightarrow> asked (phase_call p)" for i p
    using trace_arrivals [OF assms(1)] assms(2) by blast
  show "asked (call_of s i)" if "i \<in> set (executed es1 @ executed es2)" for i
    using explained_in [OF ex that] asked by (auto simp: call_of_def)
  show "asked c \<and> a = skipped c" if "cc_req s i = Some (Answered c a)" "i \<notin> set (executed es1 @ executed es2)" for i c a
    using explained_out [OF ex that] asked [OF that(1)] by (auto simp: phase_defs)
  show "i \<in> set (executed es1)" if "Release i \<in> set es1" for i
    using release_executed [OF assms(1) that] .
  show "j \<notin> set (executed es1)" if "Arrive j c \<in> set es2" for j c
    using arrival_fresh [OF assms(1) that] .
  show "good (cc_db s)" by (rule together [OF assms])
qed

end

interpretation handlers: served_atomically "run_call (profile_services ds ping pg)" "\<lambda>_. True" "db_reachable pg" for ds ping pg
  by unfold_locales (rule reach_step [OF _ run_call_step])

section \<open>Properties\<close>

text \<open>One request that took the only connection and executed its statement; and one that waits for it.\<close>

lemma single_trace:
  "conc_trace run skipped 1 d [Arrive 0 c, Connect 0, Execute_statement 0]
     \<lparr>cc_db = snd (run c d), cc_free = 0, cc_req = [0 \<mapsto> Executed c (fst (run c d))]\<rparr>"
proof -
  let ?s1 = "(conc_init 1 d)\<lparr>cc_req := [0 \<mapsto> Arrived c]\<rparr>"
  let ?s2 = "?s1\<lparr>cc_free := 0, cc_req := [0 \<mapsto> Connected c]\<rparr>"
  let ?s3 = "?s2\<lparr>cc_db := snd (run c d), cc_req := [0 \<mapsto> Executed c (fst (run c d))]\<rparr>"
  have 1: "conc_trace run skipped 1 d [Arrive 0 c] ?s1"
    using conc_goes_on [OF conc_starts, of run skipped 1 d "Arrive 0 c" ?s1]
      conc_step.intros(1) [of "conc_init 1 d" 0 run skipped c] by (simp add: conc_init_def)
  have 2: "conc_trace run skipped 1 d [Arrive 0 c, Connect 0] ?s2"
    using conc_goes_on [OF 1, of "Connect 0" ?s2] conc_step.intros(2) [of ?s1 0 c 0 run skipped] by (simp add: conc_init_def)
  have "conc_trace run skipped 1 d [Arrive 0 c, Connect 0, Execute_statement 0] ?s3"
    using conc_goes_on [OF 2, of "Execute_statement 0" ?s3]
      conc_step.intros(4) [of ?s2 0 c run "fst (run c d)" "snd (run c d)" skipped] by (simp add: conc_init_def)
  then show ?thesis by (simp add: conc_init_def)
qed

definition sample_calls :: "profile_call conc_event list" where
  "sample_calls =
     [Arrive 0 (CreateCall (None, None) \<lparr>create_FirstName = ''Ada'', create_LastName = ''Byron''\<rparr>), Connect 0,
      Execute_statement 0]"

lemma sample_conc:
  "\<exists>s :: (profile_call, profile_answer, db) conc.
     conc_trace (run_call (profile_services ds ping pg)) late 1 d (sample_calls @ [Arrive 1 (GetCall (None, None) i)]) s
     \<and> cc_req s 1 = Some (Arrived (GetCall (None, None) i))"
proof -
  let ?run = "run_call (profile_services ds ping pg)" and ?get = "GetCall (None, None) i"
  obtain s where s: "conc_trace ?run late 1 d sample_calls s" "cc_req s 1 = None"
    using single_trace [of ?run late d] unfolding sample_calls_def by fastforce
  from conc_goes_on [OF s(1) conc_step.intros(1) [OF s(2), of ?run late ?get]] show ?thesis
    by (intro exI conjI, assumption) simp
qed



end
