(* ===== verification/Cli.thy ===== *)
theory Cli
  imports Migrate Serve
begin

text \<open>
  \<open>main.go\<close> and the command tree of \<open>cmd/\<close>: the commands, how the two
  \<open>init\<close> functions assemble them, and the status the process exits with.  cobra is the
  parameter that picks the command an argument list names.
\<close>

section \<open>The command tree\<close>

datatype 'a command =
  Command (c_Use: gostring) (c_Short: gostring) (c_Long: gostring) (c_Run: "'a option") (c_commands: "'a command list")

fun AddCommand :: "'a command \<Rightarrow> 'a command \<Rightarrow> 'a command" where
  "AddCommand (Command u s l r cs) child = Command u s l r (cs @ [child])"

text \<open>The functions the commands run, by name.\<close>

datatype action = ServeRun | Up | Down

definition UpCmd :: "action command" where
  "UpCmd = Command ''up'' ''runs up database migrations''
     ''runs up database migrations for all storage options defined in go-template'' (Some Up) []"

definition DownCmd :: "action command" where
  "DownCmd = Command ''down'' ''rollback database migrations''
     ''rollback database migrations for all tables'' (Some Down) []"

definition serverCmd :: "action command" where
  "serverCmd = Command ''serve'' ''serve command'' ''serve command runs the server'' (Some ServeRun) []"

definition bare_rootCmd :: "action command" where
  "bare_rootCmd = Command ''gopherizer'' ''gopherizer'' ''A golang template'' None []"

definition bare_migrateCmd :: "action command" where
  "bare_migrateCmd = Command ''migrate'' ''Migrate commands'' ''Migrate commands run the migrations'' None []"

text \<open>The \<open>init\<close> functions run in the order of their files, \<open>migrate.go\<close> first.\<close>

definition init_migrate :: "action command \<Rightarrow> action command" where
  "init_migrate main_cmd =
     (let migrateCmd = AddCommand bare_migrateCmd UpCmd;
          migrateCmd = AddCommand migrateCmd DownCmd
      in AddCommand main_cmd migrateCmd)"

definition init_serve :: "action command \<Rightarrow> action command" where
  "init_serve main_cmd = AddCommand main_cmd serverCmd"

definition rootCmd :: "action command" where
  "rootCmd = init_serve (init_migrate bare_rootCmd)"

section \<open>Running a command\<close>

text \<open>
  Everything a run depends on.  \<open>ce_served\<close> is how a run that got as far as serving ended,
  one of the ends of \<^const>\<open>run_trace\<close>.
\<close>

record ('s, 'pool) cli_env =
  ce_config :: "gerror + Config"
  ce_open :: "DatabaseConfig \<Rightarrow> (gerror + 'pool) \<times> pool_event list"
  ce_close_err :: "gerror option"
  ce_goose :: "'s goose"
  ce_startup :: "db startup"
  ce_served :: "Config \<Rightarrow> process_end"

datatype action_end = Returns | Exits int | Crashes

definition serve_Run :: "('s, 'pool) cli_env \<Rightarrow> action_end \<times> (log_level \<times> gostring) list" where
  "serve_Run env =
     (case ce_startup env of
        ExitWith status msg err \<Rightarrow> (Exits status, [(LevelError, msg)])
      | StartupPanic msg \<Rightarrow> (Crashes, [])
      | Ready cfg flush router server \<Rightarrow>
          ((case ce_served env cfg of Exited n \<Rightarrow> if n = 0 then Returns else Exits n | Crashed \<Rightarrow> Crashes), []))"

definition run_action :: "('s, 'pool) cli_env \<Rightarrow> action \<Rightarrow> 's \<Rightarrow> action_end \<times> 's \<times> (log_level \<times> gostring) list" where
  "run_action env act s =
     (case act of
        ServeRun \<Rightarrow> (case serve_Run env of (e, logs) \<Rightarrow> (e, s, logs))
      | Up \<Rightarrow>
          (let r = up (ce_config env) (ce_open env) (ce_close_err env) (ce_goose env) s in (Returns, cr_schema r, cr_log r))
      | Down \<Rightarrow>
          (let r = down (ce_config env) (ce_open env) (ce_close_err env) (ce_goose env) s in (Returns, cr_schema r, cr_log r)))"

text \<open>
  \<open>main\<close>, which is the root command's \<open>Execute\<close>: cobra's own failure is an error, a
  command without \<open>Run\<close> prints its help, and any other runs and returns without one.
\<close>

definition main_process ::
  "(action command \<Rightarrow> gostring list \<Rightarrow> gerror + action option) \<Rightarrow> gostring list \<Rightarrow> ('s, 'pool) cli_env \<Rightarrow> 's
   \<Rightarrow> process_end \<times> 's \<times> (log_level \<times> gostring) list" where
  "main_process cobra args env s =
     (case cobra rootCmd args of
        Inl err \<Rightarrow> (Exited (cmd_Execute (Some err)), s, [])
      | Inr None \<Rightarrow> (Exited (cmd_Execute None), s, [])
      | Inr (Some act) \<Rightarrow>
          (case run_action env act s of
             (Returns, s', logs) \<Rightarrow> (Exited (cmd_Execute None), s', logs)
           | (Exits n, s', logs) \<Rightarrow> (Exited n, s', logs)
           | (Crashes, s', logs) \<Rightarrow> (Crashed, s', logs)))"

section \<open>What cobra promises\<close>

text \<open>The command a path of names leads to.\<close>

fun follow :: "'a command \<Rightarrow> gostring list \<Rightarrow> 'a command option" where
  "follow c [] = Some c"
| "follow c (name # path) =
     (case List.find (\<lambda>sub. c_Use sub = name) (c_commands c) of
        None \<Rightarrow> None
      | Some sub \<Rightarrow> follow sub path)"

definition cobra_dispatches :: "(action command \<Rightarrow> gostring list \<Rightarrow> gerror + action option) \<Rightarrow> bool" where
  "cobra_dispatches cobra \<longleftrightarrow> (\<forall>main_cmd path c. follow main_cmd path = Some c \<longrightarrow> cobra main_cmd path = Inr (c_Run c))"

lemma rootCmd_paths:
  "follow rootCmd [''serve''] = Some serverCmd"
  "follow rootCmd [''migrate'', ''up''] = Some UpCmd"
  "follow rootCmd [''migrate'', ''down''] = Some DownCmd"
  "map c_Use (c_commands rootCmd) = [''migrate'', ''serve'']"
  by (simp_all add: rootCmd_def init_serve_def init_migrate_def bare_rootCmd_def bare_migrateCmd_def serverCmd_def
      UpCmd_def DownCmd_def Let_def)

lemma help_paths:
  "map_option c_Run (follow rootCmd []) = Some None" "map_option c_Run (follow rootCmd [''migrate'']) = Some None"
  by (simp_all add: rootCmd_def init_serve_def init_migrate_def bare_rootCmd_def bare_migrateCmd_def serverCmd_def
      UpCmd_def DownCmd_def Let_def)

lemma cmd_Execute_simps [simp]: "cmd_Execute None = 0" "cmd_Execute (Some e) = 1"
  by (simp_all add: cmd_Execute_def)

section \<open>Properties\<close>


definition sample_cobra :: "action command \<Rightarrow> gostring list \<Rightarrow> gerror + action option" where
  "sample_cobra main_cmd args =
     (case follow main_cmd args of Some c \<Rightarrow> Inr (c_Run c) | None \<Rightarrow> Inl (Foreign ''unknown command'' False))"

lemma sample_cobra_dispatches: "cobra_dispatches sample_cobra"
  by (simp add: cobra_dispatches_def sample_cobra_def)

definition sample_cli :: "(nat, unit) cli_env" where
  "sample_cli =
     \<lparr>ce_config = Inr default_config, ce_open = (\<lambda>_. (Inr (), [creating_pool, PoolOpened, PoolPinged])), ce_close_err = None,
      ce_goose = \<lparr>gs_SetDialect = (\<lambda>_. None), gs_Up = (\<lambda>fs dir missing n. (Some (ErrNew ''syntax error''), n + 1)),
        gs_Down = (\<lambda>fs dir n. (None, n - 1))\<rparr>,
      ce_startup = StartupPanic [], ce_served = (\<lambda>_. Crashed)\<rparr>"


end
