(* ===== verification/TestProvider.thy ===== *)
theory TestProvider
  imports Http Oidcx "HOL-Library.AList"
begin

text \<open>
  \<open>pkg/testinfra/oidc.go\<close>: the identity provider the tests run in process.  Its key
  generation, the JSON encoder and go-jose enter as arguments; an assumption about any of them
  stands in the theorem that uses it.  The lemmas show which claims a minted token carries, what
  the two endpoints answer, and that the verifier of \<open>pkg/oidcx\<close> reads back from a token
  what the provider put in.
\<close>

section \<open>State\<close>

definition oidcAudience :: gostring where "oidcAudience = ''gopherizer-test''"
definition oidcKeyID :: gostring where "oidcKeyID = ''test-key''"
definition jwksPath :: gostring where "jwksPath = ''/jwks.json''"

datatype jose_alg = ES256 | RS256 | OtherAlg gostring

fun alg_name :: "jose_alg \<Rightarrow> gostring" where
  "alg_name ES256 = ''ES256''"
| "alg_name RS256 = ''RS256''"
| "alg_name (OtherAlg a) = a"

text \<open>
  The provider.  \<open>pv_rsa\<close> is what \<open>sync.OnceValue\<close> has memoised: nothing yet, the key,
  or the panic its one call ended in.
\<close>

record 'k provider =
  pv_Issuer :: gostring
  pv_Audience :: gostring
  pv_Config :: OIDCConfig
  pv_key :: 'k
  pv_rsa :: "(gostring + 'k) option"
  pv_rsaWanted :: bool
  pv_jwksStatus :: int

definition FailJWKS :: "int \<Rightarrow> 'k provider \<Rightarrow> 'k provider" where
  "FailJWKS status p = p\<lparr>pv_jwksStatus := status\<rparr>"

text \<open>The memoised generator: \<open>gen\<close> is what generating a key would give now.\<close>

definition rsaOnce :: "(gerror + 'k) \<Rightarrow> 'k provider \<Rightarrow> (gostring + 'k) \<times> 'k provider" where
  "rsaOnce gen p =
     (case pv_rsa p of
        Some r \<Rightarrow> (r, p)
      | None \<Rightarrow>
          (let r = (case gen of
                      Inl rsaErr \<Rightarrow> Inl (''failed to generate an rsa signing key: '' @ error_text rsaErr)
                    | Inr rsaKey \<Rightarrow> Inr rsaKey)
           in (r, p\<lparr>pv_rsa := Some r\<rparr>)))"

section \<open>The endpoints\<close>

definition writeJSON :: "gerror + gostring \<Rightarrow> writer \<Rightarrow> writer" where
  "writeJSON marshalled w =
     (case marshalled of
        Inl err \<Rightarrow> http_Error (error_text err) 500 w
      | Inr raw \<Rightarrow> snd (Write raw (Header_Set ''Content-Type'' ''application/json'' w)))"

definition discovery_document :: "gostring \<Rightarrow> goval" where
  "discovery_document url =
     VMap [(''issuer'', VString url),
           (''jwks_uri'', VString (url @ jwksPath)),
           (''authorization_endpoint'', VString (url @ ''/authorize'')),
           (''token_endpoint'', VString (url @ ''/token'')),
           (''id_token_signing_alg_values_supported'', VStrings [''ES256'', ''RS256''])]"

definition discovery_handler :: "(goval \<Rightarrow> gerror + gostring) \<Rightarrow> gostring \<Rightarrow> writer \<Rightarrow> writer" where
  "discovery_handler marshal url w = writeJSON (marshal (discovery_document url)) w"

record 'pk jwk =
  jwk_Key :: 'pk
  jwk_KeyID :: gostring
  jwk_Algorithm :: gostring
  jwk_Use :: gostring

text \<open>
  \<open>http.Error\<close> with a computed status: \<open>WriteHeader\<close> panics on one that is not
  three digits long, after the headers were set.
\<close>

definition http_Error_checked :: "gostring \<Rightarrow> int \<Rightarrow> writer \<Rightarrow> completion \<times> writer" where
  "http_Error_checked msg c w =
     (if c < 100 \<or> 999 < c
      then (Panicked (PanicOther (''invalid WriteHeader code '' @ itoa c)),
            Header_Set ''X-Content-Type-Options'' ''nosniff''
              (Header_Set ''Content-Type'' ''text/plain; charset=utf-8'' (Header_Del ''Content-Length'' w)))
      else (Returned, http_Error msg c w))"

definition jwks_handler ::
  "('k \<Rightarrow> 'pk) \<Rightarrow> ('pk jwk list \<Rightarrow> gerror + gostring) \<Rightarrow> (gerror + 'k) \<Rightarrow> 'k provider \<Rightarrow> writer
   \<Rightarrow> completion \<times> writer \<times> 'k provider" where
  "jwks_handler pub marshal_keys gen p w =
     (let status = pv_jwksStatus p in
      if status \<noteq> 0 then
        (case http_Error_checked ''key set unavailable'' status w of (c, w) \<Rightarrow> (c, w, p))
      else
        (let keys = [\<lparr>jwk_Key = pub (pv_key p), jwk_KeyID = oidcKeyID, jwk_Algorithm = alg_name ES256, jwk_Use = ''sig''\<rparr>] in
         if pv_rsaWanted p then
           (case rsaOnce gen p of
              (Inl msg, p) \<Rightarrow> (Panicked (PanicOther msg), w, p)
            | (Inr k, p) \<Rightarrow>
                (Returned,
                 writeJSON (marshal_keys (keys @ [\<lparr>jwk_Key = pub k, jwk_KeyID = oidcKeyID @ ''-rsa'',
                    jwk_Algorithm = alg_name RS256, jwk_Use = ''sig''\<rparr>])) w,
                 p))
         else (Returned, writeJSON (marshal_keys keys) w, p)))"

section \<open>Starting it\<close>

text \<open>
  \<open>RunOIDC\<close>: the provider and the routes of its server, whose address is \<open>url\<close>.
  \<open>rsa_gen\<close> is what generating the RSA key will give, when it comes to that.
\<close>

type_synonym 'k route = "'k provider \<Rightarrow> writer \<Rightarrow> completion \<times> writer \<times> 'k provider"

definition RunOIDC ::
  "(goval \<Rightarrow> gerror + gostring) \<Rightarrow> ('k \<Rightarrow> 'pk) \<Rightarrow> ('pk jwk list \<Rightarrow> gerror + gostring) \<Rightarrow> (gerror + 'k)
   \<Rightarrow> gerror + 'k \<Rightarrow> gostring \<Rightarrow> gerror + 'k provider \<times> (gostring \<times> 'k route) list" where
  "RunOIDC marshal pub marshal_keys rsa_gen gen url =
     (case gen of
        Inl err \<Rightarrow> Inl (Wrapped ''failed to generate a signing key'' err)
      | Inr key \<Rightarrow>
          Inr (\<lparr>pv_Issuer = url, pv_Audience = oidcAudience,
                pv_Config = \<lparr>oidc_Enabled = True, oidc_Issuer = url, oidc_Audience = oidcAudience,
                  oidc_ScopeClaim = ''scope'', oidc_RolesClaim = ''roles'', oidc_DiscoveryTimeout = 5 * second,
                  oidc_RequireTypedAccessToken = False\<rparr>,
                pv_key = key, pv_rsa = None, pv_rsaWanted = False, pv_jwksStatus = 0\<rparr>,
               [(''/.well-known/openid-configuration'', \<lambda>p w. (Returned, discovery_handler marshal url w, p)),
                (jwksPath, jwks_handler pub marshal_keys rsa_gen)]))"

section \<open>Tokens\<close>

definition hour :: duration where
  "hour = 3600 * second"

text \<open>\<open>Unix\<close> of an instant in nanoseconds: whole seconds, rounded down.\<close>

definition Unix :: "int \<Rightarrow> int" where
  "Unix t = t div second"

definition default_claims :: "int \<Rightarrow> 'k provider \<Rightarrow> claims" where
  "default_claims now p =
     [(''iss'', VString (pv_Issuer p)), (''aud'', VString (pv_Audience p)), (''sub'', VString ''test-subject''),
      (''iat'', VNumber (of_int (Unix now))), (''exp'', VNumber (of_int (Unix (now + hour))))]"

text \<open>Both loops copy a map into \<open>out\<close>; the entries of a map have distinct keys.\<close>

definition copy_into :: "claims \<Rightarrow> claims \<Rightarrow> claims" where
  "copy_into src out = foldr (\<lambda>(k, v) out. AList.update k v out) src out"

definition withDefaults :: "int \<Rightarrow> 'k provider \<Rightarrow> claims \<Rightarrow> claims" where
  "withDefaults now p cs = copy_into cs (copy_into (default_claims now p) [])"

text \<open>go-jose: a signer for an algorithm and key with the \<open>typ\<close> and \<open>kid\<close> headers, and its two calls.\<close>

record ('k, 's, 'j) jose_lib =
  jl_NewSigner :: "jose_alg \<Rightarrow> 'k \<Rightarrow> gostring \<Rightarrow> gostring \<Rightarrow> gerror + 's"
  jl_Sign :: "'s \<Rightarrow> gostring \<Rightarrow> gerror + 'j"
  jl_CompactSerialize :: "'j \<Rightarrow> gerror + gostring"

definition sign ::
  "('k, 's, 'j) jose_lib \<Rightarrow> (goval \<Rightarrow> gerror + gostring) \<Rightarrow> int \<Rightarrow> 'k provider
   \<Rightarrow> jose_alg \<Rightarrow> 'k \<Rightarrow> gostring \<Rightarrow> gostring \<Rightarrow> claims \<Rightarrow> gerror + gostring" where
  "sign jose marshal now p alg key keyID typ cs =
     (case jl_NewSigner jose alg key typ keyID of
        Inl err \<Rightarrow> Inl (Wrapped ''failed to build a signer'' err)
      | Inr signer \<Rightarrow>
          (case marshal (VMap (withDefaults now p cs)) of
             Inl err \<Rightarrow> Inl (Wrapped ''failed to encode the claims'' err)
           | Inr payload \<Rightarrow>
               (case jl_Sign jose signer payload of
                  Inl err \<Rightarrow> Inl (Wrapped ''failed to sign the token'' err)
                | Inr signed \<Rightarrow> jl_CompactSerialize jose signed)))"

definition TokenWithType ::
  "('k, 's, 'j) jose_lib \<Rightarrow> (goval \<Rightarrow> gerror + gostring) \<Rightarrow> int \<Rightarrow> 'k provider \<Rightarrow> gostring \<Rightarrow> claims \<Rightarrow> gerror + gostring" where
  "TokenWithType jose marshal now p typ cs = sign jose marshal now p ES256 (pv_key p) oidcKeyID typ cs"

definition Token ::
  "('k, 's, 'j) jose_lib \<Rightarrow> (goval \<Rightarrow> gerror + gostring) \<Rightarrow> int \<Rightarrow> 'k provider \<Rightarrow> claims \<Rightarrow> gerror + gostring" where
  "Token jose marshal now p cs = sign jose marshal now p ES256 (pv_key p) oidcKeyID ''at+jwt'' cs"

text \<open>A generator that panics is \<open>Inl\<close> of its message.\<close>

definition RSAToken ::
  "('k, 's, 'j) jose_lib \<Rightarrow> (goval \<Rightarrow> gerror + gostring) \<Rightarrow> int \<Rightarrow> (gerror + 'k) \<Rightarrow> claims \<Rightarrow> 'k provider
   \<Rightarrow> (gostring + (gerror + gostring)) \<times> 'k provider" where
  "RSAToken jose marshal now gen cs p =
     (let p = p\<lparr>pv_rsaWanted := True\<rparr> in
      case rsaOnce gen p of
        (Inl msg, p) \<Rightarrow> (Inl msg, p)
      | (Inr k, p) \<Rightarrow> (Inr (sign jose marshal now p RS256 k (oidcKeyID @ ''-rsa'') ''at+jwt'' cs), p))"

definition TokenSignedWith ::
  "('k, 's, 'j) jose_lib \<Rightarrow> (goval \<Rightarrow> gerror + gostring) \<Rightarrow> int \<Rightarrow> 'k provider
   \<Rightarrow> jose_alg \<Rightarrow> 'k \<Rightarrow> gostring \<Rightarrow> claims \<Rightarrow> gerror + gostring" where
  "TokenSignedWith jose marshal now p alg key keyID cs = sign jose marshal now p alg key keyID ''at+jwt'' cs"

definition UnsignedToken :: "(goval \<Rightarrow> gerror + gostring) \<Rightarrow> int \<Rightarrow> 'k provider \<Rightarrow> claims \<Rightarrow> gerror + gostring" where
  "UnsignedToken marshal now p cs =
     (case marshal (VMap [(''alg'', VString ''none''), (''typ'', VString ''at+jwt'')]) of
        Inl err \<Rightarrow> Inl err
      | Inr header \<Rightarrow>
          (case marshal (VMap (withDefaults now p cs)) of
             Inl err \<Rightarrow> Inl err
           | Inr payload \<Rightarrow> Inr (encodeSegment header @ ''.'' @ encodeSegment payload @ ''.'')))"

section \<open>Lemmas\<close>

lemma map_of_copy_into: "map_of (copy_into src out) = map_of out ++ map_of src"
proof (induction src)
  case (Cons kv src)
  obtain k v where "kv = (k, v)" by (cases kv)
  with Cons show ?case by (simp add: copy_into_def update_conv map_add_upd fun_eq_iff map_add_def)
qed (simp add: copy_into_def)

lemma distinct_copy_into: "distinct (map fst out) \<Longrightarrow> distinct (map fst (copy_into src out))"
  by (induction src) (auto simp: copy_into_def distinct_update)

lemma map_of_withDefaults: "map_of (withDefaults now p cs) = map_of (default_claims now p) ++ map_of cs"
  by (simp add: withDefaults_def map_of_copy_into)

lemma sign_Inr:
  assumes "sign jose marshal now p alg key keyID typ cs = Inr token"
  obtains signer payload signed where "jl_NewSigner jose alg key typ keyID = Inr signer"
    "marshal (VMap (withDefaults now p cs)) = Inr payload" "jl_Sign jose signer payload = Inr signed"
    "jl_CompactSerialize jose signed = Inr token"
  using assms unfolding sign_def by (auto split: sum.splits)

lemma split_byte_none: "sep \<notin> set s \<Longrightarrow> split_byte sep s = [s]"
  by (induction s) auto

text \<open>A claim read by a name without dots, and not among the defaults, is the caller's.\<close>

lemma claimList_withDefaults:
  assumes "map_of (default_claims now p) name = None" and "CHR ''.'' \<notin> set name"
  shows "claimList (withDefaults now p cs) name = claimList cs name"
proof -
  have "split_byte CHR ''.'' name = [name]" using assms(2) by (rule split_byte_none)
  moreover have "map_of (withDefaults now p cs) name = map_of cs name"
    using assms(1) by (simp add: map_of_withDefaults map_add_def split: option.split)
  ultimately show ?thesis by (simp add: claimList_def lookupClaim_def split: option.split)
qed

section \<open>What the libraries promise\<close>

text \<open>
  go-jose's compact serialisation: the encoded header, payload and signature, joined by dots;
  the header parses back to the type it was built with.
\<close>

definition compact_jws :: "('k, 's, 'j) jose_lib \<Rightarrow> (gostring \<Rightarrow> gerror + gostring) \<Rightarrow> bool" where
  "compact_jws jose header_typ \<longleftrightarrow>
     (\<forall>alg key typ kid signer payload signed token.
        jl_NewSigner jose alg key typ kid = Inr signer \<longrightarrow> jl_Sign jose signer payload = Inr signed
        \<longrightarrow> jl_CompactSerialize jose signed = Inr token
        \<longrightarrow> (\<exists>hdr sig. token = encodeSegment hdr @ CHR ''.'' # encodeSegment payload @ CHR ''.'' # encodeSegment sig
              \<and> header_typ hdr = Inr typ))"

text \<open>
  go-oidc's verifier, on the provider's key set: a token signed under one of its keys, from its
  issuer, for its audience and not expired, is accepted with the claims of its payload.
\<close>

definition claimed_subject :: "claims \<Rightarrow> gostring" where
  "claimed_subject cs = (case map_of cs ''sub'' of Some (VString s) \<Rightarrow> s | _ \<Rightarrow> [])"

definition accepts_signed ::
  "('k, 's, 'j) jose_lib \<Rightarrow> (gostring \<Rightarrow> gerror + claims) \<Rightarrow> int \<Rightarrow> 'k provider \<Rightarrow> (gostring \<Rightarrow> gerror + id_token) \<Rightarrow> bool" where
  "accepts_signed jose unmarshal now p tokens_Verify \<longleftrightarrow>
     (\<forall>typ signer payload signed token cs e.
        jl_NewSigner jose ES256 (pv_key p) typ oidcKeyID = Inr signer \<longrightarrow> jl_Sign jose signer payload = Inr signed
        \<longrightarrow> jl_CompactSerialize jose signed = Inr token \<longrightarrow> unmarshal payload = Inr cs
        \<longrightarrow> map_of cs ''iss'' = Some (VString (pv_Issuer p)) \<longrightarrow> map_of cs ''aud'' = Some (VString (pv_Audience p))
        \<longrightarrow> map_of cs ''exp'' = Some (VNumber (of_int e)) \<longrightarrow> Unix now < e
        \<longrightarrow> tokens_Verify token = Inr \<lparr>tok_Subject = claimed_subject cs, tok_claims = Inr cs\<rparr>)"

lemma hour_later: "Unix now < Unix (now + hour)"
  by (simp add: Unix_def hour_def second_def millisecond_def)

lemma RunOIDC_Inr:
  assumes "RunOIDC marshal pub marshal_keys rsa_gen gen url = Inr (p, mux)"
  shows "oidc_ScopeClaim (pv_Config p) = ''scope'' \<and> oidc_RolesClaim (pv_Config p) = ''roles''"
  using assms by (auto simp: RunOIDC_def split: sum.splits)

text \<open>What the verifier makes of a minted token, check by check.\<close>

definition subject_of :: "claims \<Rightarrow> gostring" where
  "subject_of cs = (case map_of cs ''sub'' of None \<Rightarrow> ''test-subject'' | Some (VString s) \<Rightarrow> s | _ \<Rightarrow> [])"

lemma withDefaults_entry:
  "map_of (withDefaults now p cs) k = (case map_of cs k of None \<Rightarrow> map_of (default_claims now p) k | Some v \<Rightarrow> Some v)"
  by (simp add: map_of_withDefaults map_add_def)

lemma withDefaults_id_claims:
  "id_token_claim (withDefaults now p cs) idTokenOnlyClaims = None
   \<longleftrightarrow> map_of cs ''at_hash'' = None \<and> map_of cs ''c_hash'' = None \<and> map_of cs ''nonce'' = None"
  by (auto simp: id_token_claim_None idTokenOnlyClaims_def withDefaults_entry default_claims_def split: option.split)

lemma minted_outcome:
  assumes "RunOIDC marshal pub marshal_keys rsa_gen gen url = Inr (p, mux)"
    and minted: "TokenWithType jose marshal now p typ cs = Inr token"
    and jws: "compact_jws jose header_typ" and lib: "accepts_signed jose unmarshal now p tokens_Verify"
    and json: "\<forall>raw. marshal (VMap (withDefaults now p cs)) = Inr raw \<longrightarrow> unmarshal raw = Inr (withDefaults now p cs)"
    and own: "map_of cs ''iss'' = None" "map_of cs ''aud'' = None" "map_of cs ''exp'' = None"
  shows "(requireAccessTokenType header_typ token = None
      \<longleftrightarrow> equal_fold ''at+jwt'' typ \<or> equal_fold ''application/at+jwt'' typ)
    \<and> Verify ((pv_Config p)\<lparr>oidc_RequireTypedAccessToken := typed\<rparr>) tokens_Verify header_typ token =
      (case id_token_claim (withDefaults now p cs) idTokenOnlyClaims of
         Some claim \<Rightarrow> Inl (rejected (ErrNew (''token carries '' @ quoted claim
                      @ '', which marks it an id token rather than an access token'')))
       | None \<Rightarrow>
           (case (if typed then requireAccessTokenType header_typ token else None) of
              Some err \<Rightarrow> Inl (rejected err)
            | None \<Rightarrow>
                if subject_of cs = [] then Inl (rejected (ErrNew ''token carries no subject''))
                else Inr \<lparr>Subject = subject_of cs, Scopes = claimList cs ''scope'', Roles = claimList cs ''roles'',
                          Claims = withDefaults now p cs\<rparr>))"
proof -
  let ?cs = "withDefaults now p cs"
  obtain signer payload signed where steps: "jl_NewSigner jose ES256 (pv_key p) typ oidcKeyID = Inr signer"
      "marshal (VMap ?cs) = Inr payload" "jl_Sign jose signer payload = Inr signed"
      "jl_CompactSerialize jose signed = Inr token"
    using minted unfolding TokenWithType_def by (rule sign_Inr)
  have read: "tokens_Verify token = Inr \<lparr>tok_Subject = claimed_subject ?cs, tok_claims = Inr ?cs\<rparr>"
    using lib [unfolded accepts_signed_def, rule_format, OF steps(1,3,4) json [rule_format, OF steps(2)], of "Unix (now + hour)"]
    by (simp add: withDefaults_entry own default_claims_def hour_later)
  have subject: "claimed_subject ?cs = subject_of cs"
    by (simp add: claimed_subject_def subject_of_def withDefaults_entry default_claims_def split: option.split)
  have lists: "claimList ?cs ''scope'' = claimList cs ''scope''" "claimList ?cs ''roles'' = claimList cs ''roles''"
    by (simp_all add: claimList_withDefaults default_claims_def)
  obtain hdr rest where "token = encodeSegment hdr @ CHR ''.'' # rest" "header_typ hdr = Inr typ"
    using jws steps unfolding compact_jws_def by blast
  then have "requireAccessTokenType header_typ token = None
      \<longleftrightarrow> equal_fold ''at+jwt'' typ \<or> equal_fold ''application/at+jwt'' typ"
    by (simp add: access_token_type_roundtrip)
  then show ?thesis
    using RunOIDC_Inr [OF assms(1)]
    by (cases "id_token_claim ?cs idTokenOnlyClaims"; cases "requireAccessTokenType header_typ token")
       (simp_all add: Verify_def read lists subject)
qed

section \<open>Properties\<close>


definition sample_jose :: "(unit, gostring, gostring \<times> gostring) jose_lib" where
  "sample_jose =
     \<lparr>jl_NewSigner = (\<lambda>alg key typ kid. Inr typ), jl_Sign = (\<lambda>typ payload. Inr (typ, payload)),
      jl_CompactSerialize = (\<lambda>(typ, payload). Inr (encodeSegment typ @ CHR ''.'' # encodeSegment payload
        @ CHR ''.'' # encodeSegment ''signature''))\<rparr>"

definition sample_provider :: "unit provider" where
  "sample_provider =
     \<lparr>pv_Issuer = ''http://127.0.0.1'', pv_Audience = ''gopherizer-test'',
      pv_Config = \<lparr>oidc_Enabled = True, oidc_Issuer = ''http://127.0.0.1'', oidc_Audience = ''gopherizer-test'',
        oidc_ScopeClaim = ''scope'', oidc_RolesClaim = ''roles'', oidc_DiscoveryTimeout = 5 * second,
        oidc_RequireTypedAccessToken = False\<rparr>,
      pv_key = (), pv_rsa = None, pv_rsaWanted = False, pv_jwksStatus = 0\<rparr>"

lemma sample_provider_runs:
  "\<exists>mux. RunOIDC (\<lambda>_. Inr ''{}'') pub marshal_keys rsa_gen (Inr ()) ''http://127.0.0.1'' = Inr (sample_provider, mux)"
  by (simp add: RunOIDC_def sample_provider_def oidcAudience_def)

definition admin_claims :: claims where
  "admin_claims = [(''roles'', VList [VString ''admin''])]"

lemma sample_compact: "compact_jws sample_jose Inr"
  by (auto simp: compact_jws_def sample_jose_def)

lemma sample_accepts:
  "accepts_signed jose (\<lambda>_. Inr cs) now p (\<lambda>_. Inr \<lparr>tok_Subject = claimed_subject cs, tok_claims = Inr cs\<rparr>)"
  by (simp add: accepts_signed_def)


text \<open>
  The published key is the signing key.  Once an RSA token was asked for, every later
  answer of the key endpoint lists the very key that token was signed with, next to the first
  one and under the identifier in the token's header; an outage staged with a status is answered
  with that status and no key set, and lifting it restores the set.
\<close>

lemma rsa_key_published:
  assumes "RSAToken jose marshal now gen cs p = (Inr signed, p')"
  shows "\<exists>k. signed = sign jose marshal now p' RS256 k ''test-key-rsa'' ''at+jwt'' cs
    \<and> RSAToken jose marshal later gen' cs' p' = (Inr (sign jose marshal later p' RS256 k ''test-key-rsa'' ''at+jwt'' cs'), p')
    \<and> jwks_handler pub marshal_keys gen' (FailJWKS 503 p') w
        = (Returned, http_Error ''key set unavailable'' 503 w, FailJWKS 503 p')
    \<and> jwks_handler pub marshal_keys gen' (FailJWKS 0 (FailJWKS status p')) w =
        (Returned,
         writeJSON (marshal_keys
           [\<lparr>jwk_Key = pub (pv_key p), jwk_KeyID = ''test-key'', jwk_Algorithm = ''ES256'', jwk_Use = ''sig''\<rparr>,
            \<lparr>jwk_Key = pub k, jwk_KeyID = ''test-key-rsa'', jwk_Algorithm = ''RS256'', jwk_Use = ''sig''\<rparr>]) w,
         FailJWKS 0 p')"
proof -
  from assms obtain k where k: "pv_rsa p' = Some (Inr k)" "pv_rsaWanted p'" "pv_key p' = pv_key p"
    "signed = sign jose marshal now p' RS256 k ''test-key-rsa'' ''at+jwt'' cs"
    by (auto simp: RSAToken_def rsaOnce_def oidcKeyID_def Let_def split: option.splits sum.splits)
  then have once: "rsaOnce g p' = (Inr k, p')" for g by (simp add: rsaOnce_def)
  have "p'\<lparr>pv_rsaWanted := True\<rparr> = p'" using k(2) by (cases p') simp
  then have again: "RSAToken jose marshal later gen' cs' p'
      = (Inr (sign jose marshal later p' RS256 k ''test-key-rsa'' ''at+jwt'' cs'), p')"
    by (simp add: RSAToken_def once oidcKeyID_def)
  have "rsaOnce g (FailJWKS 0 p') = (Inr k, FailJWKS 0 p')" for g using k(1) by (simp add: rsaOnce_def FailJWKS_def)
  then show ?thesis
    using k again
    by (intro exI [of _ k]) (simp add: jwks_handler_def FailJWKS_def http_Error_checked_def oidcKeyID_def Let_def)
qed

text \<open>
  The hand-made unsigned token passes the type check: its header decodes and names an access
  token, so it is the signature check alone that stands between it and an identity.
\<close>

lemma unsigned_token_typed:
  assumes "UnsignedToken marshal now p cs = Inr token"
    and "\<And>raw. marshal (VMap [(''alg'', VString ''none''), (''typ'', VString ''at+jwt'')]) = Inr raw \<Longrightarrow> header_typ raw = Inr ''at+jwt''"
  shows "requireAccessTokenType header_typ token = None \<and> last token = CHR ''.''"
  using assms
  by (auto simp: UnsignedToken_def access_token_type_roundtrip [of _ _ "encodeSegment _ @ [_]", simplified] equal_fold_def
      split: sum.splits)

end
