(* ===== verification/TestPostgres.thy ===== *)
theory TestPostgres
  imports Config Errorx
begin

text \<open>
  \<open>pkg/testinfra/postgres.go\<close>: the database container the tests run against.  The
  container is testcontainers'; what its calls answer, poll by poll, is the argument
  \<open>container\<close>.  The loop that waits for it may run forever, so it is run with fuel, and the
  theorems say exactly when it returns.
\<close>

definition dbName :: gostring where "dbName = ''testdb''"
definition dbUser :: gostring where "dbUser = ''test''"
definition dbPassword :: gostring where "dbPassword = ''test''"
definition pg_timeout :: duration where "pg_timeout = second * 240"

record container_request =
  cr_Image :: gostring
  cr_ExposedPorts :: "gostring list"
  cr_Env :: "gostring \<rightharpoonup> gostring"
  cr_WaitLog :: gostring
  cr_WaitOccurrence :: int
  cr_WaitStartupTimeout :: duration
  cr_Started :: bool

definition container_req :: container_request where
  "container_req =
     \<lparr>cr_Image = ''postgres:18-alpine'', cr_ExposedPorts = [''5432/tcp''],
      cr_Env = [''POSTGRES_USER'' \<mapsto> dbUser, ''POSTGRES_PASSWORD'' \<mapsto> dbPassword, ''POSTGRES_DB'' \<mapsto> dbName],
      cr_WaitLog = ''database system is ready to accept connections'', cr_WaitOccurrence = 2,
      cr_WaitStartupTimeout = 5 * second, cr_Started = True\<rparr>"

text \<open>What the container answers: whether it runs at each poll, and its address at that poll.\<close>

record container =
  ct_IsRunning :: "nat \<Rightarrow> bool"
  ct_Host :: "nat \<Rightarrow> gerror + gostring"
  ct_MappedPort :: "nat \<Rightarrow> gostring \<Rightarrow> gerror + gostring"

text \<open>What a run of \<open>RunPostgres\<close> did to the world besides its result.\<close>

datatype pg_event = ContextWithTimeout duration | ContainerCreated container_request | LogInfo gostring | ContextCancelled | ContainerTerminated

definition container_config :: "gostring \<Rightarrow> gostring \<Rightarrow> DatabaseConfig" where
  "container_config host port =
     \<lparr>db_Host = host, db_Port = port, db_DBName = dbName, db_Password = dbPassword, db_User = dbUser,
      db_SSLModeDisabled = True, db_MaxConns = 0, db_MinConns = 0, db_MaxConnLifetime = 0,
      db_MaxConnIdleTime = 0, db_HealthCheckPeriod = 0, db_StatementTimeout = 0\<rparr>"

fun pg_wait :: "nat \<Rightarrow> container \<Rightarrow> nat \<Rightarrow> pg_event list \<Rightarrow> ((gerror + DatabaseConfig) \<times> pg_event list) option" where
  "pg_wait 0 ct k evs = None"
| "pg_wait (Suc fuel) ct k evs =
     (if ct_IsRunning ct k then
        (let evs = evs @ [LogInfo ''database container is running''] in
         case ct_Host ct k of
           Inl err \<Rightarrow> Some (Inl err, evs @ [ContextCancelled])
         | Inr host \<Rightarrow>
             (case ct_MappedPort ct k ''5432/tcp'' of
                Inl err \<Rightarrow> Some (Inl err, evs @ [ContextCancelled])
              | Inr port \<Rightarrow> Some (Inr (container_config host port), evs)))
      else pg_wait fuel ct (Suc k) (evs @ [LogInfo ''waiting for database container to start...'']))"

definition RunPostgres :: "nat \<Rightarrow> gerror + container \<Rightarrow> ((gerror + DatabaseConfig) \<times> pg_event list) option" where
  "RunPostgres fuel created =
     (case created of
        Inl err \<Rightarrow> Some (Inl err, [ContextWithTimeout pg_timeout, ContextCancelled])
      | Inr ct \<Rightarrow> pg_wait fuel ct 0 [ContextWithTimeout pg_timeout, ContainerCreated container_req])"

text \<open>\<open>Shutdown\<close> terminates the container first; the deferred cancel runs after it.\<close>

definition pg_Shutdown :: "gerror option \<Rightarrow> gerror option \<times> pg_event list" where
  "pg_Shutdown terminate_err =
     (terminate_err, [LogInfo ''terminating database container...'', ContainerTerminated, ContextCancelled])"

section \<open>Lemmas\<close>

text \<open>One poll that finds the container running decides the result.\<close>

definition pg_result :: "container \<Rightarrow> nat \<Rightarrow> gerror + DatabaseConfig" where
  "pg_result ct k =
     (case ct_Host ct k of
        Inl err \<Rightarrow> Inl err
      | Inr host \<Rightarrow>
          (case ct_MappedPort ct k ''5432/tcp'' of Inl err \<Rightarrow> Inl err | Inr port \<Rightarrow> Inr (container_config host port)))"

lemma pg_wait_not_running: "(\<And>j. j < fuel \<Longrightarrow> \<not> ct_IsRunning ct (k + j)) \<Longrightarrow> pg_wait fuel ct k evs = None"
proof (induction fuel arbitrary: k evs)
  case (Suc fuel)
  have "\<not> ct_IsRunning ct k" using Suc.prems [of 0] by simp
  moreover have "\<not> ct_IsRunning ct (Suc k + j)" if "j < fuel" for j using Suc.prems [of "Suc j"] that by simp
  ultimately show ?case by (simp add: Suc.IH)
qed simp

lemma pg_wait_running:
  assumes "ct_IsRunning ct (k + n)" and "\<And>j. j < n \<Longrightarrow> \<not> ct_IsRunning ct (k + j)"
  shows "pg_wait (Suc n) ct k evs = Some (pg_result ct (k + n),
      evs @ replicate n (LogInfo ''waiting for database container to start...'')
      @ LogInfo ''database container is running'' # (if is_ok (pg_result ct (k + n)) then [] else [ContextCancelled]))"
  using assms
proof (induction n arbitrary: k evs)
  case 0
  then show ?case by (simp add: pg_result_def split: sum.split)
next
  case (Suc n)
  have "\<not> ct_IsRunning ct k" using Suc.prems(2) [of 0] by simp
  moreover have "ct_IsRunning ct (Suc k + n)" "\<And>j. j < n \<Longrightarrow> \<not> ct_IsRunning ct (Suc k + j)"
    using Suc.prems(1) Suc.prems(2) [of "Suc _"] by simp_all
  ultimately show ?case using Suc.IH [of "Suc k"] by (simp add: Let_def)
qed

lemma pg_wait_mono: "pg_wait fuel ct k evs = Some r \<Longrightarrow> pg_wait (fuel + extra) ct k evs = Some r"
  by (induction fuel arbitrary: k evs) (auto simp: Let_def)

text \<open>With enough polls the run is decided by the first one that finds the container running.\<close>

lemma RunPostgres_decided:
  assumes "ct_IsRunning ct m"
  shows "\<exists>n \<le> m. ct_IsRunning ct n \<and> (\<forall>extra. RunPostgres (Suc n + extra) (Inr ct) = Some (pg_result ct n,
      [ContextWithTimeout pg_timeout, ContainerCreated container_req]
      @ replicate n (LogInfo ''waiting for database container to start...'')
      @ LogInfo ''database container is running'' # (if is_ok (pg_result ct n) then [] else [ContextCancelled])))"
proof -
  define n where "n = (LEAST n. ct_IsRunning ct n)"
  have n: "ct_IsRunning ct n" "n \<le> m" "\<And>j. j < n \<Longrightarrow> \<not> ct_IsRunning ct j"
    unfolding n_def using assms by (auto intro: LeastI Least_le dest: not_less_Least)
  show ?thesis
    using pg_wait_mono [OF pg_wait_running [of ct 0 n "[ContextWithTimeout pg_timeout, ContainerCreated container_req]"]] n
    by (intro exI [of _ n]) (simp add: RunPostgres_def)
qed

lemma RunPostgres_never: "(\<And>j. j < fuel \<Longrightarrow> \<not> ct_IsRunning ct j) \<Longrightarrow> RunPostgres fuel (Inr ct) = None"
  using pg_wait_not_running [of fuel ct 0] by (simp add: RunPostgres_def)

section \<open>Properties\<close>

text \<open>
  C39: waiting for the container ends exactly when the container is ever seen running; then,
  with as many polls as it takes, the result is its address as that poll found it, under the
  fixed test credentials, or the error of asking.  The deadline of the context bounds the calls
  but not the loop.  A container that was created is terminated on no path of this function.
\<close>

theorem RunPostgres_returns_iff:
  "(\<exists>fuel out. RunPostgres fuel (Inr ct) = Some out) = (\<exists>k. ct_IsRunning ct k)
   \<and> (case RunPostgres fuel (Inr ct) of
        None \<Rightarrow> list_all (\<lambda>k. \<not> ct_IsRunning ct k) [0..<fuel]
      | Some (res, evs) \<Rightarrow>
          (\<exists>k < fuel. ct_IsRunning ct k \<and> res = pg_result ct k)
          \<and> ContainerCreated container_req \<in> set evs \<and> ContainerTerminated \<notin> set evs
          \<and> (ContextCancelled \<in> set evs) = (\<not> is_ok res))"
proof -
  note decided = RunPostgres_decided [of ct] and never = RunPostgres_never [of _ ct]
  show ?thesis
  proof (intro conjI)
    show "(\<exists>fuel out. RunPostgres fuel (Inr ct) = Some out) = (\<exists>k. ct_IsRunning ct k)"
      using decided never by (metis option.distinct(1))
    show "case RunPostgres fuel (Inr ct) of
        None \<Rightarrow> list_all (\<lambda>k. \<not> ct_IsRunning ct k) [0..<fuel]
      | Some (res, evs) \<Rightarrow>
          (\<exists>k < fuel. ct_IsRunning ct k \<and> res = pg_result ct k)
          \<and> ContainerCreated container_req \<in> set evs \<and> ContainerTerminated \<notin> set evs
          \<and> (ContextCancelled \<in> set evs) = (\<not> is_ok res)"
    proof (cases "\<exists>m < fuel. ct_IsRunning ct m")
      case True
      then obtain m where "m < fuel" "ct_IsRunning ct m" by blast
      with decided [of m] obtain n where n: "n < fuel" "ct_IsRunning ct n" and
        out: "\<And>extra. RunPostgres (Suc n + extra) (Inr ct) = Some (pg_result ct n,
      [ContextWithTimeout pg_timeout, ContainerCreated container_req] @ replicate n (LogInfo ''waiting for database container to start...'')
      @ LogInfo ''database container is running'' # (if is_ok (pg_result ct n) then [] else [ContextCancelled]))"
        by (auto intro: le_less_trans)
      from out [of "fuel - Suc n"] n show ?thesis by auto
    next
      case False
      then show ?thesis using never [of fuel] by (auto simp: list_all_iff)
    qed
  qed
qed

end
