(* ===== verification/Secrecy.thy ===== *)
theory Secrecy
  imports System
begin

text \<open>
  What a caller can learn from the service.  Two runs of the same request are compared, on states
  that differ in the application alone and there only within a relation; a handler is
  \<open>secure\<close> when the runs agree on everything but the application and end related again.  The
  locale \<open>oblivious\<close> is the contract of a layer that carries this from what it wraps to
  itself.  The layers written in this repository are interpretations of \<open>wrapping\<close>, of which
  it is a consequence, and the guard is one of it directly.

  Two relations are used: any two tables, for callers without a profile scope; and tables that
  agree on which profiles exist and on their timestamps, but not on the names, for callers that
  may write profiles and not read them.
\<close>

section \<open>Secure handlers and oblivious layers\<close>

definition secure :: "('s \<Rightarrow> 's \<Rightarrow> bool) \<Rightarrow> (request \<Rightarrow> bool) \<Rightarrow> 's handler \<Rightarrow> bool" where
  "secure R Q h \<longleftrightarrow>
     (\<forall>r s a. Q r \<longrightarrow> R (st_app s) a \<longrightarrow>
        (\<exists>b. h r (s\<lparr>st_app := a\<rparr>) = (fst (h r s), (snd (h r s))\<lparr>st_app := b\<rparr>) \<and> R (st_app (snd (h r s))) b))"

definition credential_only :: "(request \<Rightarrow> bool) \<Rightarrow> bool" where
  "credential_only Q \<longleftrightarrow> (\<forall>r r'. same_credential r r' \<longrightarrow> Q r \<longrightarrow> Q r')"

locale oblivious =
  fixes mw :: "'s middleware"
  assumes carries: "credential_only Q \<Longrightarrow> secure R Q next \<Longrightarrow> secure R Q (mw next)"

lemma secureI:
  "(\<And>r (s :: 's http) a. Q r \<Longrightarrow> R (st_app s) a \<Longrightarrow>
      \<exists>b. h r (s\<lparr>st_app := a\<rparr>) = (fst (h r s), (snd (h r s))\<lparr>st_app := b\<rparr>) \<and> R (st_app (snd (h r s))) b)
   \<Longrightarrow> secure R Q h"
  by (simp add: secure_def)

lemma secureE:
  assumes "secure R Q h" and "Q r" and "R (st_app s) a" and "h r s = (c, s1)"
  obtains b where "h r (s\<lparr>st_app := a\<rparr>) = (c, s1\<lparr>st_app := b\<rparr>)" "R (st_app s1) b"
  using assms unfolding secure_def by force

lemma secure_weaken: "secure R Q h \<Longrightarrow> (\<And>r. Q' r \<Longrightarrow> Q r) \<Longrightarrow> secure R Q' h"
  by (simp add: secure_def)

lemma credential_onlyD: "credential_only Q \<Longrightarrow> Q r \<Longrightarrow> same_credential r r' \<Longrightarrow> Q r'"
  by (auto simp: credential_only_def)

text \<open>Nothing but the application reads the application.\<close>

lemma app_blind [simp]:
  "routePattern (s\<lparr>st_app := a\<rparr>) = routePattern s"
  "reported_status env (s\<lparr>st_app := a\<rparr>) = reported_status env s"
  "access_record env r n (s\<lparr>st_app := a\<rparr>) = access_record env r n s"
  "panic_record env ctx r p (s\<lparr>st_app := a\<rparr>) = panic_record env ctx r p s"
  "server_span env r (s\<lparr>st_app := a\<rparr>) sp = server_span env r s sp"
  "add_log l (s\<lparr>st_app := a\<rparr>) = (add_log l s)\<lparr>st_app := a\<rparr>"
  "end_span sp (s\<lparr>st_app := a\<rparr>) = (end_span sp s)\<lparr>st_app := a\<rparr>"
  "update_writer f (s\<lparr>st_app := a\<rparr>) = (update_writer f s)\<lparr>st_app := a\<rparr>"
  "st_app (add_log l s) = st_app s"
  "st_app (end_span sp s) = st_app s"
  by (simp_all add: routePattern_def reported_status_def access_record_def panic_record_def server_span_def add_log_def
      end_span_def update_writer_def)

lemma writeInternalError_blind [simp]:
  "writeInternalError env ctx (s\<lparr>st_app := a\<rparr>) = (writeInternalError env ctx s)\<lparr>st_app := a\<rparr>"
  "st_app (writeInternalError env ctx s) = st_app s"
  by (simp_all add: writeInternalError_def Let_def split: sum.split prod.split option.split)

section \<open>The layers are oblivious\<close>

text \<open>
  A layer that prepares the request and the state, runs the next handler once and finishes what
  that left, reading the application nowhere.
\<close>

definition wraps ::
  "'s middleware \<Rightarrow> (request \<Rightarrow> 's http \<Rightarrow> request) \<Rightarrow> (request \<Rightarrow> 's http \<Rightarrow> 's http)
   \<Rightarrow> (request \<Rightarrow> 's http \<Rightarrow> completion \<Rightarrow> 's http \<Rightarrow> completion \<times> 's http) \<Rightarrow> bool" where
  "wraps mw f g post \<longleftrightarrow>
     (\<forall>next r s. mw next r s = (case next (f r s) (g r s) of (c, s1) \<Rightarrow> post r s c s1))
     \<and> (\<forall>r s. same_credential r (f r s)) \<and> (\<forall>r s a. f r (s\<lparr>st_app := a\<rparr>) = f r s)
     \<and> (\<forall>r s. st_app (g r s) = st_app s) \<and> (\<forall>r s a. g r (s\<lparr>st_app := a\<rparr>) = (g r s)\<lparr>st_app := a\<rparr>)
     \<and> (\<forall>r s c s1. st_app (snd (post r s c s1)) = st_app s1)
     \<and> (\<forall>r s a c s1 b. post r (s\<lparr>st_app := a\<rparr>) c (s1\<lparr>st_app := b\<rparr>)
          = (fst (post r s c s1), (snd (post r s c s1))\<lparr>st_app := b\<rparr>))"

lemma wrapping_oblivious:
  assumes "wraps (mw :: 's middleware) f g post"
  shows "oblivious mw"
proof
  note w = assms [unfolded wraps_def]
  fix Q R and "next" :: "'s handler"
  assume Qc: "credential_only Q" and inner: "secure R Q next"
  show "secure R Q (mw next)"
  proof (rule secureI)
    fix r and s :: "'s http" and a
    assume "Q r" and R: "R (st_app s) a"
    have "same_credential r (f r s)" using w by simp
    with \<open>Q r\<close> have Q: "Q (f r s)" by (rule credential_onlyD [OF Qc])
    obtain c s1 where run: "next (f r s) (g r s) = (c, s1)" by fastforce
    have "R (st_app (g r s)) a" using R w by simp
    then obtain b where again: "next (f r s) ((g r s)\<lparr>st_app := a\<rparr>) = (c, s1\<lparr>st_app := b\<rparr>)" "R (st_app s1) b"
      by (rule secureE [OF inner Q _ run])
    have "mw next r s = post r s c s1" "mw next r (s\<lparr>st_app := a\<rparr>) = post r (s\<lparr>st_app := a\<rparr>) c (s1\<lparr>st_app := b\<rparr>)"
      using w run again(1) by simp_all
    with w again(2) show "\<exists>b. mw next r (s\<lparr>st_app := a\<rparr>) = (fst (mw next r s), (snd (mw next r s))\<lparr>st_app := b\<rparr>)
        \<and> R (st_app (snd (mw next r s))) b"
      by (intro exI [of _ b]) simp
  qed
qed

locale wrapping =
  fixes mw :: "'s middleware" and f g post
  assumes law: "wraps mw f g post"

sublocale wrapping \<subseteq> oblivious mw
  by (rule wrapping_oblivious [OF law])

interpretation wrap_access: wrapping "accessLogger env cfg" "\<lambda>r s. r" "\<lambda>r s. s"
    "\<lambda>r s c s1. if rq_path r = metricsPath cfg \<or> c \<noteq> Returned then (c, s1)
       else (Returned, add_log (access_record env r (st_now s) s1) s1)" for env cfg
  by unfold_locales (auto simp: wraps_def accessLogger_def split: completion.split prod.split)

interpretation wrap_trace: wrapping "tracing env" "\<lambda>r s. traced_request env r" "\<lambda>r s. s"
    "\<lambda>r s c s1. let sp = \<lparr>sp_name = rq_method r, sp_attrs = [], sp_status = Unset, sp_ended = False\<rparr> in
       (c, end_span (if c = Returned then server_span env r s1 sp else sp) s1)" for env
  by unfold_locales
     (auto simp: wraps_def tracing_def traced_request_def same_credential_def Let_def split: completion.split prod.split)

interpretation wrap_meter: wrapping "metrics_middleware env" "\<lambda>r s. r" "\<lambda>r s. s"
    "\<lambda>r s c s1. metrics_middleware env (\<lambda>_ _. (c, s1)) r s" for env
  by unfold_locales (auto simp: wraps_def metrics_middleware_def Let_def split: completion.split prod.split)

interpretation wrap_recoverer: wrapping "recoverer env" "\<lambda>r s. r" "\<lambda>r s. s"
    "\<lambda>r s c s1. recoverer env (\<lambda>_ _. (c, s1)) r s" for env
  by unfold_locales (auto simp: wraps_def recoverer_def reportPanic_def split: completion.split prod.split)

interpretation wrap_correlation: wrapping "correlation env"
    "\<lambda>r s. r\<lparr>rq_ctx := (rq_ctx r)\<lparr>cx_request_id := Some (he_NewV7 env (st_uuids s)), cx_correlation_id := Some
       (if safeId (header_get r correlationIdHeader) = [] then he_NewV7 env (st_uuids s)
        else safeId (header_get r correlationIdHeader))\<rparr>\<rparr>"
    "\<lambda>r s. update_writer (Header_Set correlationIdHeader
         (if safeId (header_get r correlationIdHeader) = [] then he_NewV7 env (st_uuids s)
          else safeId (header_get r correlationIdHeader)))
       (update_writer (Header_Set requestIdHeader (he_NewV7 env (st_uuids s))) (s\<lparr>st_uuids := Suc (st_uuids s)\<rparr>))"
    "\<lambda>r s c s1. (c, s1)" for env
  by unfold_locales (simp add: wraps_def correlation_def same_credential_def update_writer_def Let_def)

interpretation wrap_body: wrapping "bodyLimit_handler n"
    "\<lambda>r s. r\<lparr>rq_body_limit := Some (case rq_body_limit r of None \<Rightarrow> n | Some m \<Rightarrow> min m n)\<rparr>"
    "\<lambda>r s. s" "\<lambda>r s c s1. (c, s1)" for n
  by unfold_locales (simp add: wraps_def bodyLimit_handler_def same_credential_def)

lemma deny_blind [simp]:
  "deny WriteErr operation t reason extra r (s\<lparr>st_app := a\<rparr>) =
     (fst (deny WriteErr operation t reason extra r s), (snd (deny WriteErr operation t reason extra r s))\<lparr>st_app := a\<rparr>)"
  by (simp add: deny_def Let_def update_writer_def add_log_def)

text \<open>
  The guard is not of that form, since it may refuse; and where it refuses every request in
  question, what it wraps does not matter.
\<close>

lemma guard_refusal_blind:
  assumes "admitted g req r = None"
  shows "guard_middleware WriteErr g req operation next r (s\<lparr>st_app := a\<rparr>) =
      (fst (guard_middleware WriteErr g req operation next r s),
       (snd (guard_middleware WriteErr g req operation next r s))\<lparr>st_app := a\<rparr>)
    \<and> st_app (snd (guard_middleware WriteErr g req operation next r s)) = st_app s"
  using assms by (auto simp: admitted_def guard_middleware_def split: option.split sum.split)

lemma guard_refused_secure:
  fixes "next" :: "'s handler"
  assumes refused: "\<And>r. Q r \<Longrightarrow> admitted g req r = None"
  shows "secure R Q (guard_middleware WriteErr g req operation next)"
proof (rule secureI)
  fix r and s :: "'s http" and a
  assume "Q r" and R: "R (st_app s) a"
  show "\<exists>b. guard_middleware WriteErr g req operation next r (s\<lparr>st_app := a\<rparr>) =
      (fst (guard_middleware WriteErr g req operation next r s),
       (snd (guard_middleware WriteErr g req operation next r s))\<lparr>st_app := b\<rparr>)
      \<and> R (st_app (snd (guard_middleware WriteErr g req operation next r s))) b"
    using guard_refusal_blind [OF refused [OF \<open>Q r\<close>], of WriteErr operation "next" a s] R by auto
qed

interpretation obl_guard: oblivious "guard_middleware WriteErr g req operation" for WriteErr g req operation
proof
  fix Q R and "next" :: "'s handler"
  assume Qc: "credential_only Q" and inner: "secure R Q next"
  show "secure R Q (guard_middleware WriteErr g req operation next)"
  proof (rule secureI)
    fix r and s :: "'s http" and a
    assume Q: "Q r" and R: "R (st_app s) a"
    show "\<exists>b. guard_middleware WriteErr g req operation next r (s\<lparr>st_app := a\<rparr>) =
        (fst (guard_middleware WriteErr g req operation next r s),
         (snd (guard_middleware WriteErr g req operation next r s))\<lparr>st_app := b\<rparr>)
        \<and> R (st_app (snd (guard_middleware WriteErr g req operation next r s))) b"
    proof (cases "admitted g req r")
      case None
      have "secure R (\<lambda>r'. r' = r) (guard_middleware WriteErr g req operation next)"
        by (rule guard_refused_secure) (simp add: None)
      then show ?thesis using R unfolding secure_def by blast
    next
      case (Some i)
      have "Q (r\<lparr>rq_ctx := NewContext (rq_ctx r) i\<rparr>)"
        by (rule credential_onlyD [OF Qc Q]) (simp add: same_credential_def)
      then show ?thesis using inner R unfolding guard_admits [OF Some] secure_def by blast
    qed
  qed
qed

section \<open>The stack and the operations\<close>

definition library_oblivious :: "'s stack_lib \<Rightarrow> bool" where
  "library_oblivious lib \<longleftrightarrow>
     oblivious (sl_CleanPath lib) \<and> (\<forall>d. oblivious (sl_Timeout lib d)) \<and> (\<forall>p. oblivious (sl_Heartbeat lib p))
     \<and> oblivious (sl_NoCache lib) \<and> (\<forall>es. oblivious (sl_AllowContentEncoding lib es))
     \<and> (\<forall>opts. oblivious (sl_Cors lib opts)) \<and> (\<forall>src. oblivious (sl_ClientIP lib src))
     \<and> (\<forall>n w key. oblivious (sl_LimitBy lib n w key))"

lemma chain_secure:
  assumes "library_oblivious lib" and "credential_only Q" and "secure R Q h"
  shows "secure R Q (chain env lib cfg ls h)"
proof (induction ls)
  case (Cons l ls)
  have "oblivious (apply_layer env lib cfg l)"
    using assms(1)
    by (cases l) (simp_all add: library_oblivious_def wrap_access.oblivious_axioms wrap_trace.oblivious_axioms
        wrap_meter.oblivious_axioms wrap_recoverer.oblivious_axioms wrap_correlation.oblivious_axioms wrap_body.oblivious_axioms)
  from oblivious.carries [OF this assms(2) Cons.IH] show ?case by (simp add: secure_def)
qed (use assms(3) in \<open>simp add: secure_def\<close>)

text \<open>A handler function on related applications: the same answer and log, related results.\<close>

definition fn_related :: "('s \<Rightarrow> 's \<Rightarrow> bool) \<Rightarrow> ('s, 'i, 'o) huma_fn \<Rightarrow> bool" where
  "fn_related R f \<longleftrightarrow>
     (\<forall>ids x s a. R s a \<longrightarrow>
        (\<exists>b. f ids x a = (fst (f ids x s), b, snd (snd (f ids x s))) \<and> R (fst (snd (f ids x s))) b))"

fun fn_secure :: "('s \<Rightarrow> 's \<Rightarrow> bool) \<Rightarrow> 's operation_fn \<Rightarrow> bool" where
  "fn_secure R (OnNothing f) = fn_related R f"
| "fn_secure R (OnCreate f) = fn_related R f"
| "fn_secure R (OnUpdate f) = fn_related R f"
| "fn_secure R (OnGet f) = fn_related R f"
| "fn_secure R (OnDelete f) = fn_related R f"

text \<open>huma and chi act on the application through the handlers they are given only.\<close>

definition oblivious_dispatch :: "'s dispatch_lib \<Rightarrow> bool" where
  "oblivious_dispatch dl \<longleftrightarrow>
     (\<forall>ops r x. dl_find dl ops r = Some x \<longrightarrow> x \<in> set ops)
     \<and> (\<forall>R. secure R (\<lambda>_. True) (dl_other dl))
     \<and> (\<forall>R op fn. fn_secure R fn \<longrightarrow> secure R (\<lambda>_. True) (dl_adapt dl op fn))"

lemma dispatch_secure:
  assumes dl: "oblivious_dispatch dl"
    and each: "\<And>op fn. (op, fn) \<in> set ops \<Longrightarrow> fn_secure R fn \<or> (\<forall>h. secure R Q (run_operation op h))"
    and guarded: "\<And>op fn h. (op, fn) \<in> set ops \<Longrightarrow> secure R Q h \<Longrightarrow> secure R Q (run_operation op h)"
  shows "secure R Q (dispatch dl ops)"
proof (rule secureI)
  fix r and s :: "'a http" and a
  assume "Q r" and R: "R (st_app s) a"
  show "\<exists>b. dispatch dl ops r (s\<lparr>st_app := a\<rparr>) = (fst (dispatch dl ops r s), (snd (dispatch dl ops r s))\<lparr>st_app := b\<rparr>)
      \<and> R (st_app (snd (dispatch dl ops r s))) b"
  proof (cases "dl_find dl ops r")
    case None
    then show ?thesis using dl R unfolding oblivious_dispatch_def secure_def dispatch_def by simp
  next
    case (Some x)
    obtain op fn where x: "x = (op, fn)" by (cases x)
    have here: "dispatch dl ops r t = run_operation op (dl_adapt dl op fn) r t" for t :: "'a http"
      by (simp add: dispatch_def Some x)
    have reg: "(op, fn) \<in> set ops" using dl Some x unfolding oblivious_dispatch_def by blast
    have "fn_secure R fn \<Longrightarrow> secure R Q (dl_adapt dl op fn)"
      using dl secure_weaken [of R "\<lambda>_. True" _ Q] unfolding oblivious_dispatch_def by blast
    then have "secure R Q (run_operation op (dl_adapt dl op fn))" using each [OF reg] guarded [OF reg] by blast
    then show ?thesis using \<open>Q r\<close> R unfolding here secure_def by blast
  qed
qed

section \<open>What writing a profile shows of the table\<close>

text \<open>Which profiles exist and since when, but not whose they are.\<close>

definition row_times :: "row \<Rightarrow> time option \<times> time option" where
  "row_times w = (row_created_at w, row_updated_at w)"

definition same_outline :: "db \<Rightarrow> db \<Rightarrow> bool" where
  "same_outline s a \<longleftrightarrow>
     db_tick s = db_tick a \<and> (\<forall>u. map_option row_times (db_table s u) = map_option row_times (db_table a u))"

lemma outline_cases:
  assumes "same_outline s a"
  obtains "db_table s u = None" "db_table a u = None"
  | w w' where "db_table s u = Some w" "db_table a u = Some w'" "row_created_at w = row_created_at w'"
      "row_updated_at w = row_updated_at w'"
proof -
  have "map_option row_times (db_table s u) = map_option row_times (db_table a u)"
    using assms by (simp add: same_outline_def)
  then show thesis
    using that by (cases "db_table s u"; cases "db_table a u") (auto simp: row_times_def)
qed

lemma outline_tick: "same_outline s a \<Longrightarrow> db_tick a = db_tick s"
  by (simp add: same_outline_def)

lemma outline_bump: "same_outline s a \<Longrightarrow> same_outline (s\<lparr>db_tick := n\<rparr>) (a\<lparr>db_tick := n\<rparr>)"
  by (simp add: same_outline_def)

lemma outline_upd:
  "same_outline s a \<Longrightarrow> map_option row_times x = map_option row_times y
   \<Longrightarrow> same_outline (s\<lparr>db_table := (db_table s)(u := x), db_tick := n\<rparr>) (a\<lparr>db_table := (db_table a)(u := y), db_tick := n\<rparr>)"
  by (simp add: same_outline_def)

lemma Create_outline:
  assumes "same_outline s a"
  shows "\<exists>b. Create pg p a = (fst (Create pg p s), b) \<and> same_outline (snd (Create pg p s)) b"
proof (cases rule: outline_cases [OF assms, of "pg_gen_uuid pg (db_tick s)"])
  case 1
  then show ?thesis
    using outline_tick [OF assms] outline_bump [OF assms] outline_upd [OF assms]
    by (auto simp: Create_def run_statement_def sql_insert_def Let_def split: option.split)
next
  case (2 w w')
  then show ?thesis
    using outline_tick [OF assms] outline_bump [OF assms]
    by (auto simp: Create_def run_statement_def sql_insert_def Let_def split: option.split)
qed

lemma Update_outline:
  assumes "same_outline s a"
  shows "\<exists>b. Update pg p a = (fst (Update pg p s), b) \<and> same_outline (snd (Update pg p s)) b"
proof (cases "uuid_parse (Id p)")
  case None
  then show ?thesis
    using outline_tick [OF assms] outline_bump [OF assms]
    by (auto simp: Update_def run_statement_def sql_update_def Let_def split: option.split)
next
  case (Some u)
  show ?thesis
  proof (cases rule: outline_cases [OF assms, of u])
    case 1
    then show ?thesis
      using Some outline_tick [OF assms] outline_bump [OF assms]
      by (auto simp: Update_def run_statement_def sql_update_def Let_def split: option.split)
  next
    case (2 w w')
    then show ?thesis
      using Some outline_tick [OF assms] outline_bump [OF assms] outline_upd [OF assms]
      by (auto simp: Update_def run_statement_def sql_update_def scan_times_def row_constraint_def row_times_def Let_def
          split: option.split)
  qed
qed

lemma Delete_outline:
  assumes "same_outline s a"
  shows "\<exists>b. DeleteById pg i a = (fst (DeleteById pg i s), b) \<and> same_outline (snd (DeleteById pg i s)) b"
proof (cases "uuid_parse i")
  case None
  then show ?thesis
    using outline_tick [OF assms] outline_bump [OF assms]
    by (auto simp: DeleteById_def run_statement_def sql_delete_by_id_def Let_def split: option.split)
next
  case (Some u)
  show ?thesis
  proof (cases rule: outline_cases [OF assms, of u])
    case 1
    then show ?thesis
      using Some outline_tick [OF assms] outline_bump [OF assms]
      by (auto simp: DeleteById_def run_statement_def sql_delete_by_id_def Let_def split: option.split)
  next
    case (2 w w')
    then show ?thesis
      using Some outline_tick [OF assms] outline_bump [OF assms] outline_upd [OF assms]
      by (auto simp: DeleteById_def run_statement_def sql_delete_by_id_def Let_def split: option.split)
  qed
qed

lemma create_related: "fn_related same_outline (create_profile (profile_services ds ping pg))"
  unfolding fn_related_def
proof (intro allI impI)
  fix ids and q :: CreateRequest and s a
  let ?p = "WithLastName (create_LastName q) (WithFirstName (create_FirstName q) Profile_New)"
  assume "same_outline s a"
  from Create_outline [OF this, of pg ?p] obtain b
    where "Create pg ?p a = (fst (Create pg ?p s), b)" "same_outline (snd (Create pg ?p s)) b" by blast
  then show "\<exists>b. create_profile (profile_services ds ping pg) ids q a =
      (fst (create_profile (profile_services ds ping pg) ids q s), b, snd (snd (create_profile (profile_services ds ping pg) ids q s)))
      \<and> same_outline (fst (snd (create_profile (profile_services ds ping pg) ids q s))) b"
    by (intro exI [of _ b]) (auto simp: create_profile_def svc_Create_def Let_def split: prod.split sum.split)
qed

lemma update_related: "fn_related same_outline (update_profile (profile_services ds ping pg))"
  unfolding fn_related_def
proof (intro allI impI)
  fix ids and q :: UpdateRequest and s a
  let ?p = "WithLastName (update_LastName q) (WithFirstName (update_FirstName q) (WithId (update_Id q) Profile_New))"
  assume "same_outline s a"
  from Update_outline [OF this, of pg ?p] obtain b
    where "Update pg ?p a = (fst (Update pg ?p s), b)" "same_outline (snd (Update pg ?p s)) b" by blast
  then show "\<exists>b. update_profile (profile_services ds ping pg) ids q a =
      (fst (update_profile (profile_services ds ping pg) ids q s), b, snd (snd (update_profile (profile_services ds ping pg) ids q s)))
      \<and> same_outline (fst (snd (update_profile (profile_services ds ping pg) ids q s))) b"
    by (intro exI [of _ b]) (auto simp: update_profile_def svc_Update_def Let_def split: prod.split sum.split)
qed

lemma delete_related: "fn_related same_outline (delete_profile (profile_services ds ping pg))"
  unfolding fn_related_def
proof (intro allI impI)
  fix ids i s a
  assume "same_outline s a"
  from Delete_outline [OF this, of pg i] obtain b
    where "DeleteById pg i a = (fst (DeleteById pg i s), b)" "same_outline (snd (DeleteById pg i s)) b" by blast
  then show "\<exists>b. delete_profile (profile_services ds ping pg) ids i a =
      (fst (delete_profile (profile_services ds ping pg) ids i s), b, snd (snd (delete_profile (profile_services ds ping pg) ids i s)))
      \<and> same_outline (fst (snd (delete_profile (profile_services ds ping pg) ids i s))) b"
    by (intro exI [of _ b]) (auto simp: delete_profile_def svc_DeleteById_def split: prod.split sum.split option.split)
qed

text \<open>The health operations look at the answer to a ping and at the pool, and change nothing.\<close>

definition ping_blind :: "(db \<Rightarrow> gerror option \<times> pool_stat) \<Rightarrow> bool" where
  "ping_blind ping \<longleftrightarrow> (\<forall>s a. db_tick s = db_tick a \<longrightarrow> ping s = ping a)"

lemma health_secure:
  assumes "ping_blind ping" and tick: "\<And>s a. R s a \<Longrightarrow> db_tick s = db_tick a"
    and "(op, fn) \<in> set (registerHealth (profile_services ds ping pg))"
  shows "fn_secure R fn"
proof -
  have "fn_related R (readiness (profile_services ds ping pg))"
    unfolding fn_related_def
  proof (intro allI impI exI conjI)
    fix ids :: ctx_ids and x s a
    assume "R s a"
    then have "ping a = ping s" using assms(1) tick by (metis ping_blind_def)
    then show "readiness (profile_services ds ping pg) ids x a =
        (fst (readiness (profile_services ds ping pg) ids x s), a, snd (snd (readiness (profile_services ds ping pg) ids x s)))"
      by (simp add: readiness_def initServices_def initRepositories_def split: prod.split sum.split)
    show "R (fst (snd (readiness (profile_services ds ping pg) ids x s))) a"
      using \<open>R s a\<close> by (simp add: readiness_def split: prod.split sum.split)
  qed
  moreover have "fn_related R health_live"
    by (auto simp: fn_related_def health_live_def Live_def)
  ultimately show ?thesis using assms(3) by (auto simp: registerHealth_def)
qed

text \<open>Callers, by the scopes of the identity their credential stands for.\<close>

definition lacks :: "(gostring \<Rightarrow> gerror + identity) \<Rightarrow> gostring list \<Rightarrow> request \<Rightarrow> bool" where
  "lacks verify scopes r \<longleftrightarrow> (\<forall>i. credited verify r i \<longrightarrow> list_all (\<lambda>n. \<not> HasScope i n) scopes)"

lemma lacks_credential_only: "credential_only (lacks verify scopes)"
  by (simp add: credential_only_def lacks_def credited_same)

lemma lacks_refused:
  assumes "lacks (g_verifier g) scopes r" and "\<And>i. Satisfied req i \<Longrightarrow> list_ex (HasScope i) scopes"
  shows "admitted g req r = None"
proof (rule ccontr)
  assume "admitted g req r \<noteq> None"
  then obtain i where "credited (g_verifier g) r i" "Satisfied req i"
    by (auto simp: admitted_def credited_def authorizationHeader_def split: option.splits sum.splits if_splits)
  with assms show False by (fastforce simp: lacks_def list_all_iff list_ex_iff)
qed

lemma registered_carries:
  assumes "(op, fn) \<in> set (registerOperations WriteErr svc mb (Some g))" and "credential_only Q" and "secure R Q h"
  shows "secure R Q (run_operation op h)"
proof -
  consider "(op, fn) \<in> set (registerHealth svc)" | opid req where "run_operation op = guard_middleware WriteErr g req opid"
    using assms(1) by (auto simp: registerOperations_def registerProfile_def run_secured)
  then show ?thesis
  proof cases
    case 1
    then show ?thesis using assms(3) by (simp add: health_unguarded)
  next
    case (2 opid req)
    then show ?thesis using obl_guard.carries [OF assms(2,3)] by simp
  qed
qed

text \<open>Without the read scope: reading is refused, and the other operations show the outline only.\<close>

lemma reader_refused:
  "lacks (g_verifier g) [''profile:read''] r \<Longrightarrow> admitted g (Scope [scopeProfileRead]) r = None"
  by (erule lacks_refused) (simp add: Scope_satisfied scopeProfileRead_def del: HasScope_iff)

lemma stranger_refused:
  assumes "lacks (g_verifier g) [''profile:read'', ''profile:write''] r"
    and "req \<in> {Scope [scopeProfileRead], Scope [scopeProfileWrite], AllOf [Scope [scopeProfileWrite], Role [roleAdmin]]}"
  shows "admitted g req r = None"
  using assms(2)
  by (intro lacks_refused [OF assms(1)])
     (auto simp: Scope_satisfied scope_and_role_satisfied scopeProfileRead_def scopeProfileWrite_def simp del: HasScope_iff)

lemma registered_cases:
  assumes "(op, fn) \<in> set (registerOperations WriteErr svc mb (Some g))"
  obtains "(op, fn) \<in> set (registerHealth svc)"
    | "fn = OnCreate (create_profile svc)" "run_operation op = guard_middleware WriteErr g (Scope [scopeProfileWrite]) (op_OperationID op)"
    | "fn = OnUpdate (update_profile svc)" "run_operation op = guard_middleware WriteErr g (Scope [scopeProfileWrite]) (op_OperationID op)"
    | "fn = OnGet (get_profile svc)" "run_operation op = guard_middleware WriteErr g (Scope [scopeProfileRead]) (op_OperationID op)"
    | "fn = OnDelete (delete_profile svc)"
      "run_operation op = guard_middleware WriteErr g (AllOf [Scope [scopeProfileWrite], Role [roleAdmin]]) (op_OperationID op)"
  using assms that by (auto simp: registerOperations_def registerProfile_def run_secured)

lemma dispatch_outline:
  assumes dl: "oblivious_dispatch dl" and ping: "ping_blind ping"
  shows "secure same_outline (lacks (g_verifier g) [''profile:read''])
    (dispatch dl (registerOperations WriteErr (profile_services ds ping pg) mb (Some g)))"
proof (rule dispatch_secure [OF dl])
  fix op :: "db operation" and fn
  assume reg: "(op, fn) \<in> set (registerOperations WriteErr (profile_services ds ping pg) mb (Some g))"
  show "fn_secure same_outline fn \<or> (\<forall>h. secure same_outline (lacks (g_verifier g) [''profile:read'']) (run_operation op h))"
    using reg
  proof (cases rule: registered_cases)
    case 1
    then show ?thesis using health_secure [OF ping, of same_outline] by (simp add: same_outline_def)
  next
    case 4
    then show ?thesis by (simp add: guard_refused_secure reader_refused)
  qed (simp_all add: create_related update_related delete_related)
  show "secure same_outline (lacks (g_verifier g) [''profile:read'']) h
      \<Longrightarrow> secure same_outline (lacks (g_verifier g) [''profile:read'']) (run_operation op h)" for h
    by (rule registered_carries [OF reg lacks_credential_only])
qed

lemma dispatch_stranger:
  assumes dl: "oblivious_dispatch dl" and ping: "ping_blind ping"
  shows "secure (\<lambda>s a. db_tick s = db_tick a) (lacks (g_verifier g) [''profile:read'', ''profile:write''])
    (dispatch dl (registerOperations WriteErr (profile_services ds ping pg) mb (Some g)))"
proof (rule dispatch_secure [OF dl])
  let ?Q = "lacks (g_verifier g) [''profile:read'', ''profile:write'']"
  fix op :: "db operation" and fn
  assume reg: "(op, fn) \<in> set (registerOperations WriteErr (profile_services ds ping pg) mb (Some g))"
  show "fn_secure (\<lambda>s a. db_tick s = db_tick a) fn \<or> (\<forall>h. secure (\<lambda>s a. db_tick s = db_tick a) ?Q (run_operation op h))"
    using reg
  proof (cases rule: registered_cases)
    case 1
    then show ?thesis using health_secure [OF ping, of "\<lambda>s a. db_tick s = db_tick a"] by simp
  qed (simp_all add: guard_refused_secure stranger_refused)
  show "secure (\<lambda>s a. db_tick s = db_tick a) ?Q h \<Longrightarrow> secure (\<lambda>s a. db_tick s = db_tick a) ?Q (run_operation op h)" for h
    by (rule registered_carries [OF reg lacks_credential_only])
qed

section \<open>Sessions\<close>

text \<open>
  Requests served one after the other, each with a writer and a routing context of its own, over
  whatever state the ones before it left; and the answers they got.
\<close>

definition new_exchange :: "'s http \<Rightarrow> 's http" where
  "new_exchange s = s\<lparr>st_writer := st_writer (fresh_http ()), st_route := Some []\<rparr>"

fun serve_all ::
  "http_env \<Rightarrow> 's stack_lib \<Rightarrow> 's dispatch_lib \<Rightarrow> Config \<Rightarrow> 's router \<Rightarrow> request list \<Rightarrow> 's http
   \<Rightarrow> (completion \<times> writer) list \<times> 's http" where
  "serve_all env lib dl cfg rt [] s = ([], s)"
| "serve_all env lib dl cfg rt (r # rs) s =
     (let (c, s1) = serve_request env lib dl cfg rt r (new_exchange s);
          (answers, s2) = serve_all env lib dl cfg rt rs s1
      in ((c, st_writer s1) # answers, s2))"

lemma new_exchange_app [simp]:
  "new_exchange (s\<lparr>st_app := a\<rparr>) = (new_exchange s)\<lparr>st_app := a\<rparr>" "st_app (new_exchange s) = st_app s"
  by (simp_all add: new_exchange_def)

lemma serve_all_secure:
  fixes s :: "'s http"
  assumes "secure R Q (serve_request env lib dl cfg rt)"
    and "\<forall>r \<in> set rs. Q r" and "R (st_app s) a"
  shows "\<exists>b. serve_all env lib dl cfg rt rs (s\<lparr>st_app := a\<rparr>) =
      (fst (serve_all env lib dl cfg rt rs s), (snd (serve_all env lib dl cfg rt rs s))\<lparr>st_app := b\<rparr>)
    \<and> R (st_app (snd (serve_all env lib dl cfg rt rs s))) b"
  using assms(2,3)
proof (induction rs arbitrary: s a)
  case Nil
  then show ?case by auto
next
  case (Cons r rs)
  obtain c s1 where run: "serve_request env lib dl cfg rt r (new_exchange s) = (c, s1)" by fastforce
  have "Q r" "R (st_app (new_exchange s)) a" using Cons.prems by simp_all
  then obtain b1 where 1: "serve_request env lib dl cfg rt r ((new_exchange s)\<lparr>st_app := a\<rparr>) = (c, s1\<lparr>st_app := b1\<rparr>)" "R (st_app s1) b1"
    by (rule secureE [OF assms(1) _ _ run])
  obtain b where 2: "serve_all env lib dl cfg rt rs (s1\<lparr>st_app := b1\<rparr>) =
      (fst (serve_all env lib dl cfg rt rs s1), (snd (serve_all env lib dl cfg rt rs s1))\<lparr>st_app := b\<rparr>)"
      "R (st_app (snd (serve_all env lib dl cfg rt rs s1))) b"
    using Cons.IH [of s1 b1] Cons.prems(1) 1(2) by auto
  with run 1 2 show ?case by (intro exI [of _ b]) (simp add: Let_def split_beta)
qed

text \<open>What the claims of the tokens in a session may say.\<close>

definition no_token_grants ::
  "OIDCConfig \<Rightarrow> (gostring \<Rightarrow> gerror + id_token) \<Rightarrow> gostring list \<Rightarrow> request \<Rightarrow> bool" where
  "no_token_grants cfg tokens scopes r \<longleftrightarrow>
     (case bearerToken (header_get r ''Authorization'') of
        None \<Rightarrow> True
      | Some token \<Rightarrow>
          (case tokens token of
             Inl err \<Rightarrow> True
           | Inr tok \<Rightarrow>
               (case tok_claims tok of
                  Inl err \<Rightarrow> True
                | Inr cs \<Rightarrow> list_all (\<lambda>n. n \<notin> set (claimList cs (oidc_ScopeClaim cfg))) scopes)))"

lemma no_token_lacks: "no_token_grants cfg tokens scopes r \<Longrightarrow> lacks (Verify cfg tokens header_typ) scopes r"
  by (auto simp: lacks_def credited_def no_token_grants_def list_all_iff elim!: Verify_Inr)

lemma started_secure:
  assumes started: "startup DefaultConfig WriteErr config_result otel_result db_result discovery
      (\<lambda>v. Verify (v_cfg v) (tokens v) header_typ) = Ready cfg flush rt server"
    and "db_result cfg = Inr (initServices (initRepositories ds ping pg))" and "oidc_Enabled (cfg_Oidc cfg)"
    and v: "Init (cfg_Oidc cfg) discovery = Inr (Some v)"
    and "library_oblivious lib"
    and ops: "\<And>g. secure R (lacks (g_verifier g) scopes)
      (dispatch dl (registerOperations WriteErr (profile_services ds ping pg) (http_MaxBodyBytes (cfg_Http cfg)) (Some g)))"
  shows "secure R (no_token_grants (cfg_Oidc cfg) (tokens v) scopes) (serve_request env lib dl cfg rt)"
proof -
  have rt: "rt_operations rt = registerOperations WriteErr (profile_services ds ping pg) (http_MaxBodyBytes (cfg_Http cfg))
      (Some \<lparr>g_verifier = Verify (cfg_Oidc cfg) (tokens v) header_typ\<rparr>)"
    using Ready_service [OF started assms(2)] assms(3) v by auto
  have "secure R (lacks (Verify (cfg_Oidc cfg) (tokens v) header_typ) scopes) (dispatch dl (rt_operations rt))"
    using ops [of "\<lparr>g_verifier = Verify (cfg_Oidc cfg) (tokens v) header_typ\<rparr>"] by (simp add: rt)
  then have "secure R (lacks (Verify (cfg_Oidc cfg) (tokens v) header_typ) scopes) (serve_request env lib dl cfg rt)"
    using chain_secure [OF assms(5) lacks_credential_only] unfolding serve_request_def secure_def by blast
  then show ?thesis using secure_weaken no_token_lacks by blast
qed

section \<open>Properties\<close>

text \<open>
  C6: stored names are shown to readers only.  Take a service that started with authentication
  enabled, and any session of requests none of which carries a verified token whose claims list
  the read scope; the write scope and the admin role are allowed.  Replace every stored name
  by another: each answer, with its status, headers and body, is the same, and so is everything
  logged, traced and counted, however often profiles were created, changed and deleted on the way.
\<close>

theorem names_shown_to_readers_only:
  assumes "startup DefaultConfig WriteErr config_result otel_result db_result discovery
      (\<lambda>v. Verify (v_cfg v) (tokens v) header_typ) = Ready cfg flush rt server"
    and "db_result cfg = Inr (initServices (initRepositories ds ping pg))" and "oidc_Enabled (cfg_Oidc cfg)"
    and "Init (cfg_Oidc cfg) discovery = Inr (Some v)"
    and "library_oblivious lib" and "oblivious_dispatch dl" and "ping_blind ping"
    and "\<forall>r \<in> set rs. no_token_grants (cfg_Oidc cfg) (tokens v) [''profile:read''] r"
    and "same_outline (st_app s) other"
  shows "\<exists>other'. serve_all env lib dl cfg rt rs (s\<lparr>st_app := other\<rparr>) =
      (fst (serve_all env lib dl cfg rt rs s), (snd (serve_all env lib dl cfg rt rs s))\<lparr>st_app := other'\<rparr>)
    \<and> same_outline (st_app (snd (serve_all env lib dl cfg rt rs s))) other'"
  by (rule serve_all_secure [where R = same_outline,
        OF started_secure [OF assms(1-5) dispatch_outline [OF assms(6,7)]] assms(8,9)])

text \<open>A layer that only hands a request on, prepared or not, is a wrapping one.\<close>

definition wrapping_layer :: "'s middleware \<Rightarrow> bool" where
  "wrapping_layer mw \<longleftrightarrow> (\<exists>f g post. wrapping mw f g post)"

lemma passing_on_wraps:
  "(\<And>next r s. mw next r s = next (f r s) s) \<Longrightarrow> (\<And>r s. same_credential r (f r s))
   \<Longrightarrow> (\<And>r s a. f r (s\<lparr>st_app := a\<rparr>) = f r s) \<Longrightarrow> wrapping_layer mw"
  unfolding wrapping_layer_def wrapping_def
  by (intro exI [of _ f] exI [of _ "\<lambda>r s. s"] exI [of _ "\<lambda>r s c s1. (c, s1)"]) (simp add: wraps_def)

lemma sample_layers_wrap:
  "wrapping_layer (sl_CleanPath sample_lib)" "wrapping_layer (sl_Timeout sample_lib d)"
  "wrapping_layer (sl_Heartbeat sample_lib p)" "wrapping_layer (sl_NoCache sample_lib)"
  "wrapping_layer (sl_AllowContentEncoding sample_lib es)" "wrapping_layer (sl_Cors sample_lib opts)"
  "wrapping_layer (sl_ClientIP sample_lib src)" "wrapping_layer (sl_LimitBy sample_lib n w key)"
proof -
  show "wrapping_layer (sl_Timeout sample_lib d)"
    by (rule passing_on_wraps [where f = "\<lambda>r s. r\<lparr>rq_ctx := (rq_ctx r)\<lparr>cx_deadline := Some (st_now s + d)\<rparr>\<rparr>"])
       (simp_all add: sample_lib_def same_credential_def)
qed (rule passing_on_wraps [where f = "\<lambda>r s. r"]; simp add: sample_lib_def)+

lemma wrapping_layer_oblivious: "wrapping_layer mw \<Longrightarrow> oblivious mw"
  unfolding wrapping_layer_def wrapping_def by (elim exE) (rule wrapping_oblivious)

lemma sample_lib_oblivious: "library_oblivious sample_lib"
  unfolding library_oblivious_def by (intro conjI allI wrapping_layer_oblivious sample_layers_wrap)

lemma sample_adapt_secure:
  fixes R :: "'s \<Rightarrow> 's \<Rightarrow> bool"
  assumes "fn_secure R fn"
  shows "secure R (\<lambda>_. True) (sample_adapt op fn)"
proof (rule secureI)
  fix r and s :: "'s http" and a
  assume R: "R (st_app s) a"
  show "\<exists>b. sample_adapt op fn r (s\<lparr>st_app := a\<rparr>) = (fst (sample_adapt op fn r s), (snd (sample_adapt op fn r s))\<lparr>st_app := b\<rparr>)
      \<and> R (st_app (snd (sample_adapt op fn r s))) b"
  proof (cases fn)
    case (OnCreate f)
    let ?q = "\<lparr>create_FirstName = ''Ada'', create_LastName = ''Byron''\<rparr>"
    have "fn_related R f" using OnCreate assms by simp
    with R obtain b where "f (ids_of (rq_ctx r)) ?q a = (fst (f (ids_of (rq_ctx r)) ?q (st_app s)), b,
        snd (snd (f (ids_of (rq_ctx r)) ?q (st_app s))))" "R (fst (snd (f (ids_of (rq_ctx r)) ?q (st_app s)))) b"
      unfolding fn_related_def by meson
    then show ?thesis by (intro exI [of _ b]) (simp add: sample_adapt_def OnCreate)
  qed (use R in \<open>auto simp: sample_adapt_def\<close>)
qed

lemma sample_dispatch_oblivious: "oblivious_dispatch (sample_dispatch :: 's dispatch_lib)"
proof -
  have "dl_find sample_dispatch ops r = Some x \<Longrightarrow> x \<in> set ops" for ops :: "('s operation \<times> 's operation_fn) list" and r x
    using sample_dispatch_lawful unfolding lawful_dispatch_def by blast
  moreover have "secure R (\<lambda>_. True) (dl_other sample_dispatch)" for R :: "'s \<Rightarrow> 's \<Rightarrow> bool"
    by (rule secureI) (auto simp: sample_dispatch_def)
  moreover have "dl_adapt sample_dispatch = (sample_adapt :: 's operation \<Rightarrow> 's operation_fn \<Rightarrow> 's handler)"
    by (simp add: sample_dispatch_def)
  ultimately show ?thesis
    unfolding oblivious_dispatch_def by (simp add: sample_adapt_secure)
qed

definition renamed_db :: db where
  "renamed_db = sample_db\<lparr>db_table := [0 \<mapsto> sample_row\<lparr>row_first_name := ''Eve''\<rparr>]\<rparr>"

lemma renamed_outline: "same_outline (st_app (fresh_http sample_db)) renamed_db"
  by (simp add: same_outline_def renamed_db_def sample_db_def fresh_http_def row_times_def)

lemma fresh_http_with: "(fresh_http a)\<lparr>st_app := b\<rparr> = fresh_http b"
  by (simp add: fresh_http_def)

lemma writer_is_no_reader: "no_token_grants (cfg_Oidc sample_system_cfg) writer_tokens [''profile:read''] sample_post"
  by (simp add: no_token_grants_def sample_post_def header_get_def sample_bearer writer_tokens_def writer_claims_def
      claimList_def lookupClaim_def sample_system_cfg_def sample_cfg_def default_config_def)

lemma sample_Init_ok:
  "\<exists>v. Init (cfg_Oidc sample_system_cfg) (\<lambda>issuer t. Inr ()) = Inr (Some v)" "oidc_Enabled (cfg_Oidc sample_system_cfg)"
  by (auto simp: Init_def sample_system_cfg_def sample_cfg_def default_config_def)

lemma sample_ping_blind: "ping_blind (\<lambda>_. (None, undefined))"
  by (simp add: ping_blind_def)

theorem names_shown_to_readers_only_witness:
  "\<exists>rt. sample_startup sample_pg = Ready sample_system_cfg NoopShutdown rt (NewServer (cfg_Http sample_system_cfg))
     \<and> fst (serve_all sample_env sample_lib sample_dispatch sample_system_cfg rt [sample_post] (fresh_http renamed_db))
       = fst (serve_all sample_env sample_lib sample_dispatch sample_system_cfg rt [sample_post] (fresh_http sample_db))"
proof -
  obtain rt where rt: "sample_startup sample_pg = Ready sample_system_cfg NoopShutdown rt (NewServer (cfg_Http sample_system_cfg))"
    using sample_started by blast
  obtain v where v: "Init (cfg_Oidc sample_system_cfg) (\<lambda>issuer t. Inr ()) = Inr (Some v)" using sample_Init_ok by blast
  from names_shown_to_readers_only [OF rt [unfolded sample_startup_def] refl sample_Init_ok(2) v sample_lib_oblivious
      sample_dispatch_oblivious sample_ping_blind _ renamed_outline, of "[sample_post]" sample_env] rt
  show ?thesis by (auto simp: writer_is_no_reader fresh_http_with)
qed

text \<open>
  C12: to a stranger the table does not exist.  In a session without a verified token that lists
  one of the profile scopes, no answer, log record, span or count depends on what is stored, not
  even on how much or since when.
\<close>

theorem strangers_learn_nothing:
  assumes "startup DefaultConfig WriteErr config_result otel_result db_result discovery
      (\<lambda>v. Verify (v_cfg v) (tokens v) header_typ) = Ready cfg flush rt server"
    and "db_result cfg = Inr (initServices (initRepositories ds ping pg))" and "oidc_Enabled (cfg_Oidc cfg)"
    and "Init (cfg_Oidc cfg) discovery = Inr (Some v)"
    and "library_oblivious lib" and "oblivious_dispatch dl" and "ping_blind ping"
    and "\<forall>r \<in> set rs. no_token_grants (cfg_Oidc cfg) (tokens v) [''profile:read'', ''profile:write''] r"
    and "db_tick (st_app s) = db_tick other"
  shows "\<exists>other'. serve_all env lib dl cfg rt rs (s\<lparr>st_app := other\<rparr>) =
      (fst (serve_all env lib dl cfg rt rs s), (snd (serve_all env lib dl cfg rt rs s))\<lparr>st_app := other'\<rparr>)
    \<and> db_tick (st_app (snd (serve_all env lib dl cfg rt rs s))) = db_tick other'"
  by (rule serve_all_secure [where R = "\<lambda>s a. db_tick s = db_tick a",
        OF started_secure [OF assms(1-5) dispatch_stranger [OF assms(6,7)]] assms(8,9)])

theorem strangers_learn_nothing_witness:
  "\<exists>rt. sample_startup sample_pg = Ready sample_system_cfg NoopShutdown rt (NewServer (cfg_Http sample_system_cfg))
     \<and> fst (serve_all sample_env sample_lib sample_dispatch sample_system_cfg rt [sample_request ''GET'' ''/api/v1/profile/{id}'']
         (fresh_http (sample_db\<lparr>db_table := Map.empty\<rparr>)))
       = fst (serve_all sample_env sample_lib sample_dispatch sample_system_cfg rt [sample_request ''GET'' ''/api/v1/profile/{id}'']
         (fresh_http sample_db))"
proof -
  obtain rt where rt: "sample_startup sample_pg = Ready sample_system_cfg NoopShutdown rt (NewServer (cfg_Http sample_system_cfg))"
    using sample_started by blast
  obtain v where v: "Init (cfg_Oidc sample_system_cfg) (\<lambda>issuer t. Inr ()) = Inr (Some v)" using sample_Init_ok by blast
  have "no_token_grants (cfg_Oidc sample_system_cfg) writer_tokens [''profile:read'', ''profile:write'']
      (sample_request ''GET'' ''/api/v1/profile/{id}'')"
    by (simp add: no_token_grants_def sample_request_def header_get_def bearerToken_def bearerPrefix_length)
  moreover have "db_tick (st_app (fresh_http sample_db)) = db_tick (sample_db\<lparr>db_table := Map.empty\<rparr>)"
    by (simp add: fresh_http_def)
  ultimately show ?thesis
    using strangers_learn_nothing [OF rt [unfolded sample_startup_def] refl sample_Init_ok(2) v sample_lib_oblivious
      sample_dispatch_oblivious sample_ping_blind, of "[sample_request ''GET'' ''/api/v1/profile/{id}'']" "fresh_http sample_db"
      "sample_db\<lparr>db_table := Map.empty\<rparr>" sample_env] rt
    by (auto simp: fresh_http_with)
qed

end
