(* ===== verification/Answers.thy ===== *)
theory Answers
  imports Concurrent
begin

text \<open>
  The status a caller sees for a request that reached the database, end to end: what the
  repository made of the driver's answer, as typed errors carry it through the service, the
  handler, the guard and the whole stack.  The reference is \<open>answer_status\<close>, which reads
  the table and the driver's failure and knows none of the code.

  The locale \<open>relaying\<close> is the contract of a layer that leaves a committed answer as it
  is: each layer written here keeps it, and chi's timeout does as documented, whose late 504
  comes after the handler's 503.
\<close>

section \<open>The reference\<close>

fun valid_call :: "profile_call \<Rightarrow> bool" where
  "valid_call (GetCall ids i) = profileIdInput_valid i"
| "valid_call (CreateCall ids q) = CreateRequest_valid q"
| "valid_call (UpdateCall ids q) = UpdateRequest_valid q"
| "valid_call (DeleteCall ids i) = profileIdInput_valid i"

fun statement_of :: "profile_call \<Rightarrow> statement" where
  "statement_of (GetCall ids i) = SelectProfile i"
| "statement_of (CreateCall ids q) = InsertProfile (create_FirstName q) (create_LastName q)"
| "statement_of (UpdateCall ids q) = UpdateProfile (update_FirstName q) (update_LastName q) (update_Id q)"
| "statement_of (DeleteCall ids i) = DeleteProfile i"

definition stored :: "db \<Rightarrow> gostring \<Rightarrow> bool" where
  "stored s i = (case uuid_parse i of None \<Rightarrow> False | Some u \<Rightarrow> db_table s u \<noteq> None)"

fun success_status :: "pg_env \<Rightarrow> db \<Rightarrow> profile_call \<Rightarrow> int" where
  "success_status pg s (GetCall ids i) = (if stored s i then 200 else 404)"
| "success_status pg s (CreateCall ids q) = (if db_table s (pg_gen_uuid pg (db_tick s)) = None then 201 else 500)"
| "success_status pg s (UpdateCall ids q) = (if stored s (update_Id q) then 200 else 404)"
| "success_status pg s (DeleteCall ids i) = (if stored s i then 204 else 404)"

definition answer_status :: "pg_env \<Rightarrow> db \<Rightarrow> profile_call \<Rightarrow> int" where
  "answer_status pg s c =
     (case pg_fault pg (db_tick s) (statement_of c) of
        Some (FailDeadline _) \<Rightarrow> 503
      | Some (FailCanceled _) \<Rightarrow> 503
      | Some (FailOther _ _) \<Rightarrow> 500
      | None \<Rightarrow> success_status pg s c)"

section \<open>The handlers meet the reference\<close>

text \<open>The status huma writes for what a handler returned.\<close>

definition written_status :: "'s operation \<Rightarrow> status_error + 'o \<Rightarrow> int" where
  "written_status op out =
     (case out of Inl se \<Rightarrow> se_status se
      | Inr _ \<Rightarrow> if op_DefaultStatus op \<noteq> 0 then op_DefaultStatus op else 200)"

definition failure_status :: "driver_failure \<Rightarrow> int" where
  "failure_status f = (case f of FailDeadline _ \<Rightarrow> 503 | FailCanceled _ \<Rightarrow> 503 | FailOther _ _ \<Rightarrow> 500)"

lemma answer_status_alt:
  "answer_status pg s c =
     (case pg_fault pg (db_tick s) (statement_of c) of Some f \<Rightarrow> failure_status f | None \<Rightarrow> success_status pg s c)"
  by (simp add: answer_status_def failure_status_def split: option.split driver_failure.split)

lemma answer_status_final: "200 \<le> answer_status pg s c"
  by (cases c) (simp_all add: answer_status_alt failure_status_def split: option.split driver_failure.split)

lemma classified_failure:
  "se_status (statusError (TypeOf (repo_classify (Wrapped msg (failure_error f))))) = failure_status f"
  by (cases f) (simp_all add: TypeOf_repo_classify failure_status_def)

lemma get_status:
  assumes "db_reachable pg s" and "profileIdInput_valid i" and "op_DefaultStatus op = 0"
  shows "written_status op (fst (get_profile (profile_services ds ping pg) ids i s)) = answer_status pg s (GetCall ids i)"
proof -
  obtain u where u: "uuid_parse i = Some u" using assms(2) pattern_parses by (auto simp: profileIdInput_valid_def)
  have wf: "well_formed s" by (rule db_reachable_well_formed [OF assms(1)])
  show ?thesis
  proof (cases "pg_fault pg (db_tick s) (SelectProfile i)")
    case None
    then show ?thesis
      using GetById_missing [OF None u] GetById_present [OF None u _ wf] assms(3) u
      by (cases "db_table s u")
         (auto simp: get_profile_def svc_GetById_def written_status_def answer_status_alt stored_def split: prod.split sum.split)
  next
    case (Some f)
    then show ?thesis
      using GetById_fault [OF Some] classified_failure
      by (auto simp: get_profile_def svc_GetById_def written_status_def answer_status_alt split: prod.split sum.split)
  qed
qed

lemma create_status:
  assumes "CreateRequest_valid q" and "op_DefaultStatus op = 201"
  shows "written_status op (fst (create_profile (profile_services ds ping pg) ids q s)) = answer_status pg s (CreateCall ids q)"
proof (cases "pg_fault pg (db_tick s) (InsertProfile (create_FirstName q) (create_LastName q))")
  case None
  moreover have "name_constraint (create_FirstName q)" "name_constraint (create_LastName q)"
    using assms(1) by (simp_all add: CreateRequest_valid_def name_valid_constraint)
  ultimately show ?thesis
    using assms(2)
    by (simp add: create_profile_def svc_Create_def Create_def run_statement_ok sql_insert_def builder_defs row_constraint_def
        written_status_def answer_status_alt TypeOf_repo_classify pg_error_def Let_def)
next
  case (Some f)
  then show ?thesis
    by (simp add: create_profile_def svc_Create_def Create_def run_statement_fault builder_defs written_status_def
        answer_status_alt classified_failure Let_def)
qed

lemma update_status:
  assumes "db_reachable pg s" and "UpdateRequest_valid q" and "op_DefaultStatus op = 0"
  shows "written_status op (fst (update_profile (profile_services ds ping pg) ids q s)) = answer_status pg s (UpdateCall ids q)"
proof (cases "pg_fault pg (db_tick s) (UpdateProfile (update_FirstName q) (update_LastName q) (update_Id q))")
  case None
  obtain u where u: "uuid_parse (update_Id q) = Some u" using assms(2) pattern_parses by (auto simp: UpdateRequest_valid_def)
  have "name_constraint (update_FirstName q)" "name_constraint (update_LastName q)"
    using assms(2) by (simp_all add: UpdateRequest_valid_def name_valid_constraint)
  with None u have out: "(case fst (svc_Update (NewProfileRepository pg) ids q s) of
      Inl e \<Rightarrow> TypeOf e = ErrNotFound \<and> db_table s u = None | Inr res \<Rightarrow> db_table s u \<noteq> None)"
    by (intro svc_Update_outcome [OF db_reachable_well_formed [OF assms(1)]])
  show ?thesis
    using out None u assms(3)
    by (auto simp: update_profile_def written_status_def answer_status_alt stored_def split: prod.splits sum.splits)
next
  case (Some f)
  then show ?thesis
    by (simp add: update_profile_def svc_Update_def Update_def run_statement_fault builder_defs written_status_def
        answer_status_alt classified_failure Let_def)
qed

lemma delete_status:
  assumes "profileIdInput_valid i" and "op_DefaultStatus op = 204"
  shows "written_status op (fst (delete_profile (profile_services ds ping pg) ids i s)) = answer_status pg s (DeleteCall ids i)"
proof (cases "pg_fault pg (db_tick s) (DeleteProfile i)")
  case None
  obtain u where u: "uuid_parse i = Some u" using assms(1) pattern_parses by (auto simp: profileIdInput_valid_def)
  show ?thesis
    using svc_DeleteById_outcome [OF None u, of ids] None u assms(2)
    by (auto simp: delete_profile_def written_status_def answer_status_alt stored_def split: prod.splits sum.splits)
next
  case (Some f)
  then show ?thesis
    by (simp add: delete_profile_def svc_DeleteById_def DeleteById_def run_statement_fault written_status_def
        answer_status_alt classified_failure)
qed

section \<open>Layers that relay an answer\<close>

text \<open>
  What a layer did with a request nothing was answered to yet: nothing to the application, or it
  ran the next handler, and if that returned with a status committed, so does the layer.
\<close>

definition relays_to :: "'s middleware \<Rightarrow> 's handler \<Rightarrow> request \<Rightarrow> 's http \<Rightarrow> bool" where
  "relays_to mw next r s \<longleftrightarrow>
     st_app (snd (mw next r s)) = st_app s
     \<or> (\<exists>r' (s' :: 's http). st_app s' = st_app s \<and> wr_code (st_writer s') = 0
          \<and> st_app (snd (mw next r s)) = st_app (snd (next r' s'))
          \<and> (fst (next r' s') = Returned \<longrightarrow> wr_code (st_writer (snd (next r' s'))) \<noteq> 0
              \<longrightarrow> fst (mw next r s) = Returned
                \<and> wr_code (st_writer (snd (mw next r s))) = wr_code (st_writer (snd (next r' s')))))"

text \<open>An outcome that left the application as it was, or committed a status that fits what it left.\<close>

definition settles :: "(int \<Rightarrow> 's \<Rightarrow> bool) \<Rightarrow> 's \<Rightarrow> completion \<times> 's http \<Rightarrow> bool" where
  "settles P a out \<longleftrightarrow>
     st_app (snd out) = a
     \<or> (fst out = Returned \<and> wr_code (st_writer (snd out)) \<noteq> 0 \<and> P (wr_code (st_writer (snd out))) (st_app (snd out)))"

locale relaying =
  fixes mw :: "'s middleware"
  assumes relays: "wr_code (st_writer s) = 0 \<Longrightarrow> relays_to mw next r s"
begin

text \<open>An outcome of the next handler that commits a status is one of the layer's.\<close>

lemma relay_outcome:
  assumes "wr_code (st_writer s) = 0"
    and "\<And>r' (s' :: 's http). st_app s' = st_app s \<Longrightarrow> wr_code (st_writer s') = 0 \<Longrightarrow> settles P (st_app s) (next r' s')"
  shows "settles P (st_app s) (mw next r s)"
  using relays [OF assms(1), of "next" r] assms(2) unfolding relays_to_def settles_def by metis

end

lemma relays_next:
  "st_app s' = st_app s \<Longrightarrow> wr_code (st_writer s') = 0 \<Longrightarrow> st_app (snd (mw next r s)) = st_app (snd (next r' s'))
   \<Longrightarrow> (fst (next r' s') = Returned \<Longrightarrow> wr_code (st_writer (snd (next r' s'))) \<noteq> 0
        \<Longrightarrow> fst (mw next r s) = Returned \<and> wr_code (st_writer (snd (mw next r s))) = wr_code (st_writer (snd (next r' s'))))
   \<Longrightarrow> relays_to mw next r s"
  unfolding relays_to_def by blast

context observer
begin

lemma observer_relays: "relaying mw"
proof
  fix s :: "'s http" and "next" :: "'s handler" and r :: request
  assume "wr_code (st_writer s) = 0"
  then show "relays_to mw next r s"
    using watched [of "next" r s] by (intro relays_next [of s s mw "next" r "adopt r"]) (simp_all add: response_of_def)
qed

end

interpretation rel_access: relaying "accessLogger env cfg" for env cfg
  by (rule access.observer_relays)

interpretation rel_trace: relaying "tracing env" for env
  by (rule trace.observer_relays)

interpretation rel_meter: relaying "metrics_middleware env" for env
  by (rule meter.observer_relays)

interpretation rel_recoverer: relaying "recoverer env" for env
proof
  fix s :: "'s http" and "next" :: "'s handler" and r :: request
  assume "wr_code (st_writer s) = 0"
  then show "relays_to (recoverer env) next r s"
    by (intro relays_next [of s s "recoverer env" "next" r r])
       (auto simp: recoverer_def reportPanic_def split: prod.split completion.split)
qed

interpretation rel_body: relaying "bodyLimit_handler n" for n
proof
  fix s :: "'s http" and "next" :: "'s handler" and r :: request
  let ?r = "r\<lparr>rq_body_limit := Some (case rq_body_limit r of None \<Rightarrow> n | Some m \<Rightarrow> min m n)\<rparr>"
  assume "wr_code (st_writer s) = 0"
  then show "relays_to (bodyLimit_handler n) next r s"
    by (intro relays_next [of s s "bodyLimit_handler n" "next" r ?r]) (simp_all add: bodyLimit_handler_def)
qed

interpretation rel_correlation: relaying "correlation env" for env
proof
  fix s :: "'s http" and "next" :: "'s handler" and r :: request
  assume zero: "wr_code (st_writer s) = 0"
  obtain r' s' where "correlation env next r s = next r' s'" "st_app s' = st_app s" "wr_code (st_writer s') = wr_code (st_writer s)"
    by (simp add: correlation_def Let_def update_writer_def Header_Set_def)
  then show "relays_to (correlation env) next r s" using zero by (auto intro: relays_next)
qed

interpretation rel_guard: relaying "guard_middleware WriteErr g req operation" for WriteErr g req operation
proof
  fix s :: "'s http" and "next" :: "'s handler" and r :: request
  assume zero: "wr_code (st_writer s) = 0"
  show "relays_to (guard_middleware WriteErr g req operation) next r s"
  proof (cases "admitted g req r")
    case None
    then have "st_app (snd (guard_middleware WriteErr g req operation next r s)) = st_app s"
      using guard_refuses [OF None, of WriteErr operation "next" s] by auto
    then show ?thesis by (simp add: relays_to_def)
  next
    case (Some i)
    with zero show ?thesis by (auto simp: guard_admits [OF Some] intro: relays_next)
  qed
qed

text \<open>
  chi's \<open>Timeout\<close> as it documents itself: the request runs under the earlier of its deadlines,
  and if that has passed when the handler is done, by a panic too, 504 is written.
\<close>

definition chi_Timeout :: "duration \<Rightarrow> 's middleware" where
  "chi_Timeout d next r s =
     (let due = (case cx_deadline (rq_ctx r) of None \<Rightarrow> st_now s + d | Some t \<Rightarrow> min t (st_now s + d));
          (c, s1) = next (r\<lparr>rq_ctx := (rq_ctx r)\<lparr>cx_deadline := Some due\<rparr>\<rparr>) s
      in (c, if due \<le> st_now s1 then update_writer (WriteHeader 504) s1 else s1))"

interpretation rel_timeout: relaying "chi_Timeout d" for d
proof
  fix s :: "'s http" and "next" :: "'s handler" and r :: request
  let ?due = "case cx_deadline (rq_ctx r) of None \<Rightarrow> st_now s + d | Some t \<Rightarrow> min t (st_now s + d)"
  assume "wr_code (st_writer s) = 0"
  then show "relays_to (chi_Timeout d) next r s"
    by (intro relays_next [of s s "chi_Timeout d" "next" r "r\<lparr>rq_ctx := (rq_ctx r)\<lparr>cx_deadline := Some ?due\<rparr>\<rparr>"])
       (simp_all add: chi_Timeout_def update_writer_def WriteHeader_def Let_def split_beta)
qed

definition library_relays :: "'s stack_lib \<Rightarrow> bool" where
  "library_relays lib \<longleftrightarrow>
     relaying (sl_CleanPath lib) \<and> (\<forall>d. relaying (sl_Timeout lib d)) \<and> (\<forall>p. relaying (sl_Heartbeat lib p))
     \<and> relaying (sl_NoCache lib) \<and> (\<forall>es. relaying (sl_AllowContentEncoding lib es))
     \<and> (\<forall>opts. relaying (sl_Cors lib opts)) \<and> (\<forall>src. relaying (sl_ClientIP lib src))
     \<and> (\<forall>n w key. relaying (sl_LimitBy lib n w key))"

lemma layer_relays: "library_relays lib \<Longrightarrow> relaying (apply_layer env lib cfg l)"
  by (cases l)
     (simp_all add: library_relays_def rel_access.relaying_axioms rel_trace.relaying_axioms rel_meter.relaying_axioms
       rel_recoverer.relaying_axioms rel_body.relaying_axioms rel_correlation.relaying_axioms)

lemma chain_relays:
  fixes h :: "'s handler"
  assumes "library_relays lib" and "wr_code (st_writer s) = 0"
    and "\<And>r' (s' :: 's http). st_app s' = st_app s \<Longrightarrow> wr_code (st_writer s') = 0 \<Longrightarrow> settles P (st_app s) (h r' s')"
  shows "settles P (st_app s) (chain env lib cfg ls h r s)"
  using assms(2,3)
proof (induction ls arbitrary: r s)
  case Nil
  then show ?case by simp
next
  case (Cons l ls)
  show ?case
    unfolding chain.simps
  proof (rule relaying.relay_outcome [OF layer_relays [OF assms(1)] Cons.prems(1)])
    fix r' and s' :: "'s http"
    assume "st_app s' = st_app s" "wr_code (st_writer s') = 0"
    then show "settles P (st_app s) (chain env lib cfg ls h r' s')"
      using Cons.IH [of s' r'] Cons.prems(2) by simp
  qed
qed

section \<open>Dispatch\<close>

text \<open>
  The outcome of one call of a handler as huma writes it: the handler's error as its status,
  and otherwise the declared default status of the operation, or 200; an informational status
  would not be final.
\<close>

definition answered :: "'s operation \<Rightarrow> (status_error + 'o) \<times> 's \<times> log_record list \<Rightarrow> int \<Rightarrow> 's \<Rightarrow> bool" where
  "answered op out status t \<longleftrightarrow>
     t = fst (snd out) \<and> (200 \<le> written_status op (fst out) \<longrightarrow> status = written_status op (fst out))"

fun handler_answers :: "'s operation \<Rightarrow> 's operation_fn \<Rightarrow> ctx_ids \<Rightarrow> 's \<Rightarrow> int \<Rightarrow> 's \<Rightarrow> bool" where
  "handler_answers op (OnNothing f) ids s status t \<longleftrightarrow> answered op (f ids () s) status t"
| "handler_answers op (OnCreate f) ids s status t \<longleftrightarrow> (\<exists>q. CreateRequest_valid q \<and> answered op (f ids q s) status t)"
| "handler_answers op (OnUpdate f) ids s status t \<longleftrightarrow> (\<exists>q. UpdateRequest_valid q \<and> answered op (f ids q s) status t)"
| "handler_answers op (OnGet f) ids s status t \<longleftrightarrow> (\<exists>i. profileIdInput_valid i \<and> answered op (f ids i s) status t)"
| "handler_answers op (OnDelete f) ids s status t \<longleftrightarrow> (\<exists>i. profileIdInput_valid i \<and> answered op (f ids i s) status t)"

definition answering_dispatch :: "'s dispatch_lib \<Rightarrow> bool" where
  "answering_dispatch dl \<longleftrightarrow>
     (\<forall>ops r x. dl_find dl ops r = Some x \<longrightarrow> x \<in> set ops)
     \<and> (\<forall>r s. st_app (snd (dl_other dl r s)) = st_app s)
     \<and> (\<forall>op fn r s. wr_code (st_writer s) = 0 \<longrightarrow>
          (case dl_adapt dl op fn r s of (c, s') \<Rightarrow>
             st_app s' = st_app s
             \<or> (c = Returned
                \<and> handler_answers op fn (ids_of (rq_ctx r)) (st_app s) (wr_code (st_writer s')) (st_app s'))))"

lemma secured_default_status [simp]: "op_DefaultStatus (secured WriteErr op req g) = op_DefaultStatus op"
  by (simp add: secured_def Let_def split: option.split)

lemma plain_default_status [simp]: "op_DefaultStatus (plain_operation opid m p st mb) = st"
  by (simp add: plain_operation_def)

lemma run_plain: "run_operation (plain_operation opid m p st mb) h = h"
  by (simp add: run_operation_def plain_operation_def)

lemma registered_run:
  assumes "(op, fn) \<in> set (registerOperations WriteErr svc mb g)"
  shows "(\<forall>h. run_operation op h = h) \<or> (\<exists>g' req opid. run_operation op = guard_middleware WriteErr g' req opid)"
proof -
  consider "(op, fn) \<in> set (registerHealth svc)"
    | opid m p st b req where "op = secured WriteErr (plain_operation opid m p st b) req g"
    using assms by (auto simp: registerOperations_def registerProfile_def)
  then show ?thesis
  proof cases
    case 1
    then show ?thesis by (simp add: health_unguarded)
  next
    case (2 opid m p st b req)
    show ?thesis
    proof (cases g)
      case None
      then show ?thesis by (simp add: 2 secured_def run_plain)
    next
      case (Some v)
      have "run_operation op = guard_middleware WriteErr v req opid" unfolding 2 Some by (rule run_secured)
      then show ?thesis by blast
    qed
  qed
qed

text \<open>A call of a registered profile handler, as the reference sees it.\<close>

definition explained_by :: "pg_env \<Rightarrow> db services \<Rightarrow> db \<Rightarrow> int \<Rightarrow> db \<Rightarrow> bool" where
  "explained_by pg svc s status t \<longleftrightarrow>
     (\<exists>call. valid_call call \<and> t = snd (run_call svc call s) \<and> status = answer_status pg s call)"

lemma explained_byI:
  "valid_call call \<Longrightarrow> t = snd (run_call svc call s) \<Longrightarrow> status = answer_status pg s call \<Longrightarrow> explained_by pg svc s status t"
  unfolding explained_by_def by blast

lemma explained_final: "explained_by pg svc s status t \<Longrightarrow> status \<noteq> 0"
  using answer_status_final [of pg s] by (auto simp: explained_by_def) (metis not_numeral_le_zero)

lemma handler_explained:
  assumes "db_reachable pg s" and "(op, fn) \<in> set (registerProfile WriteErr (profile_services ds ping pg) mb g)"
    and "handler_answers op fn ids s status t"
  shows "explained_by pg (profile_services ds ping pg) s status t"
proof -
  let ?svc = "profile_services ds ping pg"
  consider "fn = OnCreate (create_profile ?svc)" "op_DefaultStatus op = 201"
    | "fn = OnUpdate (update_profile ?svc)" "op_DefaultStatus op = 0"
    | "fn = OnGet (get_profile ?svc)" "op_DefaultStatus op = 0"
    | "fn = OnDelete (delete_profile ?svc)" "op_DefaultStatus op = 204"
    using assms(2) unfolding registerProfile_def by auto
  then show ?thesis
  proof cases
    case 1
    then obtain q where q: "CreateRequest_valid q" "answered op (create_profile ?svc ids q s) status t"
      using assms(3) by auto
    then show ?thesis
      using create_status [OF q(1) 1(2), of ds ping pg ids s]
      by (intro explained_byI [of "CreateCall ids q"]) (simp_all add: answered_def answer_with_state answer_status_final)
  next
    case 2
    then obtain q where q: "UpdateRequest_valid q" "answered op (update_profile ?svc ids q s) status t"
      using assms(3) by auto
    then show ?thesis
      using update_status [OF assms(1) q(1) 2(2), of ds ping ids]
      by (intro explained_byI [of "UpdateCall ids q"]) (simp_all add: answered_def answer_with_state answer_status_final)
  next
    case 3
    then obtain i where i: "profileIdInput_valid i" "answered op (get_profile ?svc ids i s) status t"
      using assms(3) by auto
    then show ?thesis
      using get_status [OF assms(1) i(1) 3(2), of ds ping ids]
      by (intro explained_byI [of "GetCall ids i"]) (simp_all add: answered_def answer_with_state answer_status_final)
  next
    case 4
    then obtain i where i: "profileIdInput_valid i" "answered op (delete_profile ?svc ids i s) status t"
      using assms(3) by auto
    then show ?thesis
      using delete_status [OF i(1) 4(2), of ds ping pg ids s]
      by (intro explained_byI [of "DeleteCall ids i"]) (simp_all add: answered_def answer_with_state answer_status_final)
  qed
qed

lemma adapt_explained:
  assumes dl: "answering_dispatch dl" and "db_reachable pg (st_app s)" and "wr_code (st_writer s) = 0"
    and "(op, fn) \<in> set (registerOperations WriteErr (profile_services ds ping pg) mb g)"
  shows "settles (explained_by pg (profile_services ds ping pg) (st_app s)) (st_app s) (dl_adapt dl op fn r s)"
proof -
  obtain c s' where run: "dl_adapt dl op fn r s = (c, s')" by fastforce
  have "case dl_adapt dl op fn r s of (c, s') \<Rightarrow> st_app s' = st_app s
      \<or> (c = Returned
         \<and> handler_answers op fn (ids_of (rq_ctx r)) (st_app s) (wr_code (st_writer s')) (st_app s'))"
    using dl assms(3) by (simp add: answering_dispatch_def)
  then consider "st_app s' = st_app s" | "c = Returned"
      "handler_answers op fn (ids_of (rq_ctx r)) (st_app s) (wr_code (st_writer s')) (st_app s')"
    unfolding run by auto
  then show ?thesis
  proof cases
    case 2
    show ?thesis
    proof (cases "(op, fn) \<in> set (registerHealth (profile_services ds ping pg))")
      case True
      then have "st_app s' = st_app s"
        using 2(2) by (auto simp: registerHealth_def health_live_def readiness_def answered_def split: prod.splits sum.splits)
      then show ?thesis by (simp add: run settles_def)
    next
      case False
      then have "(op, fn) \<in> set (registerProfile WriteErr (profile_services ds ping pg) mb g)"
        using assms(4) by (simp add: registerOperations_def)
      from handler_explained [OF assms(2) this 2(2)]
      have "explained_by pg (profile_services ds ping pg) (st_app s) (wr_code (st_writer s')) (st_app s')" .
      moreover from this have "wr_code (st_writer s') \<noteq> 0" using explained_final by blast
      ultimately show ?thesis using 2(1) by (simp add: run settles_def)
    qed
  qed (simp add: run settles_def)
qed

lemma dispatch_explained:
  fixes s :: "db http"
  assumes dl: "answering_dispatch dl" and "db_reachable pg (st_app s)" and zero: "wr_code (st_writer s) = 0"
    and ops: "ops = registerOperations WriteErr (profile_services ds ping pg) mb g"
  shows "settles (explained_by pg (profile_services ds ping pg) (st_app s)) (st_app s) (dispatch dl ops r s)"
    (is "settles ?P _ _")
proof (cases "dl_find dl ops r")
  case None
  then show ?thesis using dl by (simp add: dispatch_def answering_dispatch_def settles_def)
next
  case (Some x)
  obtain op fn where x: "x = (op, fn)" by (cases x)
  have reg: "(op, fn) \<in> set ops" using dl Some x unfolding answering_dispatch_def by blast
  have here: "dispatch dl ops r s = run_operation op (dl_adapt dl op fn) r s" by (simp add: dispatch_def Some x)
  have inner: "settles ?P (st_app s) (dl_adapt dl op fn r' s')"
    if "st_app s' = st_app s" "wr_code (st_writer s') = 0" for r' and s' :: "db http"
    using adapt_explained [OF dl, of pg s' op fn WriteErr ds ping mb g r'] that assms(2) reg ops by simp
  consider "\<And>h :: db handler. run_operation op h = h" | g' req opid where "run_operation op = guard_middleware WriteErr g' req opid"
    using registered_run reg unfolding ops by blast
  then show ?thesis
  proof cases
    case 1
    then show ?thesis using inner [of s r] zero unfolding here 1 by simp
  next
    case (2 g' req opid)
    show ?thesis unfolding here 2 by (rule rel_guard.relay_outcome [OF zero]) (rule inner)
  qed
qed

section \<open>Properties\<close>

text \<open>
  C7: the status tells what happened.  Take a service that started, with authentication on or
  off, and any request.  Either it left the store as it was, not even a statement having run; or
  it was answered, and there is one valid call of an operation that explains both what it left
  in the store and its status: 503 when the statement met the request's deadline or a
  cancellation, 500 when the driver failed otherwise, 404 when the profile was not there, and
  200, 201 or 204 when the operation was done.  A timeout layer that would write 504 on its
  way out comes too late.
\<close>

theorem status_tells_what_happened:
  assumes started: "startup DefaultConfig WriteErr config_result otel_result db_result discovery verify = Ready cfg flush rt server"
    and "db_result cfg = Inr (initServices (initRepositories ds ping pg))"
    and "library_relays lib" and "answering_dispatch dl"
    and "db_reachable pg (st_app s)" and "wr_code (st_writer s) = 0"
  shows "case serve_request env lib dl cfg rt r s of (c, s') \<Rightarrow>
    st_app s' = st_app s
    \<or> (c = Returned
       \<and> (\<exists>call. valid_call call
            \<and> st_app s' = snd (run_call (initServices (initRepositories ds ping pg)) call (st_app s))
            \<and> wr_code (st_writer s') = answer_status pg (st_app s) call))"
proof -
  obtain g where ops: "rt_operations rt = registerOperations WriteErr (profile_services ds ping pg) (http_MaxBodyBytes (cfg_Http cfg)) g"
    using Ready_service [OF started assms(2)] by blast
  have "settles (explained_by pg (profile_services ds ping pg) (st_app s)) (st_app s) (serve_request env lib dl cfg rt r s)"
    unfolding serve_request_def
  proof (rule chain_relays [OF assms(3,6)])
    fix r' and s' :: "db http"
    assume "st_app s' = st_app s" "wr_code (st_writer s') = 0"
    then show "settles (explained_by pg (profile_services ds ping pg) (st_app s)) (st_app s) (dispatch dl (rt_operations rt) r' s')"
      using dispatch_explained [OF assms(4), of pg s' "rt_operations rt"] assms(5) ops by simp
  qed
  then show ?thesis unfolding explained_by_def settles_def by (auto split: prod.split)
qed

text \<open>A service whose database has become slow, and a creation that meets its deadline.\<close>

definition writing_adapt :: "'s operation \<Rightarrow> 's operation_fn \<Rightarrow> 's handler" where
  "writing_adapt op fn r s =
     (case fn of
        OnCreate f \<Rightarrow>
          (let out = f (ids_of (rq_ctx r)) \<lparr>create_FirstName = ''Ada'', create_LastName = ''Byron''\<rparr> (st_app s)
           in (Returned, (update_writer (WriteHeader (written_status op (fst out))) s)\<lparr>st_app := fst (snd out)\<rparr>))
      | _ \<Rightarrow> (Returned, s))"

definition writing_dispatch :: "'s dispatch_lib" where
  "writing_dispatch = sample_dispatch\<lparr>dl_adapt := writing_adapt\<rparr>"

lemma sample_dispatch_finds: "dl_find sample_dispatch ops r = Some x \<Longrightarrow> x \<in> set ops"
  using sample_dispatch_lawful unfolding lawful_dispatch_def by blast

lemma writing_dispatch_answers: "answering_dispatch (writing_dispatch :: 's dispatch_lib)"
proof -
  have adapt: "case writing_adapt op fn r s of (c, s') \<Rightarrow> st_app s' = st_app s
      \<or> (c = Returned \<and> handler_answers op fn (ids_of (rq_ctx r)) (st_app s) (wr_code (st_writer s')) (st_app s'))"
    if "wr_code (st_writer s) = 0" for op fn r and s :: "'s http"
    using that fixed_names_valid
    by (cases fn) (auto simp: writing_adapt_def answered_def update_writer_def WriteHeader_def Let_def)
  have "dl_find writing_dispatch ops r = Some x \<Longrightarrow> x \<in> set ops"
    for ops :: "('s operation \<times> 's operation_fn) list" and r x
    using sample_dispatch_finds [of ops r x] by (simp add: writing_dispatch_def)
  with adapt show ?thesis
    by (simp add: answering_dispatch_def writing_dispatch_def sample_dispatch_def)
qed

definition timing_lib :: "'s stack_lib" where
  "timing_lib = sample_lib\<lparr>sl_Timeout := chi_Timeout\<rparr>"

lemma passing_relays: "(\<And>next r s. \<exists>r'. mw next r s = next r' s) \<Longrightarrow> relaying mw"
  by unfold_locales (metis relays_next)

lemma timing_lib_relays: "library_relays timing_lib"
  by (auto simp: library_relays_def timing_lib_def sample_lib_def rel_timeout.relaying_axioms intro!: passing_relays)

definition slow_pg :: pg_env where
  "slow_pg = sample_pg\<lparr>pg_fault := (\<lambda>_ _. Some (FailDeadline ''insert''))\<rparr>"

lemma timing_lib_hands_on: "hands_on (chain env timing_lib cfg ls)"
proof (rule chain_hands_on)
  have "hands_on (chi_Timeout d)" for d
    by (rule hands_onI [of "\<lambda>r s. r\<lparr>rq_ctx := (rq_ctx r)\<lparr>cx_deadline := Some
          (case cx_deadline (rq_ctx r) of None \<Rightarrow> st_now s + d | Some t \<Rightarrow> min t (st_now s + d))\<rparr>\<rparr>" "\<lambda>r s. s"])
       (simp add: chi_Timeout_def same_credential_def Let_def split_beta)
  then show "hands_on (apply_layer env timing_lib cfg l)" for l
    using sample_lib_hands_on by (cases l) (simp_all add: timing_lib_def own_layers_hands_on)
qed

lemma slow_create_served:
  assumes "sample_startup slow_pg = Ready sample_system_cfg NoopShutdown rt server"
  shows "st_app (snd (serve_request sample_env timing_lib writing_dispatch sample_system_cfg rt sample_post (fresh_http empty_db)))
    \<noteq> empty_db"
proof -
  obtain op r' and s' :: "db http" where "st_app s' = empty_db"
    "st_app (snd (serve_request sample_env timing_lib writing_dispatch sample_system_cfg rt sample_post (fresh_http empty_db)))
      = st_app (snd (dl_adapt writing_dispatch op
          (OnCreate (create_profile (profile_services (\<lambda>_. []) (\<lambda>_. (None, undefined)) slow_pg))) r' s'))"
    by (rule sample_create_served [OF assms timing_lib_hands_on, of writing_dispatch]) (simp_all add: writing_dispatch_def)
  then show ?thesis
    by (simp add: writing_dispatch_def writing_adapt_def create_profile_def svc_Create_def Create_def run_statement_def
        slow_pg_def builder_defs empty_db_def Let_def)
qed

theorem status_tells_what_happened_witness:
  "\<exists>rt s'. sample_startup slow_pg = Ready sample_system_cfg NoopShutdown rt (NewServer (cfg_Http sample_system_cfg))
     \<and> serve_request sample_env timing_lib writing_dispatch sample_system_cfg rt sample_post (fresh_http empty_db) = (Returned, s')
     \<and> wr_code (st_writer s') = 503"
proof -
  obtain rt where rt: "sample_startup slow_pg = Ready sample_system_cfg NoopShutdown rt (NewServer (cfg_Http sample_system_cfg))"
    using sample_started by blast
  have "answer_status slow_pg s call = 503" for s call
    by (simp add: answer_status_def slow_pg_def)
  moreover have "wr_code (st_writer (fresh_http empty_db)) = 0" by (simp add: fresh_http_def)
  ultimately show ?thesis
    using status_tells_what_happened [OF rt [unfolded sample_startup_def] refl timing_lib_relays writing_dispatch_answers,
        of "fresh_http empty_db" sample_env sample_post] rt slow_create_served [OF rt]
    by (auto simp: fresh_http_app reach_empty split: prod.splits)
qed

end
