(* ===== verification/Sessions.thy ===== *)
theory Sessions
  imports Answers Secrecy
begin

text \<open>
  Concurrent requests through the whole service.  A request is a computation of its own around
  at most one call of a handler function, which sends at most one statement: the layers, the guard
  and huma prepare it, and finish what it answered, without looking at the application.  A
  \<open>plan\<close> is such a computation, cut at the call.  The locale \<open>bracketing\<close> is the contract of a layer that turns the plans of
  what it wraps into plans of its own; every layer written in this repository is one, since a
  wrapping layer is, and so is chi's timeout as documented.

  The requests of a session then interleave at their calls, and the answers that leave the
  outermost layer, headers and body included, are those of some sequential run.
\<close>

section \<open>Plans\<close>

text \<open>A handler function with an input that passed validation, and what it answered and logged.\<close>

datatype fn_input =
    NoInput
  | CreateInput CreateRequest
  | UpdateInput UpdateRequest
  | GetInput gostring
  | DeleteInput gostring

datatype fn_output = HealthOutput HealthResponse | ProfileOutput Response | NoOutput

type_synonym fn_result = "(status_error + fn_output) \<times> log_record list"

fun fn_accepts :: "'s operation_fn \<Rightarrow> fn_input \<Rightarrow> bool" where
  "fn_accepts (OnNothing f) NoInput = True"
| "fn_accepts (OnCreate f) (CreateInput q) = CreateRequest_valid q"
| "fn_accepts (OnUpdate f) (UpdateInput q) = UpdateRequest_valid q"
| "fn_accepts (OnGet f) (GetInput i) = profileIdInput_valid i"
| "fn_accepts (OnDelete f) (DeleteInput i) = profileIdInput_valid i"
| "fn_accepts fn x = False"

definition result_with :: "('o \<Rightarrow> fn_output) \<Rightarrow> (status_error + 'o) \<times> 's \<times> log_record list \<Rightarrow> fn_result \<times> 's" where
  "result_with f out = (case out of (res, s, logs) \<Rightarrow> ((map_sum id f res, logs), s))"

text \<open>An input of another operation is never passed; it would change nothing.\<close>

fun call_fn :: "'s operation_fn \<Rightarrow> ctx_ids \<Rightarrow> fn_input \<Rightarrow> 's \<Rightarrow> fn_result \<times> 's" where
  "call_fn (OnNothing f) ids NoInput s = result_with HealthOutput (f ids () s)"
| "call_fn (OnCreate f) ids (CreateInput q) s = result_with ProfileOutput (f ids q s)"
| "call_fn (OnUpdate f) ids (UpdateInput q) s = result_with ProfileOutput (f ids q s)"
| "call_fn (OnGet f) ids (GetInput i) s = result_with ProfileOutput (f ids i s)"
| "call_fn (OnDelete f) ids (DeleteInput i) s = result_with (\<lambda>_. NoOutput) (f ids i s)"
| "call_fn fn ids x s = ((Inr NoOutput, []), s)"

datatype 's plan =
    Ends completion "'s http"
  | Calls "'s operation" "'s operation_fn" ctx_ids fn_input "fn_result \<Rightarrow> completion \<times> 's http"

text \<open>Following a plan over an application; the one in the state it ends with is beside the point.\<close>

fun follow_plan :: "'s plan \<Rightarrow> 's \<Rightarrow> completion \<times> 's http" where
  "follow_plan (Ends c s1) a = (c, s1\<lparr>st_app := a\<rparr>)"
| "follow_plan (Calls op fn ids x finish) a =
     (case call_fn fn ids x a of (res, b) \<Rightarrow> (case finish res of (c, s1) \<Rightarrow> (c, s1\<lparr>st_app := b\<rparr>)))"

fun plan_allowed :: "('s operation \<Rightarrow> 's operation_fn \<Rightarrow> fn_input \<Rightarrow> bool) \<Rightarrow> 's plan \<Rightarrow> bool" where
  "plan_allowed may_call (Ends c s1) = True"
| "plan_allowed may_call (Calls op fn ids x finish) = may_call op fn x"

definition plans :: "'s handler \<Rightarrow> request \<Rightarrow> 's http \<Rightarrow> 's plan \<Rightarrow> bool" where
  "plans h r s p \<longleftrightarrow> (\<forall>a. h r (s\<lparr>st_app := a\<rparr>) = follow_plan p a)"

text \<open>Every request has a plan, whose call a rule on the request allows.\<close>

type_synonym 's call_rule = "request \<Rightarrow> 's operation \<Rightarrow> 's operation_fn \<Rightarrow> fn_input \<Rightarrow> bool"

definition planned :: "'s call_rule \<Rightarrow> 's handler \<Rightarrow> bool" where
  "planned C h \<longleftrightarrow> (\<forall>r s. \<exists>p. plans h r s p \<and> plan_allowed (C r) p)"

definition credential_rule :: "'s call_rule \<Rightarrow> bool" where
  "credential_rule C \<longleftrightarrow> (\<forall>r r' op fn x. same_credential r r' \<longrightarrow> C r' op fn x \<longrightarrow> C r op fn x)"

lemma plan_allowed_mono: "plan_allowed P p \<Longrightarrow> (\<And>op fn x. P op fn x \<Longrightarrow> Q op fn x) \<Longrightarrow> plan_allowed Q p"
  by (cases p) simp_all

lemma plannedI: "(\<And>r s. \<exists>p. plans h r s p \<and> plan_allowed (C r) p) \<Longrightarrow> planned C h"
  by (simp add: planned_def)

lemma plannedE:
  assumes "planned C h"
  obtains p where "plans h r s p" "plan_allowed (C r) p"
  using assms unfolding planned_def by blast

locale bracketing =
  fixes mw :: "'s middleware"
  assumes brackets: "credential_rule C \<Longrightarrow> planned C next \<Longrightarrow> planned C (mw next)"

section \<open>Layers bracket the call\<close>

text \<open>A plan, with what a wrapping layer does after it.\<close>

fun then_finish :: "(completion \<Rightarrow> 's http \<Rightarrow> completion \<times> 's http) \<Rightarrow> 's plan \<Rightarrow> 's plan" where
  "then_finish post (Ends c s1) = (case post c s1 of (c', s') \<Rightarrow> Ends c' s')"
| "then_finish post (Calls op fn ids x finish) = Calls op fn ids x (\<lambda>res. case finish res of (c, s1) \<Rightarrow> post c s1)"

lemma then_finish_allowed [simp]: "plan_allowed P (then_finish post p) = plan_allowed P p"
  by (cases p) (simp_all split: prod.split)

lemma wraps_plans:
  assumes "wraps mw f g post" and "plans next (f r s) (g r s) p"
  shows "plans (mw next) r s (then_finish (post r s) p)"
proof -
  note w = assms(1) [unfolded wraps_def]
  have run: "mw next r (s\<lparr>st_app := a\<rparr>) = (case follow_plan p a of (c, s1) \<Rightarrow> post r (s\<lparr>st_app := a\<rparr>) c s1)" for a
    using w assms(2) by (simp add: plans_def)
  have post: "post r (s\<lparr>st_app := a\<rparr>) c (s1\<lparr>st_app := b\<rparr>) = (fst (post r s c s1), (snd (post r s c s1))\<lparr>st_app := b\<rparr>)" for a b c s1
    using w by simp
  show ?thesis
    unfolding plans_def run by (cases p) (simp_all add: post split: prod.split)
qed

lemma wraps_brackets:
  assumes law: "wraps (mw :: 's middleware) f g post"
  shows "bracketing mw"
proof
  fix C :: "'s call_rule" and "next" :: "'s handler"
  assume C: "credential_rule C" and inner: "planned C next"
  show "planned C (mw next)"
  proof (rule plannedI)
    fix r and s :: "'s http"
    obtain p where p: "plans next (f r s) (g r s) p" "plan_allowed (C (f r s)) p"
      by (rule plannedE [OF inner])
    have "same_credential r (f r s)" using law by (simp add: wraps_def)
    with C p(2) have "plan_allowed (C r) p"
      unfolding credential_rule_def by (blast intro: plan_allowed_mono)
    with wraps_plans [OF law p(1)] show "\<exists>p. plans (mw next) r s p \<and> plan_allowed (C r) p"
      by (intro exI [of _ "then_finish (post r s) p"]) simp
  qed
qed

sublocale wrapping \<subseteq> bracketing mw
  by (rule wraps_brackets [OF law])

interpretation wrap_timeout: wrapping "chi_Timeout d"
    "\<lambda>r s. r\<lparr>rq_ctx := (rq_ctx r)\<lparr>cx_deadline := Some (case cx_deadline (rq_ctx r) of None \<Rightarrow> st_now s + d
       | Some t \<Rightarrow> min t (st_now s + d))\<rparr>\<rparr>"
    "\<lambda>r s. s" "\<lambda>r s c s1. chi_Timeout d (\<lambda>_ _. (c, s1)) r s" for d
  by unfold_locales (simp add: wraps_def chi_Timeout_def same_credential_def Let_def split: prod.split option.split)

text \<open>
  The guard either refuses, without a call, or hands on a request it admitted.  What it wraps
  is huma's adaptation of one operation.
\<close>

lemma guard_plans:
  assumes "planned (\<lambda>_. D) next"
  shows "\<exists>p. plans (guard_middleware WriteErr g req operation next) r s p
    \<and> plan_allowed (\<lambda>op fn x. D op fn x \<and> (\<exists>i. admitted g req r = Some i)) p"
proof (cases "admitted g req r")
  case None
  have "plans (guard_middleware WriteErr g req operation next) r s
      (Ends (fst (guard_middleware WriteErr g req operation next r s)) (snd (guard_middleware WriteErr g req operation next r s)))"
    using guard_refusal_blind [OF None] unfolding plans_def by (metis follow_plan.simps(1))
  then show ?thesis by (intro exI conjI) (assumption, simp)
next
  case (Some i)
  obtain p where "plans next (r\<lparr>rq_ctx := NewContext (rq_ctx r) i\<rparr>) s p" "plan_allowed D p"
    by (rule plannedE [OF assms])
  then show ?thesis
    unfolding plans_def guard_admits [OF Some] using Some
    by (intro exI [of _ p]) (auto intro: plan_allowed_mono)
qed

section \<open>The stack and the operations\<close>

text \<open>The law for the layers of chi, cors and httprate, and the one for huma and chi's routing.\<close>

definition library_brackets :: "'s stack_lib \<Rightarrow> bool" where
  "library_brackets lib \<longleftrightarrow>
     bracketing (sl_CleanPath lib) \<and> (\<forall>d. bracketing (sl_Timeout lib d)) \<and> (\<forall>p. bracketing (sl_Heartbeat lib p))
     \<and> bracketing (sl_NoCache lib) \<and> (\<forall>es. bracketing (sl_AllowContentEncoding lib es))
     \<and> (\<forall>opts. bracketing (sl_Cors lib opts)) \<and> (\<forall>src. bracketing (sl_ClientIP lib src))
     \<and> (\<forall>n w key. bracketing (sl_LimitBy lib n w key))"

definition planning_dispatch :: "'s dispatch_lib \<Rightarrow> bool" where
  "planning_dispatch dl \<longleftrightarrow>
     (\<forall>ops r x. dl_find dl ops r = Some x \<longrightarrow> x \<in> set ops)
     \<and> planned (\<lambda>_ _ _ _. False) (dl_other dl)
     \<and> (\<forall>op fn. planned (\<lambda>_ op' fn' x. op' = op \<and> fn' = fn \<and> fn_accepts fn x) (dl_adapt dl op fn))"

lemma chain_planned:
  assumes "library_brackets lib" and "credential_rule C" and "planned C h"
  shows "planned C (chain env lib cfg ls h)"
proof (induction ls)
  case (Cons l ls)
  have "bracketing (apply_layer env lib cfg l)"
    using assms(1)
    by (cases l) (simp_all add: library_brackets_def wrap_access.bracketing_axioms wrap_trace.bracketing_axioms
        wrap_meter.bracketing_axioms wrap_recoverer.bracketing_axioms wrap_correlation.bracketing_axioms
        wrap_body.bracketing_axioms)
  from bracketing.brackets [OF this assms(2) Cons.IH] show ?case by (simp add: planned_def)
qed (use assms(3) in \<open>simp add: planned_def\<close>)

text \<open>
  A call the service sanctions: of a registered operation, with a valid input, and with
  authentication on by somebody who may make it, unless it is a health check.
\<close>

definition sanctioned ::
  "('s operation \<times> 's operation_fn) list \<Rightarrow> guard option \<Rightarrow> request \<Rightarrow> 's operation \<Rightarrow> 's operation_fn \<Rightarrow> fn_input \<Rightarrow> bool" where
  "sanctioned ops g r op fn x \<longleftrightarrow>
     (op, fn) \<in> set ops \<and> fn_accepts fn x
     \<and> (\<forall>v. g = Some v \<longrightarrow> (\<forall>f. fn \<noteq> OnNothing f) \<longrightarrow> (\<exists>i. credited (g_verifier v) r i \<and> may (op_OperationID op) i))"

lemma sanctioned_credential_rule: "credential_rule (sanctioned ops g)"
  unfolding credential_rule_def sanctioned_def by (metis credited_same)

lemma registered_runs:
  assumes "(op, fn) \<in> set (registerOperations WriteErr svc mb g)"
  shows "(\<forall>h. run_operation op h = h) \<and> (g = None \<or> (\<exists>f. fn = OnNothing f))
    \<or> (\<exists>v req. g = Some v \<and> (\<forall>i. Satisfied req i = may (op_OperationID op) i)
         \<and> run_operation op = guard_middleware WriteErr v req (op_OperationID op))"
proof (cases "(op, fn) \<in> set (registerHealth svc)")
  case True
  then show ?thesis using health_unguarded [OF True] by (auto simp: registerHealth_def)
next
  case False
  then have reg: "(op, fn) \<in> set (registerProfile WriteErr svc mb g)" using assms by (simp add: registerOperations_def)
  show ?thesis
  proof (cases g)
    case None
    with reg have "run_operation op h = h" for h
      by (auto simp: registerProfile_def secured_def run_operation_def plain_operation_def)
    with None show ?thesis by simp
  next
    case (Some v)
    then show ?thesis using registered_guard [of WriteErr v svc mb] reg unfolding list_all_iff by auto
  qed
qed

lemma admitted_credited: "admitted g req r = Some i \<Longrightarrow> credited (g_verifier g) r i \<and> Satisfied req i"
  by (auto simp: admitted_def credited_def authorizationHeader_def split: option.splits sum.splits if_splits)

lemma dispatch_planned:
  assumes dl: "planning_dispatch dl" and ops: "ops = registerOperations WriteErr svc mb g"
  shows "planned (sanctioned ops g) (dispatch dl ops)"
proof (rule plannedI)
  fix r and s :: "'a http"
  show "\<exists>p. plans (dispatch dl ops) r s p \<and> plan_allowed (sanctioned ops g r) p"
  proof (cases "dl_find dl ops r")
    case None
    have "planned (\<lambda>_ _ _ _. False) (dl_other dl)" using dl by (simp add: planning_dispatch_def)
    then obtain p where "plans (dl_other dl) r s p" "plan_allowed (\<lambda>_ _ _. False) p" by (rule plannedE)
    then show ?thesis
      by (intro exI [of _ p]) (auto simp: plans_def dispatch_def None intro: plan_allowed_mono)
  next
    case (Some x)
    obtain op fn where x: "x = (op, fn)" by (cases x)
    let ?D = "\<lambda>op' fn' x. op' = op \<and> fn' = fn \<and> fn_accepts fn x"
    have reg: "(op, fn) \<in> set ops" using dl Some x unfolding planning_dispatch_def by blast
    have adapted: "planned (\<lambda>_. ?D) (dl_adapt dl op fn)" using dl unfolding planning_dispatch_def by blast
    have here: "plans (dispatch dl ops) r s = plans (run_operation op (dl_adapt dl op fn)) r s"
      by (simp add: plans_def dispatch_def Some x fun_eq_iff)
    consider "\<And>h. run_operation op h = h" "g = None \<or> (\<exists>f. fn = OnNothing f)"
      | v req where "g = Some v" "\<forall>i. Satisfied req i = may (op_OperationID op) i"
          "run_operation op = guard_middleware WriteErr v req (op_OperationID op)"
      using registered_runs [OF reg [unfolded ops]] by blast
    then show ?thesis
    proof cases
      case 1
      obtain p where p: "plans (dl_adapt dl op fn) r s p" "plan_allowed ?D p" by (rule plannedE [OF adapted])
      have "plan_allowed (sanctioned ops g r) p"
        by (rule plan_allowed_mono [OF p(2)]) (use 1(2) reg in \<open>auto simp: sanctioned_def\<close>)
      with p(1) show ?thesis unfolding here 1(1) by blast
    next
      case (2 v req)
      obtain p where p: "plans (run_operation op (dl_adapt dl op fn)) r s p"
        "plan_allowed (\<lambda>op' fn' x. ?D op' fn' x \<and> (\<exists>i. admitted v req r = Some i)) p"
        unfolding 2(3) using guard_plans [OF adapted] by blast
      have "plan_allowed (sanctioned ops g r) p"
        by (rule plan_allowed_mono [OF p(2)]) (use reg 2(1,2) admitted_credited [of v req r] in \<open>auto simp: sanctioned_def\<close>)
      with p(1) show ?thesis unfolding here by blast
    qed
  qed
qed

lemma serve_request_planned:
  assumes "library_brackets lib" and "planning_dispatch dl" and "rt_operations rt = registerOperations WriteErr svc mb g"
  shows "planned (sanctioned (rt_operations rt) g) (serve_request env lib dl cfg rt)"
  using chain_planned [OF assms(1) sanctioned_credential_rule dispatch_planned [OF assms(2,3)]]
  unfolding serve_request_def planned_def by blast

section \<open>Requests in flight\<close>

text \<open>
  A request that has arrived: the state it runs in, with a clock, a writer and records of its
  own, and its plan.  What it leaves is an outcome for the caller and the table.
\<close>

record in_flight =
  fl_request :: request
  fl_state :: "db http"
  fl_plan :: "db plan"

definition outcome :: "in_flight \<Rightarrow> completion \<times> db http \<Rightarrow> (completion \<times> db http) \<times> db" where
  "outcome fl out = ((fst out, (snd out)\<lparr>st_app := st_app (fl_state fl)\<rparr>), st_app (snd out))"

definition run_in_flight :: "in_flight \<Rightarrow> db \<Rightarrow> (completion \<times> db http) \<times> db" where
  "run_in_flight fl d = outcome fl (follow_plan (fl_plan fl) d)"

definition served_alone :: "db handler \<Rightarrow> in_flight \<Rightarrow> db \<Rightarrow> (completion \<times> db http) \<times> db" where
  "served_alone serve fl d = outcome fl (serve (fl_request fl) ((fl_state fl)\<lparr>st_app := d\<rparr>))"

text \<open>
  The handler function of an operation when the pool has no connection to give before the
  deadline: the one registered over repositories whose statements and ping fail.
\<close>

definition late_fn :: "db services \<Rightarrow> db operation \<Rightarrow> db operation_fn \<Rightarrow> db operation_fn" where
  "late_fn late op fn =
     (case fn of
        OnNothing f \<Rightarrow> if op_OperationID op = ''health-live'' then fn else OnNothing (readiness late)
      | OnCreate f \<Rightarrow> OnCreate (create_profile late)
      | OnUpdate f \<Rightarrow> OnUpdate (update_profile late)
      | OnGet f \<Rightarrow> OnGet (get_profile late)
      | OnDelete f \<Rightarrow> OnDelete (delete_profile late))"

definition without_statement :: "db services \<Rightarrow> in_flight \<Rightarrow> completion \<times> db http" where
  "without_statement late fl =
     fst (outcome fl
       (case fl_plan fl of
          Ends c s1 \<Rightarrow> (c, s1)
        | Calls op fn ids x finish \<Rightarrow> finish (fst (call_fn (late_fn late op fn) ids x empty_db))))"

definition flight_of :: "db handler \<Rightarrow> (db operation \<times> db operation_fn) list \<Rightarrow> in_flight \<Rightarrow> bool" where
  "flight_of serve ops fl \<longleftrightarrow>
     plans serve (fl_request fl) (fl_state fl) (fl_plan fl)
     \<and> plan_allowed (\<lambda>op fn x. (op, fn) \<in> set ops \<and> fn_accepts fn x) (fl_plan fl)"

lemma flight_served: "flight_of serve ops fl \<Longrightarrow> run_in_flight fl = served_alone serve fl"
  by (simp add: flight_of_def plans_def run_in_flight_def served_alone_def fun_eq_iff)

lemma sequential_cong: "(\<And>c. c \<in> set cs \<Longrightarrow> run c = run' c) \<Longrightarrow> sequential run cs d = sequential run' cs d"
  by (induction cs arbitrary: d) (auto split: prod.split)

text \<open>A call changes the table as the repository does.\<close>

lemma result_with_state: "snd (result_with f out) = fst (snd out)"
  by (simp add: result_with_def split: prod.split)

lemma call_fn_leaves: "fn_accepts fn x \<Longrightarrow> handler_leaves fn ids s (snd (call_fn fn ids x s))"
  by (cases fn; cases x) (auto simp: result_with_state)

lemma registered_call_step:
  assumes "(op, fn) \<in> set (registerOperations WriteErr (profile_services ds ping pg) mb g)" and "fn_accepts fn x"
    and "db_reachable pg s"
  shows "db_reachable pg (snd (call_fn fn ids x s))"
proof -
  note leaves = call_fn_leaves [OF assms(2), of ids s]
  consider "(op, fn) \<in> set (registerHealth (profile_services ds ping pg))"
    | "(op, fn) \<in> set (registerProfile WriteErr (profile_services ds ping pg) mb g)"
    using assms(1) by (auto simp: registerOperations_def)
  then show ?thesis
  proof cases
    case 1
    from health_handler_leaves [OF 1 leaves] assms(3) show ?thesis by simp
  next
    case 2
    from profile_handler_step [OF 2 leaves] show ?thesis by (rule reach_step [OF assms(3)])
  qed
qed

interpretation flights: served_atomically run_in_flight
    "flight_of serve (registerOperations WriteErr (profile_services ds ping pg) mb g)" "db_reachable pg"
    for serve WriteErr ds ping pg mb g
proof
  fix fl d
  assume fl: "flight_of serve (registerOperations WriteErr (profile_services ds ping pg) mb g) fl" and d: "db_reachable pg d"
  show "db_reachable pg (snd (run_in_flight fl d))"
  proof (cases "fl_plan fl")
    case (Ends c s1)
    with d show ?thesis by (simp add: run_in_flight_def outcome_def)
  next
    case (Calls op fn ids x finish)
    then have "db_reachable pg (snd (call_fn fn ids x d))"
      using fl d by (auto simp: flight_of_def intro: registered_call_step)
    with Calls show ?thesis by (simp add: run_in_flight_def outcome_def split_beta)
  qed
qed

text \<open>Without a connection every call but the liveness check is refused, whatever is stored.\<close>

abbreviation unavailable :: status_error where
  "unavailable \<equiv> \<lparr>se_status = 503, se_detail = ''service unavailable''\<rparr>"

lemma late_profile_refuses:
  fixes no_ping ds pg
  defines "late \<equiv> profile_services ds no_ping (out_of_time pg)"
  assumes "fn_accepts fn x" and "\<And>f. fn \<noteq> OnNothing f"
  shows "\<exists>logs. fst (call_fn (late_fn late op fn) ids x s) = (Inl unavailable, logs)"
  using assms(2,3) unfolding late_def
  by (cases fn; cases x)
     (simp_all add: late_fn_def result_with_def get_profile_def create_profile_def update_profile_def
        delete_profile_def svc_GetById_def svc_Create_def svc_Update_def svc_DeleteById_def GetById_def Create_def
        Update_def DeleteById_def run_statement_def out_of_time_def TypeOf_repo_classify Let_def)

definition ping_fails :: "(db \<Rightarrow> gerror option \<times> pool_stat) \<Rightarrow> bool" where
  "ping_fails ping \<longleftrightarrow> (\<forall>s. fst (ping s) \<noteq> None)"

lemma late_readiness_refuses:
  fixes no_ping ds pg
  defines "late \<equiv> profile_services ds no_ping pg"
  assumes "ping_fails no_ping"
  shows "\<exists>logs. fst (result_with HealthOutput (readiness late ids () s)) = (Inl unavailable, logs)"
proof -
  obtain err st where "no_ping s = (Some err, st)"
    using assms(2) unfolding ping_fails_def by (metis not_None_eq prod.collapse)
  then show ?thesis
    using readiness_is_ping [where ctx = ids and dur_string = ds and ping = "Some err" and stats = st] unfolding late_def
    by (auto simp: result_with_def readiness_def initServices_def initRepositories_def split: prod.splits sum.splits)
qed

lemma late_refuses:
  fixes no_ping ds pg
  defines "late \<equiv> profile_services ds no_ping (out_of_time pg)"
  assumes "(op, fn) \<in> set (registerOperations WriteErr svc mb g)" and "fn_accepts fn x" and "ping_fails no_ping"
  shows "fn = OnNothing health_live \<and> late_fn late op fn = fn
    \<or> (\<exists>logs. fst (call_fn (late_fn late op fn) ids x empty_db) = (Inl unavailable, logs))"
proof (cases "\<exists>f. fn = OnNothing f")
  case True
  then obtain f where f: "fn = OnNothing f" ..
  then have "x = NoInput" using assms(3) by (cases x) auto
  have "f = health_live \<and> op_OperationID op = ''health-live'' \<or> op_OperationID op \<noteq> ''health-live''"
    using assms(2) f by (auto simp: registerOperations_def registerHealth_def registerProfile_def)
  then show ?thesis
    using late_readiness_refuses [OF assms(4)] f \<open>x = NoInput\<close>
    unfolding late_def by (auto simp: late_fn_def)
next
  case False
  then show ?thesis using late_profile_refuses [OF assms(3)] unfolding late_def by blast
qed

lemma live_is_constant: "call_fn (OnNothing health_live) ids x s = (fst (call_fn (OnNothing health_live) ids x empty_db), s)"
  by (cases x) (simp_all add: result_with_def health_live_def Live_def)

text \<open>
  So a request answered without a statement either needed none, and is answered as always, or
  what it finishes is the refusal.
\<close>

lemma unserved_answer:
  fixes no_ping ds pg
  defines "late \<equiv> profile_services ds no_ping (out_of_time pg)"
  assumes fl: "flight_of serve (registerOperations WriteErr svc mb g) fl" and "ping_fails no_ping"
  shows "(\<forall>d. served_alone serve fl d = (without_statement late fl, d))
    \<or> (\<exists>op fn ids x finish logs. fl_plan fl = Calls op fn ids x finish
         \<and> without_statement late fl = fst (outcome fl (finish (Inl unavailable, logs))))"
proof (cases "fl_plan fl")
  case (Ends c s1)
  then have "served_alone serve fl d = (without_statement late fl, d)" for d
    unfolding flight_served [OF fl, symmetric] by (simp add: run_in_flight_def outcome_def without_statement_def)
  then show ?thesis by simp
next
  case (Calls op fn ids x finish)
  then have reg: "(op, fn) \<in> set (registerOperations WriteErr svc mb g)" "fn_accepts fn x"
    using fl by (simp_all add: flight_of_def)
  from late_refuses [OF reg assms(3)] show ?thesis
  proof
    assume live: "fn = OnNothing health_live
      \<and> late_fn (profile_services ds no_ping (out_of_time pg)) op fn = fn"
    then have same: "late_fn late op fn = fn" unfolding late_def by (rule conjunct2)
    have "served_alone serve fl d = (without_statement late fl, d)" for d
      unfolding flight_served [OF fl, symmetric] using live_is_constant [of ids x d] live same Calls
      by (simp add: run_in_flight_def outcome_def without_statement_def split: prod.split)
    then show ?thesis by simp
  next
    assume "\<exists>logs. fst (call_fn (late_fn (profile_services ds no_ping (out_of_time pg)) op fn) ids x empty_db)
      = (Inl unavailable, logs)"
    then show ?thesis using Calls by (auto simp: without_statement_def late_def)
  qed
qed

section \<open>Properties\<close>

text \<open>
  C3: a request is one authorised call at most.  In a service that started, whatever a client
  sends and whatever state the process is in, serving it is a computation that calls at most one
  handler function, a registered one, once, with an input that meets its declared constraints,
  and depends on the stored profiles through what that call answered only.  With authentication
  on, a call other than a health check is made for a bearer token that the discovered provider's
  key set verified and whose claims list what the operation asks for.
\<close>

theorem one_authorised_call:
  assumes started: "startup DefaultConfig WriteErr config_result otel_result db_result discovery
      (\<lambda>v. Verify (v_cfg v) (tokens v) header_typ) = Ready cfg flush rt server"
    and "db_result cfg = Inr svc" and "library_brackets lib" and "planning_dispatch dl"
  shows "\<exists>p. plans (serve_request env lib dl cfg rt) r s p
    \<and> plan_allowed (\<lambda>op fn x. (op, fn) \<in> set (rt_operations rt) \<and> fn_accepts fn x
        \<and> (oidc_Enabled (cfg_Oidc cfg) \<longrightarrow> (\<forall>f. fn \<noteq> OnNothing f) \<longrightarrow>
            (\<exists>v token tok cs. Init (cfg_Oidc cfg) discovery = Inr (Some v)
               \<and> bearerToken (header_get r ''Authorization'') = Some token
               \<and> tokens v token = Inr tok \<and> tok_Subject tok \<noteq> [] \<and> tok_claims tok = Inr cs
               \<and> (if op_OperationID op = ''get-profile'' then ''profile:read'' else ''profile:write'')
                   \<in> set (claimList cs (oidc_ScopeClaim (cfg_Oidc cfg)))
               \<and> (op_OperationID op = ''delete-profile'' \<longrightarrow> ''admin'' \<in> set (claimList cs (oidc_RolesClaim (cfg_Oidc cfg))))))) p"
proof -
  obtain g where ops: "rt_operations rt = registerOperations WriteErr svc (http_MaxBodyBytes (cfg_Http cfg)) g"
    and g: "oidc_Enabled (cfg_Oidc cfg) \<Longrightarrow> \<exists>v. Init (cfg_Oidc cfg) discovery = Inr (Some v) \<and> v_cfg v = cfg_Oidc cfg
      \<and> g = Some \<lparr>g_verifier = Verify (v_cfg v) (tokens v) header_typ\<rparr>"
    using Ready_service [OF started assms(2)] by blast
  obtain p where p: "plans (serve_request env lib dl cfg rt) r s p" "plan_allowed (sanctioned (rt_operations rt) g r) p"
    by (rule plannedE [OF serve_request_planned [OF assms(3,4) ops]])
  show ?thesis
  proof (intro exI conjI, rule p(1), rule plan_allowed_mono [OF p(2)], intro conjI impI)
    fix op fn x
    assume call: "sanctioned (rt_operations rt) g r op fn x"
    then show "(op, fn) \<in> set (rt_operations rt)" "fn_accepts fn x" by (simp_all add: sanctioned_def)
    assume on: "oidc_Enabled (cfg_Oidc cfg)" and "\<forall>f. fn \<noteq> OnNothing f"
    from g [OF on] obtain v where v: "Init (cfg_Oidc cfg) discovery = Inr (Some v)" "v_cfg v = cfg_Oidc cfg"
      "g = Some \<lparr>g_verifier = Verify (v_cfg v) (tokens v) header_typ\<rparr>" by blast
    with call \<open>\<forall>f. fn \<noteq> OnNothing f\<close> obtain i
      where i: "credited (Verify (v_cfg v) (tokens v) header_typ) r i" "may (op_OperationID op) i"
      by (auto simp: sanctioned_def)
    from credited_claims [OF i] v show "\<exists>v token tok cs. Init (cfg_Oidc cfg) discovery = Inr (Some v)
        \<and> bearerToken (header_get r ''Authorization'') = Some token
        \<and> tokens v token = Inr tok \<and> tok_Subject tok \<noteq> [] \<and> tok_claims tok = Inr cs
        \<and> (if op_OperationID op = ''get-profile'' then ''profile:read'' else ''profile:write'')
            \<in> set (claimList cs (oidc_ScopeClaim (cfg_Oidc cfg)))
        \<and> (op_OperationID op = ''delete-profile'' \<longrightarrow> ''admin'' \<in> set (claimList cs (oidc_RolesClaim (cfg_Oidc cfg))))"
      by metis
  qed
qed

lemma follow_state: "st_app (snd (follow_plan (Calls op fn ids x finish) a)) = snd (call_fn fn ids x a)"
  by (simp add: split_beta)

text \<open>A change of the table by a planned request is that of one sanctioned call.\<close>

lemma sanctioned_change:
  assumes "planned (sanctioned ops (Some g)) serve"
    and ops: "ops = registerOperations WriteErr (profile_services ds ping pg) mb (Some g)"
    and changed: "db_table (st_app (snd (serve r (s\<lparr>st_app := d\<rparr>)))) u \<noteq> db_table d u"
  obtains op fn ids i where "(op, fn) \<in> set (registerProfile WriteErr (profile_services ds ping pg) mb (Some g))"
    "handler_leaves fn ids d (st_app (snd (serve r (s\<lparr>st_app := d\<rparr>))))"
    "credited (g_verifier g) r i" "may (op_OperationID op) i"
proof -
  obtain p where p: "plans serve r s p" "plan_allowed (sanctioned ops (Some g) r) p" by (rule plannedE [OF assms(1)])
  have run: "serve r (s\<lparr>st_app := d\<rparr>) = follow_plan p d" using p(1) by (simp add: plans_def)
  from changed obtain op fn ids x finish where plan: "p = Calls op fn ids x finish" unfolding run by (cases p) auto
  have call: "(op, fn) \<in> set ops" "fn_accepts fn x"
    "(\<forall>f. fn \<noteq> OnNothing f) \<Longrightarrow> \<exists>i. credited (g_verifier g) r i \<and> may (op_OperationID op) i"
    using p(2) by (auto simp: plan sanctioned_def)
  have leaves: "handler_leaves fn ids d (st_app (snd (serve r (s\<lparr>st_app := d\<rparr>))))"
    unfolding run plan follow_state by (rule call_fn_leaves [OF call(2)])
  have "(op, fn) \<notin> set (registerHealth (profile_services ds ping pg))"
    using health_handler_leaves [OF _ leaves] changed by auto
  then have reg: "(op, fn) \<in> set (registerProfile WriteErr (profile_services ds ping pg) mb (Some g))"
    using call(1) by (simp add: ops registerOperations_def)
  then have "\<forall>f. fn \<noteq> OnNothing f" by (auto simp: registerProfile_def)
  with call(3) that [OF reg leaves] show thesis by blast
qed

text \<open>
  C1: interleaving opens no door.  Any number of requests, arriving and overtaking each other
  as they may: if a profile is not what it was, one of them executed a statement and carried a
  bearer token that the provider's key set verified and whose claims list the write scope; and
  if the profile is gone, the admin role as well.
\<close>

theorem concurrent_changes_only_when_authorised:
  assumes started: "startup DefaultConfig WriteErr config_result otel_result db_result discovery
      (\<lambda>v. Verify (v_cfg v) (tokens v) header_typ) = Ready cfg flush rt server"
    and "db_result cfg = Inr (initServices (initRepositories ds ping pg))" and "oidc_Enabled (cfg_Oidc cfg)"
    and "library_brackets lib" and "planning_dispatch dl"
    and trace: "conc_trace run_in_flight skipped max_conns d es s"
    and flights: "\<forall>i fl. Arrive i fl \<in> set es \<longrightarrow> flight_of (serve_request env lib dl cfg rt) (rt_operations rt) fl"
    and changed: "db_table (cc_db s) u \<noteq> db_table d u"
  shows "\<exists>i fl v token tok cs. Arrive i fl \<in> set es \<and> Execute_statement i \<in> set es
    \<and> Init (cfg_Oidc cfg) discovery = Inr (Some v)
    \<and> bearerToken (header_get (fl_request fl) ''Authorization'') = Some token
    \<and> tokens v token = Inr tok \<and> tok_Subject tok \<noteq> [] \<and> tok_claims tok = Inr cs
    \<and> ''profile:write'' \<in> set (claimList cs (oidc_ScopeClaim (cfg_Oidc cfg)))
    \<and> (db_table (cc_db s) u = None \<longrightarrow> ''admin'' \<in> set (claimList cs (oidc_RolesClaim (cfg_Oidc cfg))))"
proof -
  let ?serve = "serve_request env lib dl cfg rt"
  obtain v where v: "Init (cfg_Oidc cfg) discovery = Inr (Some v)" "v_cfg v = cfg_Oidc cfg"
    and ops: "rt_operations rt = registerOperations WriteErr (profile_services ds ping pg)
      (http_MaxBodyBytes (cfg_Http cfg)) (Some \<lparr>g_verifier = Verify (v_cfg v) (tokens v) header_typ\<rparr>)"
    using Ready_service [OF started assms(2)] assms(3) by auto
  have ex: "explained run_in_flight skipped d (executed es) s" by (rule trace_explained [OF trace])
  then have "sequential run_in_flight (map (call_of s) (executed es)) d = (map (answer_of s) (executed es), cc_db s)"
    by (simp add: explained_def)
  with sequential_last_change [of "\<lambda>d. db_table d u" run_in_flight "map (call_of s) (executed es)" d] changed
  obtain i d' where i: "i \<in> set (executed es)"
    and moved: "db_table (snd (run_in_flight (call_of s i) d')) u \<noteq> db_table d' u"
    and end_: "db_table (snd (run_in_flight (call_of s i) d')) u = db_table (cc_db s) u" by auto
  let ?fl = "call_of s i"
  have arrived: "Arrive i ?fl \<in> set es"
    using explained_in [OF ex i] trace_arrivals [OF trace] by (auto simp: call_of_def)
  let ?t = "st_app (snd (?serve (fl_request ?fl) ((fl_state ?fl)\<lparr>st_app := d'\<rparr>)))"
  have "flight_of ?serve (rt_operations rt) ?fl" using flights arrived by blast
  then have left: "snd (run_in_flight ?fl d') = ?t"
    by (simp add: flight_served served_alone_def outcome_def)
  have differs: "db_table ?t u \<noteq> db_table d' u" using moved by (simp add: left)
  obtain op fn ids who where "(op, fn) \<in> set (registerProfile WriteErr (profile_services ds ping pg)
        (http_MaxBodyBytes (cfg_Http cfg)) (Some \<lparr>g_verifier = Verify (v_cfg v) (tokens v) header_typ\<rparr>))"
      "handler_leaves fn ids d' ?t" "credited (Verify (v_cfg v) (tokens v) header_typ) (fl_request ?fl) who"
      "may (op_OperationID op) who"
    by (rule sanctioned_change [OF serve_request_planned [OF assms(4,5) ops] ops differs, simplified]) (rule that)
  from credited_change [OF this(1,2) differs this(3,4)] show ?thesis
    using arrived i v end_ unfolding left executed_iff by (intro exI [of _ i] exI [of _ ?fl] exI [of _ v]) simp
qed


section \<open>A concrete session\<close>

lemma wrapping_layer_brackets: "wrapping_layer mw \<Longrightarrow> bracketing mw"
  unfolding wrapping_layer_def wrapping_def by (elim exE) (rule wraps_brackets)

lemma sample_lib_brackets: "library_brackets sample_lib"
  unfolding library_brackets_def by (intro conjI allI wrapping_layer_brackets sample_layers_wrap)

lemma sample_adapt_planned: "planned (\<lambda>_ op' fn' x. op' = op \<and> fn' = fn \<and> fn_accepts fn x) (sample_adapt op fn)"
proof (rule plannedI)
  fix r and s :: "'a http"
  let ?q = "\<lparr>create_FirstName = ''Ada'', create_LastName = ''Byron''\<rparr>"
  show "\<exists>p. plans (sample_adapt op fn) r s p \<and> plan_allowed (\<lambda>op' fn' x. op' = op \<and> fn' = fn \<and> fn_accepts fn x) p"
  proof (cases fn)
    case (OnCreate f)
    then show ?thesis
      using fixed_names_valid
      by (intro exI [of _ "Calls op fn (ids_of (rq_ctx r)) (CreateInput ?q) (\<lambda>_. (Returned, s))"])
         (simp add: plans_def sample_adapt_def result_with_def split_beta)
  qed (intro exI [of _ "Ends Returned s"], simp add: plans_def sample_adapt_def)+
qed

lemma sample_dispatch_planning: "planning_dispatch sample_dispatch"
proof -
  have "planned (\<lambda>_ _ _ _. False) (dl_other sample_dispatch)"
    by (rule plannedI, rule_tac x = "Ends Returned (update_writer (WriteHeader 404) s)" in exI)
       (simp add: plans_def sample_dispatch_def)
  moreover have "dl_find sample_dispatch ops r = Some x \<Longrightarrow> x \<in> set ops" for ops :: "('a operation \<times> 'a operation_fn) list" and r x
    using sample_dispatch_lawful unfolding lawful_dispatch_def by blast
  ultimately show ?thesis
    unfolding planning_dispatch_def using sample_adapt_planned by (simp add: sample_dispatch_def) blast
qed

theorem one_authorised_call_witness:
  "\<exists>rt p. sample_startup sample_pg = Ready sample_system_cfg NoopShutdown rt (NewServer (cfg_Http sample_system_cfg))
     \<and> plans (serve_request sample_env sample_lib sample_dispatch sample_system_cfg rt) sample_post (fresh_http empty_db) p"
proof -
  obtain rt where rt: "sample_startup sample_pg = Ready sample_system_cfg NoopShutdown rt (NewServer (cfg_Http sample_system_cfg))"
    using sample_started by blast
  from one_authorised_call [OF rt [unfolded sample_startup_def] refl sample_lib_brackets sample_dispatch_planning,
      of sample_env sample_post "fresh_http empty_db"] rt
  show ?thesis by blast
qed

text \<open>The creation of a profile, as a session of one request.\<close>

lemma sample_session:
  assumes "sample_startup sample_pg = Ready sample_system_cfg NoopShutdown rt server"
  obtains fl s where "flight_of (serve_request sample_env sample_lib sample_dispatch sample_system_cfg rt) (rt_operations rt) fl"
    "fl_request fl = sample_post"
    "conc_trace run_in_flight skipped 1 empty_db ([Arrive 0 fl, Connect 0, Execute_statement 0] @ []) s" "cc_db s = sample_db"
proof -
  let ?serve = "serve_request sample_env sample_lib sample_dispatch sample_system_cfg rt"
  obtain g where ops: "rt_operations rt = registerOperations (\<lambda>c msg. WriteHeader c)
      (profile_services (\<lambda>_. []) (\<lambda>_. (None, undefined)) sample_pg) (http_MaxBodyBytes (cfg_Http sample_system_cfg)) g"
    using Ready_service [OF assms [unfolded sample_startup_def] refl] by blast
  obtain p where p: "plans ?serve sample_post (fresh_http empty_db) p"
    "plan_allowed (sanctioned (rt_operations rt) g sample_post) p"
    by (rule plannedE [OF serve_request_planned [OF sample_lib_brackets sample_dispatch_planning ops]])
  let ?fl = "\<lparr>fl_request = sample_post, fl_state = fresh_http empty_db, fl_plan = p\<rparr>"
  have fl: "flight_of ?serve (rt_operations rt) ?fl"
    unfolding flight_of_def using p(1) plan_allowed_mono [OF p(2)] by (simp add: sanctioned_def)
  have "snd (run_in_flight ?fl empty_db) = sample_db"
    unfolding flight_served [OF fl] using sample_served [OF assms]
    by (simp add: served_alone_def outcome_def fresh_http_with)
  with single_trace [of run_in_flight skipped empty_db ?fl] fl show thesis by (intro that) auto
qed

theorem concurrent_changes_only_when_authorised_witness:
  "\<exists>rt fl s. sample_startup sample_pg = Ready sample_system_cfg NoopShutdown rt (NewServer (cfg_Http sample_system_cfg))
     \<and> conc_trace run_in_flight (\<lambda>fl. (Returned, fl_state fl)) 1 empty_db ([Arrive 0 fl, Connect 0, Execute_statement 0] @ []) s
     \<and> db_table (cc_db s) 0 \<noteq> None
     \<and> (\<exists>token. bearerToken (header_get (fl_request fl) ''Authorization'') = Some token)"
proof -
  obtain rt where rt: "sample_startup sample_pg = Ready sample_system_cfg NoopShutdown rt (NewServer (cfg_Http sample_system_cfg))"
    using sample_started by blast
  obtain fl s where fl: "flight_of (serve_request sample_env sample_lib sample_dispatch sample_system_cfg rt) (rt_operations rt) fl"
    and s: "conc_trace run_in_flight (\<lambda>fl. (Returned, fl_state fl)) 1 empty_db ([Arrive 0 fl, Connect 0, Execute_statement 0] @ []) s"
      "cc_db s = sample_db"
    by (rule sample_session [OF rt])
  have stored: "db_table sample_db 0 \<noteq> None" "db_table (cc_db s) 0 \<noteq> db_table empty_db 0"
    by (simp_all add: s sample_db_def empty_db_def)
  have flights: "\<forall>i fl'. Arrive i fl' \<in> set ([Arrive 0 fl, Connect 0, Execute_statement 0] @ [])
      \<longrightarrow> flight_of (serve_request sample_env sample_lib sample_dispatch sample_system_cfg rt) (rt_operations rt) fl'"
    using fl by simp
  from concurrent_changes_only_when_authorised [OF rt [unfolded sample_startup_def] refl sample_Init_ok(2) sample_lib_brackets
      sample_dispatch_planning s(1) flights stored(2)]
  have "\<exists>token. bearerToken (header_get (fl_request fl) ''Authorization'') = Some token" by auto
  then show ?thesis using rt s stored(1) by (intro exI [of _ rt] exI [of _ fl] exI [of _ s]) simp
qed


end
