(* ===== verification/Spec2Isabelle.thy ===== *)
theory Spec2Isabelle
  imports Prelude GoStrings Errorx Authx OidcClaims Config Base64 Oidcx Telemetry Database TxManager
    Profile Uuid Repository Health Http Guard Operations Router Collector Serve Migrate
    System Response Concurrent Cli TestProvider TestPostgres Schema Secrecy Answers Sessions
begin

text \<open>
  A model of gopherizer, a Go service template: an HTTP API over chi and huma that stores
  profiles in Postgres, authenticates callers with OIDC access tokens, and is observable through
  structured logs, Prometheus metrics and OpenTelemetry traces.

  \<^bold>\<open>The program.\<close>  \<open>main.go\<close> runs a cobra command.  \<open>serve\<close>
  (\<open>cmd/serve\<close>) reads the configuration, installs tracing, opens the connection pool,
  discovers the identity provider, builds the router and serves until a signal arrives.
  \<open>migrate\<close> (\<open>cmd/migrate\<close>) applies or rolls back the schema.  A request passes the
  middleware stack of \<open>api/router.go\<close>, then the guard of its operation
  (\<open>api/auth.go\<close>), then the handler (\<open>api/operations.go\<close>), a service
  (\<open>internal/profile\<close>, \<open>internal/health\<close>) and a repository
  (\<open>database/repositories\<close>).  A failure travels back as an error value whose type, set
  where the driver failed (\<open>pkg/errorx\<close>), decides the status.

  \<^bold>\<open>The theories.\<close>

  \<^item> \<open>Prelude\<close>, \<open>GoStrings\<close>: collections and generic lemmas; Go strings as
    byte sequences, their decoding into runes, and the functions of \<open>strings\<close> and
    \<open>strconv\<close> the program calls.
  \<^item> \<open>Errorx\<close>: \<open>pkg/errorx/error.go\<close>.  Errors are trees; \<open>errors.Is\<close>,
    \<open>errors.As\<close> and \<open>errors.Join\<close> act on them.
  \<^item> \<open>Authx\<close>: \<open>pkg/authx\<close>, identities and requirements.  The lemmas give each
    combinator its boolean meaning and relate a requirement to the document generated from it.
  \<^item> \<open>OidcClaims\<close>, \<open>Base64\<close>, \<open>Oidcx\<close>: \<open>pkg/oidcx\<close>, claim lookup, token
    verification and provider discovery.  The locale \<open>token_verifier\<close> is the interface the
    guard relies on; \<open>Verify\<close> is its interpretation.
  \<^item> \<open>Config\<close>: \<open>config/config.go\<close>, the shipped \<open>default.toml\<close>, and the level
    policy of \<open>pkg/logx\<close>.
  \<^item> \<open>Telemetry\<close>: log records, spans, and \<open>pkg/otelx\<close>.
  \<^item> \<open>Database\<close>, \<open>TxManager\<close>: the connection string, pool settings, opening, health
    and query spans of \<open>database/\<close>, and transactions (\<open>tx.go\<close>).
  \<^item> \<open>Profile\<close>, \<open>Uuid\<close>, \<open>Repository\<close>: \<open>internal/base.go\<close>,
    \<open>internal/profile\<close> and \<open>database/repositories\<close>, over the table and the statements
    of \<open>database/migrations\<close> and \<open>repositories/sql\<close>.  The locale \<open>profile_store\<close>
    is what the service relies on; the repository over the table is its interpretation, with
    the stored names as abstract state, and \<open>db_reachable\<close> are the states a process can
    bring the table to.
  \<^item> \<open>Schema\<close>: the migration files, as statements on a schema with the rows stored under
    it, and which rows the table they create takes.
  \<^item> \<open>Health\<close>: \<open>internal/health\<close>, over the locale \<open>health_source\<close>.
  \<^item> \<open>Http\<close>: requests, the response writer, handlers that return or panic, and the
    middlewares that watch a request: correlation, access log, recovery, tracing, metrics.  The
    locale \<open>observer\<close> is the contract of a middleware that changes nothing, with a
    composition of two as a sublocale.
  \<^item> \<open>Guard\<close>: \<open>api/errors.go\<close> and \<open>api/auth.go\<close>.
  \<^item> \<open>Operations\<close>: \<open>api/operations.go\<close>, \<open>api/bootstrap.go\<close> and the declared
    constraints of the inputs.
  \<^item> \<open>Router\<close>: CORS, limits, client addresses, the stack, the router, the server's
    settings and schema names.
  \<^item> \<open>Collector\<close>: the Prometheus collectors and their registry, over the locale
    \<open>collector\<close>, of which each of the four is an interpretation.
  \<^item> \<open>Serve\<close>, \<open>Migrate\<close>: the commands.  The two goroutines of \<open>serve\<close> are a step
    relation on the state they share, one event for each access.
  \<^item> \<open>Cli\<close>: \<open>main.go\<close> and the command tree of \<open>cmd/\<close>, with the exit status
    of each command line.
  \<^item> \<open>System\<close>: the service as startup assembles it, the stack around the dispatch of a
    request to one of its operations, over the profiles table.  The locale \<open>forwarding\<close> is
    the contract of a layer that answers itself or hands the request on with its credential.
  \<^item> \<open>Response\<close>: what a response writer may look like, kept by every layer; the locale is
    \<open>response_keeping\<close>.
  \<^item> \<open>Concurrent\<close>: any number of requests interleaved over one table and one pool of
    connections, and the sequential run that explains them.  The locale
    \<open>served_atomically\<close> is interpreted by the handlers over the repository, and in
    \<open>Sessions\<close> by the requests themselves.
  \<^item> \<open>Secrecy\<close>: what a caller can learn, by comparing two runs of a session on different
    tables.  The locale \<open>oblivious\<close> is the contract of a layer that reads the application
    only through what it wraps; every layer and the guard are interpretations.
  \<^item> \<open>Answers\<close>: the status a caller sees, against a reference that reads the table and the
    driver's failure.  The locale \<open>relaying\<close> is the contract of a layer that leaves a
    committed answer as it is; chi's timeout, as documented, is one of its interpretations.
  \<^item> \<open>Sessions\<close>: a request as a computation around at most one handler call, and
    sessions of concurrent requests through the whole stack.  The locale \<open>bracketing\<close> is
    the contract of a layer that keeps a request of that form.  Both it and \<open>oblivious\<close>
    are sublocales of \<open>wrapping\<close>, which the layers interpret.
  \<^item> \<open>TestProvider\<close>, \<open>TestPostgres\<close>: \<open>pkg/testinfra\<close>, the identity provider the
    tests run in process and the database container they wait for.

  \<^bold>\<open>How the model corresponds to the code.\<close>  A function that returns a value and an error
  is a function into a sum.  State is passed explicitly and returned updated.  A middleware is a
  function from handlers to handlers, so what is proved of one holds whatever runs inside it.
  What a library, the driver, the network or the scheduler decides is an argument: the results
  of go-oidc, viper, pgx, goose and the OTLP exporter, the error writer of huma and the way it
  adapts a typed handler, the layers of chi, cors and httprate, the identifiers and clock of
  Postgres and whether a statement fails before it runs.  Integers the code never overflows are
  \<open>int\<close>; an identifier is a 128-bit word; times are nanoseconds.

  \<^bold>\<open>What is shown.\<close>  Authorization: only a token that passed every check yields an
  identity, a requirement means what it says, an operation behind the guard is not run for a
  request that does not satisfy it, and neither a misconfiguration nor a failed startup opens
  one.  Storage: the table's invariant, reads after writes, atomic transactions, and the exact
  status of each outcome; a request that meets its declared constraints can only fail with 404
  or for the database's own reasons; the migrations apply and roll back, or stop where the
  server lacks a function.  Robustness: no panic escapes the stack, every panic is answered and
  logged under the request's ids, discovery ends within its timeout, startup fails closed and a
  process that exits 0 has released everything.  Observability: the watching middlewares are
  transparent, spans and metrics say what they should, a scrape cannot fail and reports what was
  recorded.  The whole: serving a request makes at most one call of a handler, one its token
  grants; however requests to a service that started with authentication enabled interleave, no
  stored profile changes without a verified token that holds the write scope, and what leaves the
  server is that of some sequential order through the same stack; waiting for a connection cannot
  deadlock; stored names influence only the answers to tokens that hold the read scope, and
  callers without a scope see the same whatever is stored; the table stays sound whoever calls; a
  request that reached the database is answered with the status its outcome calls for, an expired
  deadline included; the response stays a legal one; and every run of the process ends.  The test
  provider issues what the verifier reads back.
  Some properties state a defect as it is: the unescaped connection string, the statement
  timeout that is truncated to nothing, requests that panic and are not counted, the race on
  the shutdown path, the exit status of a failed migration.

  \<^bold>\<open>Bounds.\<close>  The discovery loop runs on fuel; \<open>discover_terminates\<close> gives an amount
  that suffices for any timeout, since each further round takes at least the backoff.  The
  wait for the test container also runs on fuel; it may run forever, and
  \<open>RunPostgres_returns_iff\<close> says exactly when it returns.  A run of the process has at most
  eleven steps.  All other functions are total.  Decoding follows Go on every byte sequence.
  Simple case folding is exact on the runes that fold into ASCII, which is all a comparison with
  an ASCII literal can see.  Conversions to \<open>float64\<close> are kept symbolic.

  \<^bold>\<open>What is not modelled.\<close>  The generated mock, huma's routing and JSON encoding, and the
  internals of every library.  Rate limiting, CORS matching and the timeout itself belong to
  their libraries; only their settings and place in the stack are modelled, and the theorems
  about the whole stack state what they need of those layers as hypotheses.  Each is a function
  of the request and the state, so the counters a rate limiter keeps between requests are
  outside the model, and so is the time an answer takes.  In a session of concurrent requests each
  has a clock, ids and records of its own; only the table and the pool are shared.  goose's \<open>Up\<close> and
  \<open>Down\<close> are assumed to do what they document in the theorem on migrations, and nothing
  is assumed of them elsewhere.  A statement whose outcome is lost after it ran on the server is
  not distinguished from one that did not run.

  \<^bold>\<open>Plan.\<close>  Every operation of the program's own code is modelled.  What could be
  added lies in its libraries: a limiter with counters, huma's validation and routing, and
  statements whose outcome is lost.
\<close>

end
